theory Spec2Isabelle
  imports Complex_Main "HOL-Library.Word" "HOL-Library.Multiset"
begin

unbundle bit_operations_syntax

section \<open>Seasonal Growth: world objects, spawning and the radial force model\<close>

text \<open>
  The JavaScript sources are embedded function by function. A JavaScript number is
  modelled as a \<^typ>\<open>real\<close>: arithmetic is exact, and the theorems carry the hypotheses
  (a positive agent size, a positive zoom) under which no operation of the source yields
  \<^verbatim>\<open>Infinity\<close> or \<^verbatim>\<open>NaN\<close>. Counters and frame numbers are natural numbers
  or integers; the 32-bit operations of the random number generator work on \<^typ>\<open>32 word\<close>.

  Record fields carry a short prefix, since \<^verbatim>\<open>x\<close>, \<^verbatim>\<open>y\<close> and
  \<^verbatim>\<open>size\<close> would hide variables and constants of the logic: \<^verbatim>\<open>o\<close> for a
  GameObject, \<^verbatim>\<open>p\<close> for the Player, \<^verbatim>\<open>c\<close> for the Camera. The sprite and
  the animation fields of a GameObject (rotation, bobbing), which only the renderer reads,
  are left out.
\<close>

subsection \<open>World constants (biomes.js)\<close>

definition WORLD_WIDTH :: real where
  "WORLD_WIDTH = 336 * 72"

definition WORLD_HEIGHT :: real where
  "WORLD_HEIGHT = 262 * 72"

definition WORLD_CENTER_X :: real where
  "WORLD_CENTER_X = WORLD_WIDTH / 2"

definition WORLD_CENTER_Y :: real where
  "WORLD_CENTER_Y = WORLD_HEIGHT / 2"

definition ISLAND_RADIUS_X :: real where
  "ISLAND_RADIUS_X = WORLD_WIDTH * 0.35"

definition ISLAND_RADIUS_Y :: real where
  "ISLAND_RADIUS_Y = WORLD_HEIGHT * 0.35"

subsection \<open>Spawn table entries and biomes (biomes.js, buildBiomes)\<close>

text \<open>
  An entry of a biome's seasonal object table, as \<^verbatim>\<open>buildBiomes\<close> builds it. The
  weight and the two player-size gates may be absent in the data (\<^verbatim>\<open>undefined\<close>).
  \<^verbatim>\<open>adjustedWeight\<close> is the field that \<^verbatim>\<open>weightedRandomSelect\<close> adds to its
  copies; table entries do not have it.
\<close>

record SpawnEntry =
  emoji :: string
  ename :: string
  minSize :: real
  maxSize :: real
  weight :: "real option"
  spawnPattern :: string
  minPlayerSize :: "real option"
  maxPlayerSize :: "real option"
  adjustedWeight :: "real option"

datatype Season = Spring | Summer | Fall | Winter

record Biome =
  biomeId :: string
  seasonObjects :: "Season \<Rightarrow> SpawnEntry list"
  objectDensity :: real
  isOcean :: bool
  terrainSpeed :: "string option"

subsection \<open>GameObject (gameObject.js) and Player (player.js): the data\<close>

record GameObject =
  ox :: real
  oy :: real
  osize :: real
  otype :: SpawnEntry
  collected :: bool
  isBoundary :: bool
  ovx :: real
  ovy :: real

text \<open>The constructor: velocity zero, not collected, not a boundary object.\<close>

definition newGameObject :: "real \<Rightarrow> real \<Rightarrow> real \<Rightarrow> SpawnEntry \<Rightarrow> GameObject" where
  "newGameObject x y sz ty =
     \<lparr>ox = x, oy = y, osize = sz, otype = ty, collected = False, isBoundary = False,
      ovx = 0, ovy = 0\<rparr>"

record Player =
  px :: real
  py :: real
  pvx :: real
  pvy :: real
  psize :: real
  currentBiome :: "Biome option"
  terrainSpeedMultiplier :: real

definition newPlayer :: "real \<Rightarrow> real \<Rightarrow> real \<Rightarrow> Player" where
  "newPlayer x y sz =
     \<lparr>px = x, py = y, pvx = 0, pvy = 0, psize = sz, currentBiome = None,
      terrainSpeedMultiplier = 1\<rparr>"

text \<open>\<^verbatim>\<open>canCollect(obj) { return obj.size < this.size * 0.95; }\<close>\<close>

definition canCollect :: "Player \<Rightarrow> GameObject \<Rightarrow> bool" where
  "canCollect p obj = (osize obj < psize p * 0.95)"

subsection \<open>JavaScript arithmetic\<close>

text \<open>
  The remainder operator \<^verbatim>\<open>a % b\<close> on numbers truncates the quotient towards zero, so
  the result has the sign of the dividend. The wrap used throughout the sources is
  \<^verbatim>\<open>((v % dim) + dim) % dim\<close>.
\<close>

definition jsTrunc :: "real \<Rightarrow> int" where
  "jsTrunc r = (if 0 \<le> r then \<lfloor>r\<rfloor> else \<lceil>r\<rceil>)"

definition jsMod :: "real \<Rightarrow> real \<Rightarrow> real" where
  "jsMod a b = a - b * of_int (jsTrunc (a / b))"

definition wrapCoord :: "real \<Rightarrow> real \<Rightarrow> real" where
  "wrapCoord v m = jsMod (jsMod v m + m) m"

text \<open>
  Where a claim is about a division by zero or about a result that is not a number, the
  operation is checked and the failure is a value. \<^verbatim>\<open>Math.pow\<close> with a fractional
  exponent and \<^verbatim>\<open>Math.sqrt\<close> give \<^verbatim>\<open>NaN\<close> on a negative argument; reading a
  property of an absent object throws a TypeError.
\<close>

datatype error = DivisionByZero | NotANumber | TypeError

definition bindE :: "error + 'a \<Rightarrow> ('a \<Rightarrow> error + 'b) \<Rightarrow> error + 'b" where
  "bindE m f = (case m of Inl e \<Rightarrow> Inl e | Inr v \<Rightarrow> f v)"

definition checkedDiv :: "real \<Rightarrow> real \<Rightarrow> error + real" where
  "checkedDiv a b = (if b = 0 then Inl DivisionByZero else Inr (a / b))"

definition checkedPow :: "real \<Rightarrow> real \<Rightarrow> error + real" where
  "checkedPow b e = (if b < 0 then Inl NotANumber else Inr (b powr e))"

definition checkedSqrt :: "real \<Rightarrow> error + real" where
  "checkedSqrt v = (if v < 0 then Inl NotANumber else Inr (sqrt v))"

text \<open>
  The numbers of the source are IEEE 754 doubles, and every arithmetic operation rounds its
  exact result to the nearest double, ties to even. \<open>fl\<close> is that rounding to 53
  significant bits: the result is a multiple of \<open>2 ^ ulpExp x\<close>, the spacing of the
  doubles around \<open>x\<close>. The exponent range is not modelled (no overflow to
  \<^verbatim>\<open>Infinity\<close>, no gradual underflow), which is exact for magnitudes between
  \<open>2 ^ (-1022)\<close> and \<open>2 ^ 1024\<close>. \<^verbatim>\<open>Math.sqrt\<close> is correctly rounded;
  \<^verbatim>\<open>Math.pow\<close> is taken as correctly rounded too.
\<close>

definition roundHalfEven :: "real \<Rightarrow> int" where
  "roundHalfEven q =
     (let f = \<lfloor>q\<rfloor>;
          r = q - of_int f
      in if r < 1 / 2 then f
         else if 1 / 2 < r then f + 1
         else if even f then f else f + 1)"

definition ulpExp :: "real \<Rightarrow> int" where
  "ulpExp x = \<lfloor>log 2 \<bar>x\<bar>\<rfloor> - 52"

definition fl :: "real \<Rightarrow> real" where
  "fl x = (if x = 0 then 0
           else of_int (roundHalfEven (x / 2 powr of_int (ulpExp x))) * 2 powr of_int (ulpExp x))"

text \<open>The checked operations on doubles: the same failures, and the result rounded.\<close>

definition checkedDivD :: "real \<Rightarrow> real \<Rightarrow> error + real" where
  "checkedDivD a b = (if b = 0 then Inl DivisionByZero else Inr (fl (a / b)))"

definition checkedPowD :: "real \<Rightarrow> real \<Rightarrow> error + real" where
  "checkedPowD b e = (if b < 0 then Inl NotANumber else Inr (fl (b powr e)))"

definition checkedSqrtD :: "real \<Rightarrow> error + real" where
  "checkedSqrtD v = (if v < 0 then Inl NotANumber else Inr (fl (sqrt v)))"

subsection \<open>GameObject.update and GameObject.applyGravity (gameObject.js)\<close>

text \<open>
  \<^verbatim>\<open>update(worldWidth = null, worldHeight = null)\<close>: the position moves by the velocity,
  is wrapped when both dimensions are given and non-zero, and the velocity decays.
\<close>

definition GameObject_update :: "real option \<Rightarrow> real option \<Rightarrow> GameObject \<Rightarrow> GameObject" where
  "GameObject_update worldWidth worldHeight obj =
     (if ovx obj \<noteq> 0 \<or> ovy obj \<noteq> 0 then
        let x1 = ox obj + ovx obj;
            y1 = oy obj + ovy obj;
            wrapped = (case (worldWidth, worldHeight) of
                         (Some w, Some h) \<Rightarrow>
                           if w \<noteq> 0 \<and> h \<noteq> 0 then (wrapCoord x1 w, wrapCoord y1 h) else (x1, y1)
                       | _ \<Rightarrow> (x1, y1));
            vx1 = ovx obj * 0.95;
            vy1 = ovy obj * 0.95
        in obj\<lparr>ox := fst wrapped, oy := snd wrapped,
                ovx := (if \<bar>vx1\<bar> < 0.01 then 0 else vx1),
                ovy := (if \<bar>vy1\<bar> < 0.01 then 0 else vy1)\<rparr>
      else obj)"

text \<open>The shortest toroidal component: \<^verbatim>\<open>if (Math.abs(d) > dim / 2) d = d > 0 ? d - dim : d + dim\<close>.\<close>

definition shortestDelta :: "real \<Rightarrow> real \<Rightarrow> real" where
  "shortestDelta d m = (if \<bar>d\<bar> > m / 2 then (if d > 0 then d - m else d + m) else d)"

definition gravityDist :: "real \<Rightarrow> real \<Rightarrow> real \<Rightarrow> real \<Rightarrow> GameObject \<Rightarrow> real" where
  "gravityDist targetX targetY worldWidth worldHeight obj =
     (let dx = shortestDelta (targetX - ox obj) worldWidth;
          dy = shortestDelta (targetY - oy obj) worldHeight
      in sqrt (dx * dx + dy * dy))"

definition gravityRadius :: "real \<Rightarrow> real" where
  "gravityRadius playerSize = playerSize * sqrt (playerSize / 12) * 0.6"

definition maxVel :: real where
  "maxVel = 15"

definition applyGravity ::
  "real \<Rightarrow> real \<Rightarrow> real \<Rightarrow> real \<Rightarrow> real \<Rightarrow> real \<Rightarrow> GameObject \<Rightarrow> error + GameObject" where
  "applyGravity targetX targetY strength playerSize worldWidth worldHeight obj =
     (let dx = shortestDelta (targetX - ox obj) worldWidth;
          dy = shortestDelta (targetY - oy obj) worldHeight;
          dist = sqrt (dx * dx + dy * dy)
      in if dist < 1 then Inr obj
         else
           bindE (checkedDiv dx dist) (\<lambda>nx.
           bindE (checkedDiv dy dist) (\<lambda>ny.
           bindE (checkedPow (playerSize / 12) 1.8) (\<lambda>pw.
           bindE (checkedDiv (osize obj) playerSize) (\<lambda>sizeRatio.
           bindE (checkedSqrt (playerSize / 12)) (\<lambda>sq.
             let sizeMultiplier = pw * 0.02;
                 attractability = max 0 (1 - sizeRatio * 1.2);
                 gravityRadius = playerSize * sq * 0.6
             in if dist > gravityRadius then Inr obj
                else
                  bindE (checkedDiv dist gravityRadius) (\<lambda>normalizedDist.
                  bindE (checkedPow (1 - normalizedDist) 2.5) (\<lambda>distanceFactor.
                    let force = strength * sizeMultiplier * attractability * distanceFactor;
                        vx1 = ovx obj + nx * force;
                        vy1 = ovy obj + ny * force;
                        vel = sqrt (vx1 * vx1 + vy1 * vy1)
                    in if vel > maxVel then
                         bindE (checkedDiv vx1 vel) (\<lambda>ux.
                         bindE (checkedDiv vy1 vel) (\<lambda>uy.
                           Inr (obj\<lparr>ovx := ux * maxVel, ovy := uy * maxVel\<rparr>)))
                       else Inr (obj\<lparr>ovx := vx1, ovy := vy1\<rparr>)))))))))"

text \<open>
  applyGravity on doubles: the same statements with every operation rounded, in the order
  in which the source evaluates them (\<^verbatim>\<open>a * b * c\<close> is \<^verbatim>\<open>(a * b) * c\<close>), and with
  the literals \<^verbatim>\<open>1.8\<close>, \<^verbatim>\<open>0.02\<close>, \<^verbatim>\<open>1.2\<close> and \<^verbatim>\<open>0.6\<close> as the doubles nearest to
  them (\<^verbatim>\<open>2.5\<close>, \<^verbatim>\<open>12\<close>, \<^verbatim>\<open>15\<close>, \<^verbatim>\<open>2\<close> and \<^verbatim>\<open>1\<close> are doubles). The arguments
  and the fields of the object are doubles already.
\<close>

definition shortestDeltaD :: "real \<Rightarrow> real \<Rightarrow> real" where
  "shortestDeltaD d m =
     (if \<bar>d\<bar> > fl (m / 2) then (if d > 0 then fl (d - m) else fl (d + m)) else d)"

definition gravityDistD :: "real \<Rightarrow> real \<Rightarrow> real \<Rightarrow> real \<Rightarrow> GameObject \<Rightarrow> real" where
  "gravityDistD targetX targetY worldWidth worldHeight obj =
     (let dx = shortestDeltaD (fl (targetX - ox obj)) worldWidth;
          dy = shortestDeltaD (fl (targetY - oy obj)) worldHeight
      in fl (sqrt (fl (fl (dx * dx) + fl (dy * dy)))))"

definition gravityRadiusD :: "real \<Rightarrow> real" where
  "gravityRadiusD playerSize = fl (fl (playerSize * fl (sqrt (fl (playerSize / 12)))) * fl 0.6)"

definition applyGravityD ::
  "real \<Rightarrow> real \<Rightarrow> real \<Rightarrow> real \<Rightarrow> real \<Rightarrow> real \<Rightarrow> GameObject \<Rightarrow> error + GameObject" where
  "applyGravityD targetX targetY strength playerSize worldWidth worldHeight obj =
     (let dx = shortestDeltaD (fl (targetX - ox obj)) worldWidth;
          dy = shortestDeltaD (fl (targetY - oy obj)) worldHeight;
          dist = fl (sqrt (fl (fl (dx * dx) + fl (dy * dy))))
      in if dist < 1 then Inr obj
         else
           bindE (checkedDivD dx dist) (\<lambda>nx.
           bindE (checkedDivD dy dist) (\<lambda>ny.
           bindE (checkedPowD (fl (playerSize / 12)) (fl 1.8)) (\<lambda>pw.
           bindE (checkedDivD (osize obj) playerSize) (\<lambda>sizeRatio.
           bindE (checkedSqrtD (fl (playerSize / 12))) (\<lambda>sq.
             let sizeMultiplier = fl (pw * fl 0.02);
                 attractability = max 0 (fl (1 - fl (sizeRatio * fl 1.2)));
                 gravityRadius = fl (fl (playerSize * sq) * fl 0.6)
             in if dist > gravityRadius then Inr obj
                else
                  bindE (checkedDivD dist gravityRadius) (\<lambda>normalizedDist.
                  bindE (checkedPowD (fl (1 - normalizedDist)) 2.5) (\<lambda>distanceFactor.
                    let force = fl (fl (fl (strength * sizeMultiplier) * attractability) * distanceFactor);
                        vx1 = fl (ovx obj + fl (nx * force));
                        vy1 = fl (ovy obj + fl (ny * force));
                        vel = fl (sqrt (fl (fl (vx1 * vx1) + fl (vy1 * vy1))))
                    in if vel > maxVel then
                         bindE (checkedDivD vx1 vel) (\<lambda>ux.
                         bindE (checkedDivD vy1 vel) (\<lambda>uy.
                           Inr (obj\<lparr>ovx := fl (ux * maxVel), ovy := fl (uy * maxVel)\<rparr>)))
                       else Inr (obj\<lparr>ovx := vx1, ovy := vy1\<rparr>)))))))))"

subsection \<open>Terrain speed and Player.update (biomes.js, player.js)\<close>

definition TERRAIN_SPEED :: "string \<Rightarrow> real option" where
  "TERRAIN_SPEED k =
     (if k = ''normal'' then Some 1.0
      else if k = ''beach'' then Some 0.75
      else if k = ''wetland'' then Some 0.7
      else if k = ''ocean'' then Some 0.4
      else None)"

definition TERRAIN_PENALTY_REDUCTION_SIZE :: real where
  "TERRAIN_PENALTY_REDUCTION_SIZE = 200"

text \<open>
  \<^verbatim>\<open>biome.terrainSpeed || "normal"\<close> and \<^verbatim>\<open>TERRAIN_SPEED[terrainType] || TERRAIN_SPEED.normal\<close>:
  an absent or empty key and an unknown key both give the normal speed.
\<close>

definition getTerrainSpeedMultiplier :: "Biome \<Rightarrow> real \<Rightarrow> real" where
  "getTerrainSpeedMultiplier biome playerSize =
     (let terrainType = (case terrainSpeed biome of
                           None \<Rightarrow> ''normal''
                         | Some k \<Rightarrow> if k = [] then ''normal'' else k);
          baseSpeed = (case TERRAIN_SPEED terrainType of None \<Rightarrow> 1.0 | Some v \<Rightarrow> v);
          sizeRatio = min 1 (playerSize / TERRAIN_PENALTY_REDUCTION_SIZE);
          penaltyReduction = sizeRatio * 0.8
      in baseSpeed + (1.0 - baseSpeed) * penaltyReduction)"

definition BASE_ACCELERATION :: real where
  "BASE_ACCELERATION = 0.35"

definition BASE_FRICTION :: real where
  "BASE_FRICTION = 0.92"

definition BASE_MAX_SPEED :: real where
  "BASE_MAX_SPEED = 4.5"

record Input =
  up :: bool
  down :: bool
  left :: bool
  right :: bool

definition getMomentumFactor :: "Player \<Rightarrow> real" where
  "getMomentumFactor p = 1 + log 10 (psize p / 10) * 0.3"

text \<open>
  \<^verbatim>\<open>world.getBiomeAt\<close> is declared in world.js, which is not among the sources: the
  lookup is a parameter. \<^verbatim>\<open>world\<close> itself may be absent (\<^verbatim>\<open>if (world)\<close>).
\<close>

type_synonym World = "real \<Rightarrow> real \<Rightarrow> Biome"

definition Player_update :: "Input \<Rightarrow> real \<Rightarrow> real \<Rightarrow> World option \<Rightarrow> Player \<Rightarrow> Player" where
  "Player_update input worldWidth worldHeight world p0 =
     (let p = (case world of
                 None \<Rightarrow> p0
               | Some getBiomeAt \<Rightarrow>
                   let b = getBiomeAt (px p0) (py p0)
                   in p0\<lparr>currentBiome := Some b,
                         terrainSpeedMultiplier := getTerrainSpeedMultiplier b (psize p0)\<rparr>);
          momentum = getMomentumFactor p;
          sizeSpeedScale = sqrt (psize p / 12);
          acceleration = (BASE_ACCELERATION * sizeSpeedScale / momentum) * terrainSpeedMultiplier p;
          vy1 = (if up input then pvy p - acceleration else pvy p);
          vy2 = (if down input then vy1 + acceleration else vy1);
          vx1 = (if left input then pvx p - acceleration else pvx p);
          vx2 = (if right input then vx1 + acceleration else vx1);
          baseFriction0 = BASE_FRICTION + (1 - BASE_FRICTION) * (1 - 1 / momentum) * 0.5;
          baseFriction = (if terrainSpeedMultiplier p < 1.0
                          then baseFriction0 * (1 - (1 - terrainSpeedMultiplier p) * 0.1)
                          else baseFriction0);
          vx3 = vx2 * baseFriction;
          vy3 = vy2 * baseFriction;
          currentMaxSpeed = BASE_MAX_SPEED * sizeSpeedScale * terrainSpeedMultiplier p;
          speed = sqrt (vx3 * vx3 + vy3 * vy3);
          vx4 = (if speed > currentMaxSpeed then (vx3 / speed) * currentMaxSpeed else vx3);
          vy4 = (if speed > currentMaxSpeed then (vy3 / speed) * currentMaxSpeed else vy3);
          x1 = px p + vx4;
          y1 = py p + vy4;
          x2 = (if x1 < 0 then x1 + worldWidth else x1);
          x3 = (if x2 \<ge> worldWidth then x2 - worldWidth else x2);
          y2 = (if y1 < 0 then y1 + worldHeight else y1);
          y3 = (if y2 \<ge> worldHeight then y2 - worldHeight else y2)
      in p\<lparr>px := x3, py := y3, pvx := vx4, pvy := vy4\<rparr>)"

definition grow :: "real \<Rightarrow> Player \<Rightarrow> Player" where
  "grow amount p = p\<lparr>psize := psize p + amount\<rparr>"

subsection \<open>The biome classifier (biomes.js)\<close>

definition getDistanceFromCenter :: "real \<Rightarrow> real \<Rightarrow> real" where
  "getDistanceFromCenter x y =
     (let dx = (x - WORLD_CENTER_X) / ISLAND_RADIUS_X;
          dy = (y - WORLD_CENTER_Y) / ISLAND_RADIUS_Y
      in sqrt (dx * dx + dy * dy))"

definition getTerrainType :: "real \<Rightarrow> real \<Rightarrow> string" where
  "getTerrainType distFromCenter noiseValue =
     (let coastlineVariation = (noiseValue - 0.5) * 0.3;
          adjustedDist = distFromCenter - coastlineVariation
      in if adjustedDist < 0.85 then ''land''
         else if adjustedDist < 0.95 then ''beach''
         else if adjustedDist < 1.05 then ''wetland_shore''
         else ''ocean'')"

text \<open>
  \<^verbatim>\<open>BIOMES\<close> is built from data/biomes.json, which is not among the sources: the table
  is a parameter, a JavaScript object read by property name, so a missing key reads as
  \<^verbatim>\<open>undefined\<close> (\<open>None\<close>). The two noise arguments default to 0.5 when absent.
\<close>

type_synonym BiomeTable = "string \<Rightarrow> Biome option"

definition selectBiome ::
  "BiomeTable \<Rightarrow> real \<Rightarrow> real \<Rightarrow> real \<Rightarrow> string \<Rightarrow> real \<Rightarrow> real \<Rightarrow> real \<Rightarrow>
   real option \<Rightarrow> real option \<Rightarrow> Biome option" where
  "selectBiome BIOMES elevation moisture temperature zonePreference zoneStrength x y
       coastlineNoiseArg villageNoiseArg =
     (let coastlineNoise = (case coastlineNoiseArg of None \<Rightarrow> 0.5 | Some v \<Rightarrow> v);
          villageNoise = (case villageNoiseArg of None \<Rightarrow> 0.5 | Some v \<Rightarrow> v);
          dist = getDistanceFromCenter x y;
          terrainType = getTerrainType dist coastlineNoise
      in if terrainType = ''ocean'' then BIOMES ''ocean''
         else if terrainType = ''beach'' then BIOMES ''beach''
         else if terrainType = ''wetland_shore'' then
           (if moisture > 0.5 then BIOMES ''wetland'' else BIOMES ''beach'')
         else
           let isVillageCore = (villageNoise > 0.75 \<and> dist > 0.2 \<and> dist < 0.7);
               isVillageRing = (villageNoise > 0.55 \<and> dist > 0.15 \<and> dist < 0.75)
           in if isVillageCore \<and> temperature > 0.4 \<and> moisture < 0.6 then BIOMES ''village''
              else if isVillageRing \<and> villageNoise > 0.6 \<and> moisture < 0.55 then BIOMES ''farmland''
              else if isVillageRing \<and> villageNoise > 0.55 \<and> villageNoise \<le> 0.6 then BIOMES ''orchard''
              else if zonePreference = ''farmland'' \<and> zoneStrength > 0.5 \<and> temperature > 0.45
                      \<and> moisture < 0.55 then BIOMES ''farmland''
              else if zonePreference = ''beach'' \<and> elevation < 0.3 then BIOMES ''beach''
              else if zonePreference = ''wetland'' \<and> moisture > 0.6 then BIOMES ''wetland''
              else if elevation > 0.65 then BIOMES ''hills''
              else if (zonePreference = ''forest'' \<or> (moisture > 0.55 \<and> elevation > 0.4))
                      \<and> (zoneStrength > 0.4 \<or> moisture > 0.6) then BIOMES ''forest''
              else if zonePreference = ''orchard'' \<and> zoneStrength > 0.5 then BIOMES ''orchard''
              else if moisture > 0.75 then BIOMES ''wetland''
              else BIOMES ''meadow'')"

text \<open>The nine property names that selectBiome reads: the closed biome set.\<close>

definition biomeKeys :: "string list" where
  "biomeKeys = [''ocean'', ''beach'', ''wetland'', ''village'', ''farmland'', ''orchard'',
                ''hills'', ''forest'', ''meadow'']"

definition shouldSpawnForPlayerSize :: "SpawnEntry \<Rightarrow> real \<Rightarrow> bool" where
  "shouldSpawnForPlayerSize objDef playerSize =
     (if (case minPlayerSize objDef of None \<Rightarrow> False | Some m \<Rightarrow> playerSize < m) then False
      else if (case maxPlayerSize objDef of None \<Rightarrow> False | Some m \<Rightarrow> playerSize > m) then False
      else True)"

subsection \<open>SeededRandom (noise.js)\<close>

text \<open>
  mulberry32. \<^verbatim>\<open>this.state += 0x6d2b79f5\<close> is an addition of numbers, which does not wrap:
  the state is an integer, exact in the source while it stays below \<open>2^53\<close> (several
  million draws; every generator here is created anew for one spawning pass). The bit
  operations and \<^verbatim>\<open>Math.imul\<close> work on its low 32 bits.
\<close>

record SeededRandom =
  rngSeed :: int
  rngState :: int

definition newSeededRandom :: "int \<Rightarrow> SeededRandom" where
  "newSeededRandom s = \<lparr>rngSeed = s, rngState = s\<rparr>"

definition imul :: "32 word \<Rightarrow> 32 word \<Rightarrow> 32 word" where
  "imul a b = a * b"

text \<open>The three mixing lines of \<^verbatim>\<open>next()\<close>, on the 32-bit value of the new state.\<close>

definition mulberryMix :: "32 word \<Rightarrow> 32 word" where
  "mulberryMix t0 =
     (let t1 = imul (t0 XOR drop_bit 15 t0) (t0 OR 1);
          t2 = t1 XOR (t1 + imul (t1 XOR drop_bit 7 t1) (t1 OR 61))
      in t2 XOR drop_bit 14 t2)"

definition SeededRandom_next :: "SeededRandom \<Rightarrow> real \<times> SeededRandom" where
  "SeededRandom_next r =
     (let st = rngState r + 0x6d2b79f5
      in (real (unat (mulberryMix (word_of_int st))) / 4294967296, r\<lparr>rngState := st\<rparr>))"

subsection \<open>Weighted selection (sketch.js, weightedRandomSelect)\<close>

text \<open>
  The body of the \<^verbatim>\<open>items.map\<close> callback: \<^verbatim>\<open>item.weight || 1\<close>, then the boost of
  collectible entries or the reduction of obstacles when a player size is given. A
  threshold of zero (player size 0) makes the source divide by zero; that input is
  outside the model.
\<close>

definition adjustWeight :: "real option \<Rightarrow> SpawnEntry \<Rightarrow> real" where
  "adjustWeight playerSize item =
     (let weight0 = (case weight item of None \<Rightarrow> 1 | Some w \<Rightarrow> if w = 0 then 1 else w)
      in case playerSize of
           None \<Rightarrow> weight0
         | Some ps \<Rightarrow>
             let collectibleThreshold = ps * 0.95;
                 avgSize = (minSize item + maxSize item) / 2
             in if avgSize \<le> collectibleThreshold then
                  let sizeRatio = avgSize / collectibleThreshold;
                      boost = 1 + (1 - sizeRatio) * 4
                  in weight0 * boost
                else
                  let obstacleRatio = avgSize / collectibleThreshold;
                      reduction = min 0.99 (1 - 0.5 powr (obstacleRatio - 1))
                  in weight0 * (1 - reduction))"

definition adjustedWeightOf :: "SpawnEntry \<Rightarrow> real" where
  "adjustedWeightOf item = (case adjustedWeight item of None \<Rightarrow> 0 | Some w \<Rightarrow> w)"

text \<open>The cumulative draw: \<^verbatim>\<open>for (const item of adjustedItems) { rand -= ...; if (rand <= 0) return item; }\<close>\<close>

fun pickItem :: "real \<Rightarrow> SpawnEntry list \<Rightarrow> SpawnEntry option" where
  "pickItem rand [] = None"
| "pickItem rand (item # rest) =
     (let rand' = rand - adjustedWeightOf item
      in if rand' \<le> 0 then Some item else pickItem rand' rest)"

text \<open>
  The list may be missing (\<^verbatim>\<open>!items\<close>) and the player size may be \<^verbatim>\<open>null\<close>. The
  result \<open>None\<close> is \<^verbatim>\<open>null\<close>. The generator is only advanced when a draw is made.
\<close>

definition weightedRandomSelect ::
  "SpawnEntry list option \<Rightarrow> SeededRandom \<Rightarrow> real option \<Rightarrow> SpawnEntry option \<times> SeededRandom" where
  "weightedRandomSelect itemsArg rng playerSize =
     (case itemsArg of
        None \<Rightarrow> (None, rng)
      | Some [] \<Rightarrow> (None, rng)
      | Some (first # rest) \<Rightarrow>
          let items = first # rest;
              adjustedItems = map (\<lambda>item. item\<lparr>adjustedWeight := Some (adjustWeight playerSize item)\<rparr>) items;
              totalWeight = foldl (\<lambda>sum item. sum + adjustedWeightOf item) 0 adjustedItems;
              (u, rng') = SeededRandom_next rng;
              rand = u * totalWeight
          in case pickItem rand adjustedItems of
               Some item \<Rightarrow> (Some item, rng')
             | None \<Rightarrow> (Some first, rng'))"

subsection \<open>Distances and the over-cap eviction (sketch.js)\<close>

definition MAX_OBJECTS :: nat where
  "MAX_OBJECTS = 1500"

definition getWrappedDistance :: "real \<Rightarrow> real \<Rightarrow> real \<Rightarrow> real \<Rightarrow> real" where
  "getWrappedDistance x1 y1 x2 y2 =
     (let dx0 = \<bar>x1 - x2\<bar>;
          dy0 = \<bar>y1 - y2\<bar>;
          dx = (if dx0 > WORLD_WIDTH / 2 then WORLD_WIDTH - dx0 else dx0);
          dy = (if dy0 > WORLD_HEIGHT / 2 then WORLD_HEIGHT - dy0 else dy0)
      in sqrt (dx * dx + dy * dy))"

text \<open>
  The comparator passed to \<^verbatim>\<open>objects.sort\<close>: a positive result places \<open>a\<close> after
  \<open>b\<close>, that is, nearer to the end that \<^verbatim>\<open>slice\<close> keeps.
\<close>

definition nearCollectible :: "real \<Rightarrow> real \<Rightarrow> real \<Rightarrow> real \<Rightarrow> GameObject \<Rightarrow> bool" where
  "nearCollectible playerX playerY keepRadius collectibleThreshold a =
     (getWrappedDistance (ox a) (oy a) playerX playerY < keepRadius \<and> osize a < collectibleThreshold)"

definition evictCompare ::
  "real \<Rightarrow> real \<Rightarrow> real \<Rightarrow> real \<Rightarrow> GameObject \<Rightarrow> GameObject \<Rightarrow> real" where
  "evictCompare playerX playerY keepRadius collectibleThreshold a b =
     (let distA = getWrappedDistance (ox a) (oy a) playerX playerY;
          distB = getWrappedDistance (ox b) (oy b) playerX playerY;
          nearCollectibleA = (distA < keepRadius \<and> osize a < collectibleThreshold);
          nearCollectibleB = (distB < keepRadius \<and> osize b < collectibleThreshold)
      in if nearCollectibleA \<and> \<not> nearCollectibleB then 1
         else if nearCollectibleB \<and> \<not> nearCollectibleA then -1
         else
           let nearA = (distA < keepRadius);
               nearB = (distB < keepRadius)
           in if nearA \<and> \<not> nearB then 1
              else if nearB \<and> \<not> nearA then -1
              else
                let priorityA = 1 / max distA 1;
                    priorityB = 1 / max distB 1
                in priorityA - priorityB)"

text \<open>
  \<^verbatim>\<open>Array.prototype.sort\<close> with a comparator is a stable sort: an insertion sort that
  places an element before the first later element it does not sort after.
\<close>

fun insertBy :: "('a \<Rightarrow> 'a \<Rightarrow> real) \<Rightarrow> 'a \<Rightarrow> 'a list \<Rightarrow> 'a list" where
  "insertBy cmp a [] = [a]"
| "insertBy cmp a (b # bs) = (if cmp a b \<le> 0 then a # b # bs else b # insertBy cmp a bs)"

definition jsSort :: "('a \<Rightarrow> 'a \<Rightarrow> real) \<Rightarrow> 'a list \<Rightarrow> 'a list" where
  "jsSort cmp xs = foldr (insertBy cmp) xs []"

text \<open>
  The over-cap branch of updateDistanceBasedSpawning: sort by priority, then
  \<^verbatim>\<open>objects.slice(objects.length - MAX_OBJECTS)\<close>.
\<close>

definition evictOverCap :: "real \<Rightarrow> real \<Rightarrow> real \<Rightarrow> real \<Rightarrow> GameObject list \<Rightarrow> GameObject list" where
  "evictOverCap playerX playerY keepRadius playerSize objects =
     (if length objects > MAX_OBJECTS then
        let collectibleThreshold = playerSize * 0.95;
            sorted = jsSort (evictCompare playerX playerY keepRadius collectibleThreshold) objects
        in drop (length sorted - MAX_OBJECTS) sorted
      else objects)"

subsection \<open>Camera (camera.js)\<close>

record Camera =
  screenWidth :: real
  screenHeight :: real
  camWorldWidth :: real
  camWorldHeight :: real
  camX :: real
  camY :: real
  zoom :: real
  targetZoom :: real
  zoomSmoothing :: real
  smoothing :: real

definition newCamera :: "real \<Rightarrow> real \<Rightarrow> real \<Rightarrow> real \<Rightarrow> Camera" where
  "newCamera sw sh ww wh =
     \<lparr>screenWidth = sw, screenHeight = sh, camWorldWidth = ww, camWorldHeight = wh,
      camX = 0, camY = 0, zoom = 1, targetZoom = 1, zoomSmoothing = 0.03, smoothing = 0.08\<rparr>"

definition setTargetZoom :: "real \<Rightarrow> Camera \<Rightarrow> Camera" where
  "setTargetZoom z cam = cam\<lparr>targetZoom := max 0.15 (min 2 z)\<rparr>"

text \<open>The two successive corrections \<^verbatim>\<open>if (d > w / 2) d -= w; if (d < -w / 2) d += w;\<close>\<close>

definition wrapDelta :: "real \<Rightarrow> real \<Rightarrow> real" where
  "wrapDelta d w =
     (let d1 = (if d > w / 2 then d - w else d)
      in if d1 < - w / 2 then d1 + w else d1)"

definition follow :: "Player \<Rightarrow> Camera \<Rightarrow> Camera" where
  "follow target cam0 =
     (let cam = cam0\<lparr>zoom := zoom cam0 + (targetZoom cam0 - zoom cam0) * zoomSmoothing cam0\<rparr>;
          effectiveWidth = screenWidth cam / zoom cam;
          effectiveHeight = screenHeight cam / zoom cam;
          targetX = px target - effectiveWidth / 2;
          targetY = py target - effectiveHeight / 2;
          dx = wrapDelta (targetX - camX cam) (camWorldWidth cam);
          dy = wrapDelta (targetY - camY cam) (camWorldHeight cam)
      in cam\<lparr>camX := camX cam + dx * smoothing cam, camY := camY cam + dy * smoothing cam\<rparr>)"

record Bounds =
  bLeft :: real
  bRight :: real
  bTop :: real
  bBottom :: real

definition getVisibleBounds :: "Camera \<Rightarrow> Bounds" where
  "getVisibleBounds cam =
     (let effectiveWidth = screenWidth cam / zoom cam;
          effectiveHeight = screenHeight cam / zoom cam
      in \<lparr>bLeft = camX cam, bRight = camX cam + effectiveWidth,
          bTop = camY cam, bBottom = camY cam + effectiveHeight\<rparr>)"

text \<open>
  \<^verbatim>\<open>isVisible(worldX, worldY, size)\<close>, the test the renderer filters the objects with
  (\<^verbatim>\<open>obj.isVisible(camera)\<close>): the offset from the center of the view is wrapped before
  it is compared, so an object is visible through any copy of the world.
\<close>

definition isVisible :: "Camera \<Rightarrow> real \<Rightarrow> real \<Rightarrow> real \<Rightarrow> bool" where
  "isVisible cam worldX worldY sz =
     (let effectiveWidth = screenWidth cam / zoom cam;
          effectiveHeight = screenHeight cam / zoom cam;
          margin = sz;
          dx = wrapDelta (worldX - (camX cam + effectiveWidth / 2)) (camWorldWidth cam);
          dy = wrapDelta (worldY - (camY cam + effectiveHeight / 2)) (camWorldHeight cam)
      in \<bar>dx\<bar> < effectiveWidth / 2 + margin \<and> \<bar>dy\<bar> < effectiveHeight / 2 + margin)"

text \<open>\<^verbatim>\<open>getWrappedPosition(objX, objY)\<close>: where the renderer draws the object.\<close>

definition getWrappedPosition :: "Camera \<Rightarrow> real \<Rightarrow> real \<Rightarrow> real \<times> real" where
  "getWrappedPosition cam objX objY =
     (let effectiveWidth = screenWidth cam / zoom cam;
          effectiveHeight = screenHeight cam / zoom cam;
          camCenterX = camX cam + effectiveWidth / 2;
          camCenterY = camY cam + effectiveHeight / 2;
          dx = wrapDelta (objX - camCenterX) (camWorldWidth cam);
          dy = wrapDelta (objY - camCenterY) (camWorldHeight cam)
      in (camCenterX + dx, camCenterY + dy))"

subsection \<open>The sketch: constants and state (sketch.js)\<close>

definition SCREEN_WIDTH :: real where
  "SCREEN_WIDTH = 336"

definition SCREEN_HEIGHT :: real where
  "SCREEN_HEIGHT = 262"

definition TOTAL_SEASONS :: nat where
  "TOTAL_SEASONS = 10"

definition SEASON_DURATION :: nat where
  "SEASON_DURATION = 15 * 60"

definition STARTING_SIZE :: real where
  "STARTING_SIZE = 12"

definition PLANET_CONSUME_SIZE :: real where
  "PLANET_CONSUME_SIZE = 2500"

definition PLAYER_SCREEN_RATIO :: real where
  "PLAYER_SCREEN_RATIO = 0.15"

definition MIN_ZOOM :: real where
  "MIN_ZOOM = 0.1"

definition MAX_ZOOM :: real where
  "MAX_ZOOM = 4.5"

definition WORLD_SEED :: int where
  "WORLD_SEED = 42"

definition BASE_SPAWN_RADIUS :: real where
  "BASE_SPAWN_RADIUS = 400"

definition BASE_DESPAWN_RADIUS :: real where
  "BASE_DESPAWN_RADIUS = 600"

definition BASE_KEEP_RADIUS :: real where
  "BASE_KEEP_RADIUS = 250"

definition SPAWN_CHECK_INTERVAL :: nat where
  "SPAWN_CHECK_INTERVAL = 30"

text \<open>
  The emoji of the permanent objects, as the bytes of their UTF-8 encoding: three trees,
  the rock, four buildings, the castle and the mountain.
\<close>

definition PERMANENT_EMOJIS :: "string set" where
  "PERMANENT_EMOJIS =
     {[CHR 0xF0, CHR 0x9F, CHR 0x8C, CHR 0xB2], [CHR 0xF0, CHR 0x9F, CHR 0x8C, CHR 0xB3],
      [CHR 0xF0, CHR 0x9F, CHR 0x8C, CHR 0xB4], [CHR 0xF0, CHR 0x9F, CHR 0xAA, CHR 0xA8],
      [CHR 0xF0, CHR 0x9F, CHR 0x8F, CHR 0xA0],
      [CHR 0xF0, CHR 0x9F, CHR 0x8F, CHR 0x9A, CHR 0xEF, CHR 0xB8, CHR 0x8F],
      [CHR 0xF0, CHR 0x9F, CHR 0x9B, CHR 0x96], [CHR 0xF0, CHR 0x9F, CHR 0x8F, CHR 0xAA],
      [CHR 0xF0, CHR 0x9F, CHR 0x8F, CHR 0xB0],
      [CHR 0xF0, CHR 0x9F, CHR 0x8F, CHR 0x94, CHR 0xEF, CHR 0xB8, CHR 0x8F]}"

text \<open>
  \<^verbatim>\<open>STATE\<close> has the members TITLE, PLAYING and PLANET_CONSUMED; advanceSeason assigns
  \<^verbatim>\<open>STATE.WIN\<close>, which is not a member and so is \<^verbatim>\<open>undefined\<close>.
\<close>

datatype GameState = TITLE | PLAYING | PLANET_CONSUMED | STATE_undefined

text \<open>
  The variables of the sketch closure that the simulation reads and writes. The player
  is absent before startGame (\<^verbatim>\<open>player ? player.size : STARTING_SIZE\<close>). The world
  (\<^verbatim>\<open>world.getBiomeAt\<close>) and the frame counter of p5 are parameters of the functions.
\<close>

record Sketch =
  gameState :: GameState
  currentSeasonIndex :: nat
  seasonTimer :: nat
  player :: "Player option"
  objects :: "GameObject list"
  camera :: Camera
  spawnRng :: "SeededRandom option"
  spawnCheckCounter :: nat
  lastPlayerX :: real
  lastPlayerY :: real
  collectedCount :: nat

definition getCurrentSeason :: "Sketch \<Rightarrow> Season" where
  "getCurrentSeason st = [Spring, Summer, Fall, Winter] ! (currentSeasonIndex st mod 4)"

definition calculateZoom :: "Player \<Rightarrow> real" where
  "calculateZoom p =
     (let targetScreenSize = SCREEN_HEIGHT * PLAYER_SCREEN_RATIO;
          z = targetScreenSize / psize p
      in max MIN_ZOOM (min MAX_ZOOM z))"

subsection \<open>Season transition (sketch.js, respawnOffScreenObjects and advanceSeason)\<close>

record SpawnPoint =
  ptX :: real
  ptY :: real
  ptBiome :: Biome

text \<open>
  generateLandSpawnPoints and generateOceanSpawnPoints: \<open>count\<close> draws of an angle and a
  distance ratio; the recursion runs over the number of iterations that remain.
\<close>

fun landPointsLoop :: "World \<Rightarrow> nat \<Rightarrow> SeededRandom \<Rightarrow> SpawnPoint list" where
  "landPointsLoop world 0 rng = []"
| "landPointsLoop world (Suc n) rng =
     (let (u1, rng1) = SeededRandom_next rng;
          angle = u1 * pi * 2;
          (u2, rng2) = SeededRandom_next rng1;
          distRatio = sqrt u2 * 0.85;
          x = WORLD_CENTER_X + cos angle * ISLAND_RADIUS_X * distRatio;
          y = WORLD_CENTER_Y + sin angle * ISLAND_RADIUS_Y * distRatio;
          biome = world x y
      in if isOcean biome then landPointsLoop world n rng2
         else \<lparr>ptX = x, ptY = y, ptBiome = biome\<rparr> # landPointsLoop world n rng2)"

definition generateLandSpawnPoints :: "World \<Rightarrow> nat \<Rightarrow> int \<Rightarrow> SpawnPoint list" where
  "generateLandSpawnPoints world n seed = landPointsLoop world n (newSeededRandom seed)"

fun oceanPointsLoop :: "World \<Rightarrow> nat \<Rightarrow> SeededRandom \<Rightarrow> SpawnPoint list" where
  "oceanPointsLoop world 0 rng = []"
| "oceanPointsLoop world (Suc n) rng =
     (let (u1, rng1) = SeededRandom_next rng;
          angle = u1 * pi * 2;
          (u2, rng2) = SeededRandom_next rng1;
          distRatio = 1.1 + u2 * 0.3;
          x = WORLD_CENTER_X + cos angle * ISLAND_RADIUS_X * distRatio;
          y = WORLD_CENTER_Y + sin angle * ISLAND_RADIUS_Y * distRatio
      in if x < 50 \<or> x > WORLD_WIDTH - 50 \<or> y < 50 \<or> y > WORLD_HEIGHT - 50
         then oceanPointsLoop world n rng2
         else
           let biome = world x y
           in if isOcean biome then \<lparr>ptX = x, ptY = y, ptBiome = biome\<rparr> # oceanPointsLoop world n rng2
              else oceanPointsLoop world n rng2)"

definition generateOceanSpawnPoints :: "World \<Rightarrow> nat \<Rightarrow> int \<Rightarrow> SpawnPoint list" where
  "generateOceanSpawnPoints world n seed = oceanPointsLoop world n (newSeededRandom seed)"

text \<open>The on-screen test of respawnOffScreenObjects: strictly inside the bounds widened by the margin.\<close>

definition withinBounds :: "Bounds \<Rightarrow> real \<Rightarrow> real \<Rightarrow> real \<Rightarrow> bool" where
  "withinBounds bounds margin x y =
     (x > bLeft bounds - margin \<and> x < bRight bounds + margin \<and>
      y > bTop bounds - margin \<and> y < bBottom bounds + margin)"

definition keptOnSeasonChange :: "Bounds \<Rightarrow> real \<Rightarrow> GameObject \<Rightarrow> bool" where
  "keptOnSeasonChange bounds margin obj =
     (let isOnScreen = withinBounds bounds margin (ox obj) (oy obj);
          isPermanent = (emoji (otype obj) \<in> PERMANENT_EMOJIS)
      in isOnScreen \<or> isPermanent)"

text \<open>
  One iteration of \<^verbatim>\<open>for (const point of newLandPoints)\<close>; the loop over the ocean points
  has the same body. The state is the generator and the object list.
\<close>

definition spawnAtPoint ::
  "Bounds \<Rightarrow> real \<Rightarrow> Season \<Rightarrow> real \<Rightarrow> SpawnPoint \<Rightarrow> SeededRandom \<times> GameObject list \<Rightarrow>
   SeededRandom \<times> GameObject list" where
  "spawnAtPoint bounds margin season playerSize point acc =
     (let (rng, objs) = acc
      in if withinBounds bounds margin (ptX point) (ptY point) then (rng, objs)
         else
           let biome = ptBiome point;
               seasonalObjects = seasonObjects biome season
           in if seasonalObjects = [] then (rng, objs)
              else
                let (u, rng1) = SeededRandom_next rng
                in if u > objectDensity biome then (rng1, objs)
                   else
                     let validObjects = filter (\<lambda>obj. shouldSpawnForPlayerSize obj playerSize) seasonalObjects
                     in if validObjects = [] then (rng1, objs)
                        else
                          let (sel, rng2) = weightedRandomSelect (Some validObjects) rng1 (Some playerSize)
                          in case sel of
                               None \<Rightarrow> (rng2, objs)
                             | Some objDef \<Rightarrow>
                                 let (u2, rng3) = SeededRandom_next rng2;
                                     sz = minSize objDef + u2 * (maxSize objDef - minSize objDef)
                                 in (rng3, objs @ [newGameObject (ptX point) (ptY point) sz objDef]))"

definition spawnAtPoints ::
  "Bounds \<Rightarrow> real \<Rightarrow> Season \<Rightarrow> real \<Rightarrow> SpawnPoint list \<Rightarrow> SeededRandom \<times> GameObject list \<Rightarrow>
   SeededRandom \<times> GameObject list" where
  "spawnAtPoints bounds margin season playerSize points acc =
     foldl (\<lambda>a point. spawnAtPoint bounds margin season playerSize point a) acc points"

definition respawnOffScreenObjects :: "World \<Rightarrow> Sketch \<Rightarrow> Sketch" where
  "respawnOffScreenObjects world st =
     (let season = getCurrentSeason st;
          playerSize = (case player st of Some p \<Rightarrow> psize p | None \<Rightarrow> STARTING_SIZE);
          rng0 = newSeededRandom (WORLD_SEED + int (currentSeasonIndex st) * 1000);
          bounds = getVisibleBounds (camera st);
          margin = 200;
          onScreenObjects = filter (keptOnSeasonChange bounds margin) (objects st);
          targetObjectCount = 8000;
          objectsToAdd = targetObjectCount - length onScreenObjects;
          newLandPoints = generateLandSpawnPoints world (nat \<lfloor>real objectsToAdd * 0.8\<rfloor>)
                            (WORLD_SEED + int (currentSeasonIndex st) * 100 + 50000);
          newOceanPoints = generateOceanSpawnPoints world (nat \<lfloor>real objectsToAdd * 0.2\<rfloor>)
                             (WORLD_SEED + int (currentSeasonIndex st) * 200 + 50000);
          afterLand = spawnAtPoints bounds margin season playerSize newLandPoints (rng0, onScreenObjects);
          afterOcean = spawnAtPoints bounds margin season playerSize newOceanPoints afterLand
      in st\<lparr>objects := snd afterOcean, spawnRng := Some (fst afterOcean)\<rparr>)"

definition advanceSeason :: "World \<Rightarrow> Sketch \<Rightarrow> Sketch" where
  "advanceSeason world st0 =
     (let st = st0\<lparr>currentSeasonIndex := currentSeasonIndex st0 + 1, seasonTimer := 0\<rparr>
      in if currentSeasonIndex st \<ge> TOTAL_SEASONS then st\<lparr>gameState := STATE_undefined\<rparr>
         else respawnOffScreenObjects world st)"

subsection \<open>Ring seeding (sketch.js, spawnPatternObjects, spawnObjectsAroundPlayer, spawnWorldObjects)\<close>

text \<open>
  One iteration of the cluster loop of spawnPatternObjects: a point at a random angle and
  a distance of up to \<open>clusterRadius\<close> from the seed, skipped when it lies in the ocean.
  The state is the generator and the list \<^verbatim>\<open>newObjects\<close>.
\<close>

definition clusterStep ::
  "World \<Rightarrow> real \<Rightarrow> real \<Rightarrow> SpawnEntry \<Rightarrow> real \<Rightarrow> SeededRandom \<times> GameObject list \<Rightarrow>
   SeededRandom \<times> GameObject list" where
  "clusterStep world seedX seedY objDef clusterRadius acc =
     (let (rng, newObjects) = acc;
          (u1, rng1) = SeededRandom_next rng;
          angle = u1 * pi * 2;
          (u2, rng2) = SeededRandom_next rng1;
          dist = u2 * clusterRadius;
          x = wrapCoord (seedX + cos angle * dist) WORLD_WIDTH;
          y = wrapCoord (seedY + sin angle * dist) WORLD_HEIGHT;
          pointBiome = world x y
      in if isOcean pointBiome then (rng2, newObjects)
         else
           let (u3, rng3) = SeededRandom_next rng2;
               sz = minSize objDef + u3 * (maxSize objDef - minSize objDef)
           in (rng3, newObjects @ [newGameObject x y sz objDef]))"

fun clusterLoop ::
  "World \<Rightarrow> real \<Rightarrow> real \<Rightarrow> SpawnEntry \<Rightarrow> real \<Rightarrow> nat \<Rightarrow> SeededRandom \<times> GameObject list \<Rightarrow>
   SeededRandom \<times> GameObject list" where
  "clusterLoop world seedX seedY objDef clusterRadius 0 acc = acc"
| "clusterLoop world seedX seedY objDef clusterRadius (Suc n) acc =
     clusterLoop world seedX seedY objDef clusterRadius n
       (clusterStep world seedX seedY objDef clusterRadius acc)"

text \<open>
  One cell of the grid loops: the center cell is skipped before any draw; the others get
  a jitter, the rotation, and the ocean test.
\<close>

definition gridStep ::
  "World \<Rightarrow> SpawnEntry \<Rightarrow> nat \<Rightarrow> nat \<Rightarrow> real \<Rightarrow> real \<Rightarrow> real \<Rightarrow> real \<Rightarrow> real \<Rightarrow>
   SeededRandom \<times> GameObject list \<Rightarrow> nat \<times> nat \<Rightarrow> SeededRandom \<times> GameObject list" where
  "gridStep world objDef rows cols spacing cosR sinR startX startY acc cell =
     (let (rng, newObjects) = acc;
          (row, col) = cell
      in if row = rows div 2 \<and> col = cols div 2 then (rng, newObjects)
         else
           let (u1, rng1) = SeededRandom_next rng;
               jitterX = (u1 - 0.5) * spacing * 0.2;
               (u2, rng2) = SeededRandom_next rng1;
               jitterY = (u2 - 0.5) * spacing * 0.2;
               localX = real col * spacing + jitterX;
               localY = real row * spacing + jitterY;
               rotatedX = localX * cosR - localY * sinR;
               rotatedY = localX * sinR + localY * cosR;
               x = wrapCoord (startX + rotatedX) WORLD_WIDTH;
               y = wrapCoord (startY + rotatedY) WORLD_HEIGHT;
               pointBiome = world x y
           in if isOcean pointBiome then (rng2, newObjects)
              else
                let (u3, rng3) = SeededRandom_next rng2;
                    sz = minSize objDef + u3 * (maxSize objDef - minSize objDef)
                in (rng3, newObjects @ [newGameObject x y sz objDef]))"

text \<open>
  spawnPatternObjects returns the additional objects around a seed, and the generator.
  \<^verbatim>\<open>objDef.spawnPattern || "scattered"\<close>: an empty pattern counts as scattered. The rows
  and columns of the grid are visited row by row.
\<close>

definition spawnPatternObjects ::
  "World \<Rightarrow> real \<Rightarrow> real \<Rightarrow> SpawnEntry \<Rightarrow> SeededRandom \<Rightarrow> GameObject list \<times> SeededRandom" where
  "spawnPatternObjects world seedX seedY objDef rng =
     (let pattern = (if spawnPattern objDef = [] then ''scattered'' else spawnPattern objDef)
      in if pattern = ''scattered'' then ([], rng)
         else
           let afterCluster =
                 (if pattern = ''clustered'' then
                    let (u, rng1) = SeededRandom_next rng;
                        clusterCount = 4 + nat \<lfloor>u * 7\<rfloor>;
                        clusterRadius = max 60 (maxSize objDef * 3)
                    in clusterLoop world seedX seedY objDef clusterRadius clusterCount (rng1, [])
                  else (rng, []));
               afterGrid =
                 (if pattern = ''grid'' then
                    let (ur, rngA) = SeededRandom_next (fst afterCluster);
                        rows = 3 + nat \<lfloor>ur * 3\<rfloor>;
                        (uc, rngB) = SeededRandom_next rngA;
                        cols = 4 + nat \<lfloor>uc * 4\<rfloor>;
                        spacing = max (maxSize objDef * 1.5) 35;
                        (urot, rngC) = SeededRandom_next rngB;
                        rotation = urot * pi * 0.12 - pi * 0.06;
                        cosR = cos rotation;
                        sinR = sin rotation;
                        startX = seedX - (real cols - 1) * spacing / 2;
                        startY = seedY - (real rows - 1) * spacing / 2
                    in foldl (gridStep world objDef rows cols spacing cosR sinR startX startY)
                         (rngC, snd afterCluster) (List.product [0..<rows] [0..<cols])
                  else afterCluster)
           in (snd afterGrid, fst afterGrid))"

text \<open>
  The density gate of an attempt, \<^verbatim>\<open>ringIndex > 0 && rng.next() > biome.objectDensity\<close>:
  the draw is only made for the rings after the first.
\<close>

definition densityGate :: "nat \<Rightarrow> Biome \<Rightarrow> SeededRandom \<Rightarrow> bool \<times> SeededRandom" where
  "densityGate ringIndex biome rng =
     (if ringIndex > 0
      then (let (u, rng1) = SeededRandom_next rng in (u > objectDensity biome, rng1))
      else (False, rng))"

text \<open>
  One attempt of spawnObjectsAroundPlayer. The state is the generator, the object list
  and the counter \<^verbatim>\<open>spawned\<close>. The pattern objects are added until the target count
  is reached.
\<close>

definition ringStep ::
  "World \<Rightarrow> Season \<Rightarrow> real \<Rightarrow> real \<Rightarrow> real \<Rightarrow> real \<Rightarrow> nat \<Rightarrow> nat \<Rightarrow>
   SeededRandom \<times> GameObject list \<times> nat \<Rightarrow> SeededRandom \<times> GameObject list \<times> nat" where
  "ringStep world season playerSize centerX centerY maxRadius targetCount ringIndex acc =
     (let (rng, objs, spawned) = acc;
          (u1, rng1) = SeededRandom_next rng;
          angle = u1 * pi * 2;
          (u2, rng2) = SeededRandom_next rng1;
          dist = sqrt u2 * maxRadius;
          x = wrapCoord (centerX + cos angle * dist) WORLD_WIDTH;
          y = wrapCoord (centerY + sin angle * dist) WORLD_HEIGHT;
          biome = world x y;
          seasonalObjects = seasonObjects biome season
      in if seasonalObjects = [] then (rng2, objs, spawned)
         else
           let (skip, rng3) = densityGate ringIndex biome rng2
           in if skip then (rng3, objs, spawned)
              else
                let validObjects = filter (\<lambda>obj. shouldSpawnForPlayerSize obj playerSize) seasonalObjects
                in if validObjects = [] then (rng3, objs, spawned)
                   else
                     let (sel, rng4) = weightedRandomSelect (Some validObjects) rng3 (Some playerSize)
                     in case sel of
                          None \<Rightarrow> (rng4, objs, spawned)
                        | Some objDef \<Rightarrow>
                            let (u5, rng5) = SeededRandom_next rng4;
                                sz = minSize objDef + u5 * (maxSize objDef - minSize objDef);
                                obj = newGameObject x y sz objDef;
                                (patternObjects, rng6) = spawnPatternObjects world x y objDef rng5;
                                added = take (targetCount - (spawned + 1)) patternObjects
                            in (rng6, objs @ [obj] @ added, spawned + 1 + length added))"

text \<open>
  \<^verbatim>\<open>for (let i = 0; i < attempts && spawned < targetCount; i++)\<close>: the recursion runs over
  the attempts that remain and stops when the target is reached.
\<close>

fun ringLoop ::
  "World \<Rightarrow> Season \<Rightarrow> real \<Rightarrow> real \<Rightarrow> real \<Rightarrow> real \<Rightarrow> nat \<Rightarrow> nat \<Rightarrow> nat \<Rightarrow>
   SeededRandom \<times> GameObject list \<times> nat \<Rightarrow> SeededRandom \<times> GameObject list \<times> nat" where
  "ringLoop world season playerSize centerX centerY maxRadius targetCount ringIndex 0 acc = acc"
| "ringLoop world season playerSize centerX centerY maxRadius targetCount ringIndex (Suc n) acc =
     (if snd (snd acc) < targetCount
      then ringLoop world season playerSize centerX centerY maxRadius targetCount ringIndex n
             (ringStep world season playerSize centerX centerY maxRadius targetCount ringIndex acc)
      else acc)"

definition spawnObjectsAroundPlayer ::
  "World \<Rightarrow> real \<Rightarrow> real \<Rightarrow> real \<Rightarrow> nat \<Rightarrow> nat \<Rightarrow> Sketch \<Rightarrow> Sketch \<times> nat" where
  "spawnObjectsAroundPlayer world centerX centerY maxRadius targetCount ringIndex st =
     (let season = getCurrentSeason st;
          playerSize = (case player st of Some p \<Rightarrow> psize p | None \<Rightarrow> STARTING_SIZE);
          rng = newSeededRandom (WORLD_SEED + int (currentSeasonIndex st) * 1000 + int ringIndex * 7777);
          attempts = targetCount * 5;
          result = ringLoop world season playerSize centerX centerY maxRadius targetCount ringIndex
                     attempts (rng, objects st, 0)
      in (st\<lparr>objects := fst (snd result)\<rparr>, snd (snd result)))"

definition spawnWorldObjects :: "World \<Rightarrow> Sketch \<Rightarrow> Sketch" where
  "spawnWorldObjects world st0 =
     (let st = st0\<lparr>objects := []\<rparr>;
          playerX = (case player st of Some p \<Rightarrow> px p | None \<Rightarrow> WORLD_CENTER_X);
          playerY = (case player st of Some p \<Rightarrow> py p | None \<Rightarrow> WORLD_CENTER_Y);
          st1 = fst (spawnObjectsAroundPlayer world playerX playerY 100 80 0 st);
          st2 = fst (spawnObjectsAroundPlayer world playerX playerY 300 120 1 st1);
          st3 = fst (spawnObjectsAroundPlayer world playerX playerY 600 150 2 st2)
      in fst (spawnObjectsAroundPlayer world playerX playerY 1000 150 3 st3))"

subsection \<open>Continuous distance management (sketch.js, updateDistanceBasedSpawning)\<close>

text \<open>
  One iteration of the spawning loop at the edge of the spawn radius (an annulus from 80
  to 120 percent of it): every \<^verbatim>\<open>continue\<close> leaves the object list as it is, the last
  line adds one object. The state is the generator and the object list.
\<close>

definition edgeSpawnStep ::
  "World \<Rightarrow> Season \<Rightarrow> real \<Rightarrow> real \<Rightarrow> real \<Rightarrow> real \<Rightarrow> SeededRandom \<times> GameObject list \<Rightarrow>
   SeededRandom \<times> GameObject list" where
  "edgeSpawnStep world season playerSize playerX playerY spawnRadius acc =
     (let (rng, objs) = acc;
          (u1, rng1) = SeededRandom_next rng;
          angle = u1 * pi * 2;
          (u2, rng2) = SeededRandom_next rng1;
          dist = spawnRadius * 0.8 + u2 * spawnRadius * 0.4;
          newX = wrapCoord (playerX + cos angle * dist) WORLD_WIDTH;
          newY = wrapCoord (playerY + sin angle * dist) WORLD_HEIGHT;
          biome = world newX newY;
          seasonalObjects = seasonObjects biome season
      in if seasonalObjects = [] then (rng2, objs)
         else
           let validObjects = filter (\<lambda>obj. shouldSpawnForPlayerSize obj playerSize) seasonalObjects
           in if validObjects = [] then (rng2, objs)
              else
                let (u3, rng3) = SeededRandom_next rng2
                in if u3 > objectDensity biome then (rng3, objs)
                   else
                     let (sel, rng4) = weightedRandomSelect (Some validObjects) rng3 (Some playerSize)
                     in case sel of
                          None \<Rightarrow> (rng4, objs)
                        | Some objDef \<Rightarrow>
                            let (u5, rng5) = SeededRandom_next rng4;
                                sz = minSize objDef + u5 * (maxSize objDef - minSize objDef)
                            in (rng5, objs @ [newGameObject newX newY sz objDef]))"

text \<open>\<^verbatim>\<open>for (let i = 0; i < spawnCount; i++)\<close>: the recursion runs over the iterations that remain.\<close>

fun edgeSpawnLoop ::
  "World \<Rightarrow> Season \<Rightarrow> real \<Rightarrow> real \<Rightarrow> real \<Rightarrow> real \<Rightarrow> nat \<Rightarrow> SeededRandom \<times> GameObject list \<Rightarrow>
   SeededRandom \<times> GameObject list" where
  "edgeSpawnLoop world season playerSize playerX playerY spawnRadius 0 acc = acc"
| "edgeSpawnLoop world season playerSize playerX playerY spawnRadius (Suc n) acc =
     edgeSpawnLoop world season playerSize playerX playerY spawnRadius n
       (edgeSpawnStep world season playerSize playerX playerY spawnRadius acc)"

text \<open>
  The function counts the calls and returns early until the check interval is reached,
  and again when the player has not moved past the threshold. \<open>frameCount\<close> is
  \<^verbatim>\<open>p.frameCount\<close>.
\<close>

definition updateDistanceBasedSpawning :: "World \<Rightarrow> int \<Rightarrow> Sketch \<Rightarrow> error + Sketch" where
  "updateDistanceBasedSpawning world frameCount st0 =
     (let st = st0\<lparr>spawnCheckCounter := spawnCheckCounter st0 + 1\<rparr>
      in if spawnCheckCounter st < SPAWN_CHECK_INTERVAL then Inr st
         else
           let st1 = st\<lparr>spawnCheckCounter := 0\<rparr>
           in case player st1 of
                None \<Rightarrow> Inl TypeError
              | Some p \<Rightarrow>
                  let playerX = px p;
                      playerY = py p;
                      currentZoom = zoom (camera st1);
                      zoomScale = 1 / currentZoom;
                      spawnRadius = BASE_SPAWN_RADIUS * zoomScale;
                      despawnRadius = BASE_DESPAWN_RADIUS * zoomScale;
                      keepRadius = BASE_KEEP_RADIUS * zoomScale;
                      moveThreshold = 50 * zoomScale;
                      moveDistance = getWrappedDistance playerX playerY (lastPlayerX st1) (lastPlayerY st1)
                  in if moveDistance < moveThreshold then Inr st1
                     else
                       let st2 = st1\<lparr>lastPlayerX := playerX, lastPlayerY := playerY\<rparr>;
                           season = getCurrentSeason st2;
                           playerSize = psize p;
                           objectsToKeep = filter (\<lambda>obj. getWrappedDistance (ox obj) (oy obj) playerX playerY
                                                          < despawnRadius) (objects st2);
                           despawnedCount = int (length (objects st2)) - int (length objectsToKeep);
                           objects1 = evictOverCap playerX playerY keepRadius playerSize objectsToKeep;
                           visibleRadius = spawnRadius * 0.5;
                           nearbyCount = int (length (filter (\<lambda>obj. getWrappedDistance (ox obj) (oy obj)
                                                playerX playerY < visibleRadius) objects1));
                           visibleArea = pi * visibleRadius * visibleRadius;
                           targetDensity = visibleArea / (150 * 150);
                           densityDeficit = max 0 \<lfloor>targetDensity - of_int nearbyCount\<rfloor>;
                           availableSlots = int MAX_OBJECTS - int (length objects1);
                           spawnCount = min (despawnedCount + densityDeficit) availableSlots
                       in if spawnCount > 0 then
                            let spawnSeed = WORLD_SEED + frameCount;
                                rng = newSeededRandom spawnSeed
                            in Inr (st2\<lparr>objects := snd (edgeSpawnLoop world season playerSize playerX playerY
                                                           spawnRadius (nat spawnCount) (rng, objects1))\<rparr>)
                          else Inr (st2\<lparr>objects := objects1\<rparr>))"

text \<open>
  The two gates of updateDistanceBasedSpawning, read on the state it is called with: the
  call reaches the check interval, and the player has moved at least the threshold away
  from the position of the last check.
\<close>

definition distanceCheckDue :: "Sketch \<Rightarrow> bool" where
  "distanceCheckDue st =
     (spawnCheckCounter st + 1 \<ge> SPAWN_CHECK_INTERVAL \<and>
      (case player st of
         None \<Rightarrow> False
       | Some p \<Rightarrow> \<not> getWrappedDistance (px p) (py p) (lastPlayerX st) (lastPlayerY st)
                      < 50 * (1 / zoom (camera st))))"

subsection \<open>The tick (sketch.js, updateGame)\<close>

definition collidesWith :: "Player \<Rightarrow> GameObject \<Rightarrow> real \<Rightarrow> real \<Rightarrow> bool" where
  "collidesWith p obj worldWidth worldHeight =
     (let dx = shortestDelta (px p - ox obj) worldWidth;
          dy = shortestDelta (py p - oy obj) worldHeight;
          dist = sqrt (dx * dx + dy * dy)
      in dist < psize p / 2 + osize obj / 2)"

definition bounceFrom :: "real \<Rightarrow> real \<Rightarrow> real \<Rightarrow> real \<Rightarrow> Player \<Rightarrow> Player" where
  "bounceFrom objX objY worldWidth worldHeight p =
     (let dx = shortestDelta (px p - objX) worldWidth;
          dy = shortestDelta (py p - objY) worldHeight;
          dist = sqrt (dx * dx + dy * dy)
      in if dist > 0 then
           let nx = dx / dist;
               ny = dy / dist;
               sizeSpeedScale = sqrt (psize p / 12);
               knockback = 3 * sizeSpeedScale
           in p\<lparr>pvx := nx * knockback, pvy := ny * knockback\<rparr>
         else p)"

definition calculateGrowthAmount :: "real \<Rightarrow> real \<Rightarrow> real" where
  "calculateGrowthAmount objectSize playerSize =
     (let sizeRatio = objectSize / playerSize;
          baseGrowth = objectSize * 0.04;
          scaledGrowth = baseGrowth * (sizeRatio powr 0.5)
      in max 0.1 scaledGrowth)"

text \<open>
  The force loop: gravity for the objects the player can collect, then the position
  update of every object. The list keeps its length and order.
\<close>

fun forceLoop :: "Player \<Rightarrow> GameObject list \<Rightarrow> error + GameObject list" where
  "forceLoop p [] = Inr []"
| "forceLoop p (obj # rest) =
     bindE (if \<not> collected obj \<and> canCollect p obj
            then applyGravity (px p) (py p) 15 (psize p) WORLD_WIDTH WORLD_HEIGHT obj
            else Inr obj) (\<lambda>obj1.
     bindE (forceLoop p rest) (\<lambda>rest1.
       Inr (GameObject_update (Some WORLD_WIDTH) (Some WORLD_HEIGHT) obj1 # rest1)))"

text \<open>
  One iteration of the collision loop, which runs from the last object to the first and
  removes a collected object with \<^verbatim>\<open>splice\<close>. The state is the player, the game state,
  the collected count and the objects kept so far (those behind the current index).
\<close>

definition collideStep ::
  "GameObject \<Rightarrow> Player \<times> GameState \<times> nat \<times> GameObject list \<Rightarrow> Player \<times> GameState \<times> nat \<times> GameObject list" where
  "collideStep obj acc =
     (let (p, gs, cnt, kept) = acc
      in if collected obj then (p, gs, cnt, obj # kept)
         else if collidesWith p obj WORLD_WIDTH WORLD_HEIGHT then
           (if canCollect p obj then
              let p1 = grow (calculateGrowthAmount (osize obj) (psize p)) p
              in (p1, (if psize p1 \<ge> PLANET_CONSUME_SIZE then PLANET_CONSUMED else gs), cnt + 1, kept)
            else (bounceFrom (ox obj) (oy obj) WORLD_WIDTH WORLD_HEIGHT p, gs, cnt, obj # kept))
         else (p, gs, cnt, obj # kept))"

definition updateGame :: "World \<Rightarrow> int \<Rightarrow> Input \<Rightarrow> Sketch \<Rightarrow> error + Sketch" where
  "updateGame world frameCount input st =
     (case player st of
        None \<Rightarrow> Inl TypeError
      | Some p0 \<Rightarrow>
          let p1 = Player_update input WORLD_WIDTH WORLD_HEIGHT (Some world) p0;
              cam1 = follow p1 (setTargetZoom (calculateZoom p1) (camera st));
              st1 = st\<lparr>player := Some p1, camera := cam1\<rparr>
          in bindE (updateDistanceBasedSpawning world frameCount st1) (\<lambda>st2.
             bindE (forceLoop p1 (objects st2)) (\<lambda>objects3.
               let (p4, gs4, cnt4, objects4) =
                     foldr collideStep objects3 (p1, gameState st2, collectedCount st2, []);
                   st4 = st2\<lparr>player := Some p4, gameState := gs4, collectedCount := cnt4,
                             objects := objects4, seasonTimer := seasonTimer st2 + 1\<rparr>
               in Inr (if seasonTimer st4 \<ge> SEASON_DURATION then advanceSeason world st4 else st4))))"

text \<open>
  A list is partitioned by \<open>P\<close> when no element that satisfies \<open>P\<close> stands before one
  that does not. It describes the result of the sort in the statements below.
\<close>

fun parted :: "('a \<Rightarrow> bool) \<Rightarrow> 'a list \<Rightarrow> bool" where
  "parted P [] = True"
| "parted P (y # ys) = ((P y \<longrightarrow> (\<forall>z\<in>set ys. P z)) \<and> parted P ys)"

text \<open>
  The reach of a spawn pattern: how far from its seed spawnPatternObjects places an object
  of the type. A cluster object is drawn at a distance of up to \<^verbatim>\<open>clusterRadius\<close>
  (\<^verbatim>\<open>Math.max(60, objDef.maxSize * 3)\<close>). A grid has at most 5 rows and 7 columns of
  cells \<^verbatim>\<open>spacing\<close> apart (\<^verbatim>\<open>Math.max(objDef.maxSize * 1.5, 35)\<close>), each moved by at
  most a tenth of the spacing, and starts 2 rows and 3 columns before the seed, which
  keeps every cell within 11 spacings of the seed. A scattered type has no pattern objects.
\<close>

definition patternReach :: "SpawnEntry \<Rightarrow> real" where
  "patternReach objDef =
     (let pattern = (if spawnPattern objDef = [] then ''scattered'' else spawnPattern objDef)
      in if pattern = ''clustered'' then max 60 (maxSize objDef * 3)
         else if pattern = ''grid'' then 11 * max (maxSize objDef * 1.5) 35
         else 0)"

text \<open>An object of type \<open>e\<close> placed at an offset of length at most \<open>R\<close> from the point \<open>(sx, sy)\<close>.\<close>

definition placedAround :: "real \<Rightarrow> real \<Rightarrow> SpawnEntry \<Rightarrow> real \<Rightarrow> GameObject \<Rightarrow> bool" where
  "placedAround sx sy e R obj =
     (otype obj = e \<and>
      (\<exists>tx ty. ox obj = wrapCoord (sx + tx) WORLD_WIDTH \<and> oy obj = wrapCoord (sy + ty) WORLD_HEIGHT \<and>
               sqrt (tx * tx + ty * ty) \<le> R))"

text \<open>An object within 1000 plus the reach of its type of the world center (toroidal distance).\<close>

definition withinReach :: "GameObject \<Rightarrow> bool" where
  "withinReach obj =
     (getWrappedDistance (ox obj) (oy obj) WORLD_CENTER_X WORLD_CENTER_Y
        \<le> 1000 + patternReach (otype obj))"

subsection \<open>Concrete inputs\<close>

definition rockEntry :: SpawnEntry where
  "rockEntry = \<lparr>emoji = ''rock'', ename = ''Rock'', minSize = 10, maxSize = 20,
     weight = Some 1, spawnPattern = ''scattered'', minPlayerSize = None, maxPlayerSize = None,
     adjustedWeight = None\<rparr>"

definition rockNearAgent :: GameObject where
  "rockNearAgent = newGameObject 100 200 20 rockEntry"

definition rockAtEdge :: GameObject where
  "rockAtEdge = (newGameObject 24190 10 20 rockEntry)\<lparr>ovx := 5\<rparr>"

definition largePlayer :: Player where
  "largePlayer = newPlayer 10 10 2500"

definition noInput :: Input where
  "noInput = \<lparr>up = False, down = False, left = False, right = False\<rparr>"

definition rockFarAway :: GameObject where
  "rockFarAway = newGameObject 3100 200 20 rockEntry"

definition demoBiome :: "string \<Rightarrow> Biome" where
  "demoBiome k = \<lparr>biomeId = k, seasonObjects = (\<lambda>season. [rockEntry]), objectDensity = 1,
     isOcean = (k = ''ocean''), terrainSpeed = None\<rparr>"

definition demoBiomes :: BiomeTable where
  "demoBiomes k = (if k \<in> set biomeKeys then Some (demoBiome k) else None)"

definition meadowWorld :: World where
  "meadowWorld x y = demoBiome ''meadow''"

definition tickState :: Sketch where
  "tickState =
     \<lparr>gameState = PLAYING, currentSeasonIndex = 0, seasonTimer = 899,
      player = Some (newPlayer 168 131 12), objects = [],
      camera = newCamera SCREEN_WIDTH SCREEN_HEIGHT WORLD_WIDTH WORLD_HEIGHT,
      spawnRng = None, spawnCheckCounter = 0, lastPlayerX = 168, lastPlayerY = 131,
      collectedCount = 0\<rparr>"

definition calmState :: Sketch where
  "calmState = tickState\<lparr>seasonTimer := 0, spawnCheckCounter := 29, lastPlayerX := 5000\<rparr>"

text \<open>
  A world for ring seeding: nothing grows within 900 of the world center; beyond that,
  bushes of size 20 to 50 grow in clusters. The agent starts at the world center.
\<close>

definition bushEntry :: SpawnEntry where
  "bushEntry = \<lparr>emoji = ''bush'', ename = ''Bush'', minSize = 20, maxSize = 50,
     weight = Some 1, spawnPattern = ''clustered'', minPlayerSize = None, maxPlayerSize = None,
     adjustedWeight = None\<rparr>"

definition barrenBiome :: Biome where
  "barrenBiome = \<lparr>biomeId = ''hills'', seasonObjects = (\<lambda>season. []), objectDensity = 1,
     isOcean = False, terrainSpeed = None\<rparr>"

definition groveBiome :: Biome where
  "groveBiome = \<lparr>biomeId = ''forest'', seasonObjects = (\<lambda>season. [bushEntry]), objectDensity = 1,
     isOcean = False, terrainSpeed = None\<rparr>"

definition groveWorld :: World where
  "groveWorld x y =
     (if getWrappedDistance x y WORLD_CENTER_X WORLD_CENTER_Y < 900 then barrenBiome else groveBiome)"

definition seedingState :: Sketch where
  "seedingState = tickState\<lparr>player := Some (newPlayer WORLD_CENTER_X WORLD_CENTER_Y 12)\<rparr>"

text \<open>
  A season change at the seam of the world. The agent (size 12, zoom 2, so a view of 168
  by 131) stands at \<open>x = 34\<close>, and the view reaches from \<open>-50\<close> to \<open>118\<close>: the camera
  position is not wrapped. One bush lies at \<open>x = 24172\<close>, 20 left of the seam, and is
  drawn at \<open>-20\<close>; the other lies at \<open>x = 100\<close>. In the barren world no season has
  objects, so the transition spawns nothing.
\<close>

definition barrenWorld :: World where
  "barrenWorld x y = barrenBiome"

definition bushAcrossSeam :: GameObject where
  "bushAcrossSeam = newGameObject 24172 5060 20 bushEntry"

definition bushOnScreen :: GameObject where
  "bushOnScreen = newGameObject 100 5060 20 bushEntry"

definition seamState :: Sketch where
  "seamState =
     tickState\<lparr>player := Some (newPlayer 34 5065.5 12),
               objects := [bushAcrossSeam, bushOnScreen],
               camera := (newCamera SCREEN_WIDTH SCREEN_HEIGHT WORLD_WIDTH WORLD_HEIGHT)
                           \<lparr>camX := - 50, camY := 5000, zoom := 2, targetZoom := 2\<rparr>\<rparr>"

section \<open>Theorems\<close>

subsection \<open>Collectibility\<close>

text \<open>
  C7. An object is collectible exactly when its size is strictly below 95 percent of the
  player's size. At exactly the threshold it is not collectible, and no other field of the
  object (position, type, collected flag, boundary flag, velocity) has any influence.
\<close>

theorem canCollect_threshold:
  "(canCollect p obj \<longleftrightarrow> osize obj < psize p * 0.95) \<and>
   \<not> canCollect p (obj\<lparr>osize := psize p * 0.95\<rparr>) \<and>
   canCollect p (obj\<lparr>ox := a, oy := b, otype := t, collected := c, isBoundary := d,
                      ovx := e, ovy := f\<rparr>) = canCollect p obj"
  by (simp add: canCollect_def)


subsection \<open>The radial force\<close>


lemma scale_sum:
  fixes vx vy v c :: real
  assumes "v \<noteq> 0"
  shows "(vx / v * c) * (vx / v * c) + (vy / v * c) * (vy / v * c)
         = ((vx * vx + vy * vy) / (v * v)) * (c * c)"
  using assms by (simp add: field_simps)

lemma sqrt_ratio:
  fixes n c :: real
  assumes "c < sqrt n" "0 \<le> c"
  shows "sqrt ((n / (sqrt n * sqrt n)) * (c * c)) = c"
proof -
  have "0 < sqrt n" using assms by linarith
  then have npos: "0 < n" by simp
  then have "sqrt n * sqrt n = n" by simp
  with npos have "(n / (sqrt n * sqrt n)) * (c * c) = c * c" by simp
  then show ?thesis using assms(2) by (simp add: real_sqrt_mult_self)
qed

lemma clamp_magnitude:
  fixes vx vy :: real
  assumes "sqrt (vx * vx + vy * vy) > c" "0 \<le> c"
  shows "sqrt ((vx / sqrt (vx * vx + vy * vy) * c) * (vx / sqrt (vx * vx + vy * vy) * c)
             + (vy / sqrt (vx * vx + vy * vy) * c) * (vy / sqrt (vx * vx + vy * vy) * c)) = c"
proof -
  define n where "n = vx * vx + vy * vy"
  have vpos: "sqrt n \<noteq> 0" using assms unfolding n_def by linarith
  have "(vx / sqrt n * c) * (vx / sqrt n * c) + (vy / sqrt n * c) * (vy / sqrt n * c)
        = (n / (sqrt n * sqrt n)) * (c * c)"
    unfolding n_def[symmetric] using scale_sum[OF vpos, of vx c vy] by (simp add: n_def)
  then show ?thesis using sqrt_ratio[of c n] assms unfolding n_def by simp
qed

lemma applyGravity_cap_aux:
  assumes "0 < playerSize"
    and "1 \<le> gravityDist tx ty W H obj"
    and "gravityDist tx ty W H obj \<le> gravityRadius playerSize"
  shows "\<exists>obj'. applyGravity tx ty s playerSize W H obj = Inr obj' \<and>
           sqrt (ovx obj' * ovx obj' + ovy obj' * ovy obj') \<le> maxVel"
proof -
  define dx where "dx = shortestDelta (tx - ox obj) W"
  define dy where "dy = shortestDelta (ty - oy obj) H"
  define dist where "dist = sqrt (dx * dx + dy * dy)"
  define force where "force = s * ((playerSize / 12) powr 1.8 * 0.02)
      * max 0 (1 - osize obj / playerSize * 1.2)
      * (1 - dist / (playerSize * sqrt (playerSize / 12) * 0.6)) powr 2.5"
  define vx1 where "vx1 = ovx obj + dx / dist * force"
  define vy1 where "vy1 = ovy obj + dy / dist * force"
  define vel where "vel = sqrt (vx1 * vx1 + vy1 * vy1)"
  have d1: "1 \<le> dist" and d2: "dist \<le> playerSize * sqrt (playerSize / 12) * 0.6"
    using assms(2,3) by (simp_all add: gravityDist_def gravityRadius_def dist_def dx_def dy_def Let_def)
  have r: "playerSize * sqrt (playerSize / 12) * 0.6 \<noteq> 0" using d1 d2 by linarith
  have nd: "\<not> 1 - dist / (playerSize * sqrt (playerSize / 12) * 0.6) < 0"
    using d1 d2 by (simp add: field_simps)
  have eq: "applyGravity tx ty s playerSize W H obj =
        (if vel > maxVel then Inr (obj\<lparr>ovx := vx1 / vel * maxVel, ovy := vy1 / vel * maxVel\<rparr>)
         else Inr (obj\<lparr>ovx := vx1, ovy := vy1\<rparr>))"
    unfolding applyGravity_def Let_def dx_def[symmetric] dy_def[symmetric] dist_def[symmetric]
    using d1 d2 r nd assms(1)
    by (simp add: bindE_def checkedDiv_def checkedPow_def checkedSqrt_def maxVel_def
          vel_def vx1_def vy1_def force_def)
  show ?thesis
  proof (cases "vel > maxVel")
    case True
    then have "sqrt ((vx1 / vel * maxVel) * (vx1 / vel * maxVel)
                 + (vy1 / vel * maxVel) * (vy1 / vel * maxVel)) = maxVel"
      unfolding vel_def using clamp_magnitude[of maxVel vx1 vy1] by (simp add: maxVel_def)
    with True eq show ?thesis by simp
  next
    case False
    with eq show ?thesis by (simp add: vel_def)
  qed
qed


text \<open>
  C6. For a positive agent size, applyGravity never divides by zero and never produces a
  value that is not a number: it always returns an object. It returns the object unchanged,
  in every field, whenever the shortest toroidal distance to the agent is below 1 or above
  the gravity radius \<open>playerSize * sqrt (playerSize / 12) * 0.6\<close>.
\<close>

theorem applyGravity_noop:
  assumes "0 < playerSize"
  shows "(\<exists>obj'. applyGravity tx ty s playerSize W H obj = Inr obj') \<and>
         (gravityDist tx ty W H obj < 1 \<or> gravityDist tx ty W H obj > gravityRadius playerSize
            \<longrightarrow> applyGravity tx ty s playerSize W H obj = Inr obj)"
  using assms
  by (auto simp: applyGravity_def gravityDist_def gravityRadius_def Let_def bindE_def
        checkedDiv_def checkedPow_def checkedSqrt_def maxVel_def)

theorem applyGravity_noop_witness:
  "(0::real) < 12 \<and> gravityDist 100 200 WORLD_WIDTH WORLD_HEIGHT rockNearAgent < 1 \<and>
   applyGravity 100 200 15 12 WORLD_WIDTH WORLD_HEIGHT rockNearAgent = Inr rockNearAgent"
proof -
  have h: "(0::real) < 12" by simp
  have d: "gravityDist 100 200 WORLD_WIDTH WORLD_HEIGHT rockNearAgent < 1"
    by (simp add: gravityDist_def rockNearAgent_def newGameObject_def shortestDelta_def
          WORLD_WIDTH_def WORLD_HEIGHT_def)
  from applyGravity_noop[OF h, of 100 200 15 WORLD_WIDTH WORLD_HEIGHT rockNearAgent] d h
  show ?thesis by blast
qed

text \<open>
  C5. For a positive agent size, whenever applyGravity applies a force (the distance is
  at least 1 and at most the gravity radius), the velocity of the returned object has
  magnitude at most 15. The witness takes the agent size 2500.
\<close>

theorem applyGravity_velocity_cap:
  assumes "0 < playerSize"
    and "1 \<le> gravityDist tx ty W H obj"
    and "gravityDist tx ty W H obj \<le> gravityRadius playerSize"
  shows "\<exists>obj'. applyGravity tx ty s playerSize W H obj = Inr obj' \<and>
           sqrt (ovx obj' * ovx obj' + ovy obj' * ovy obj') \<le> 15"
  using applyGravity_cap_aux[OF assms] by (simp add: maxVel_def)

theorem applyGravity_velocity_cap_witness:
  "(0::real) < 2500 \<and>
   1 \<le> gravityDist 103 204 WORLD_WIDTH WORLD_HEIGHT rockNearAgent \<and>
   gravityDist 103 204 WORLD_WIDTH WORLD_HEIGHT rockNearAgent \<le> gravityRadius 2500 \<and>
   (\<exists>obj'. applyGravity 103 204 15 2500 WORLD_WIDTH WORLD_HEIGHT rockNearAgent = Inr obj' \<and>
      sqrt (ovx obj' * ovx obj' + ovy obj' * ovy obj') \<le> 15)"
proof -
  have h: "(0::real) < 2500" by simp
  have d: "gravityDist 103 204 WORLD_WIDTH WORLD_HEIGHT rockNearAgent = 5"
    by (simp add: gravityDist_def rockNearAgent_def newGameObject_def shortestDelta_def
          WORLD_WIDTH_def WORLD_HEIGHT_def)
  have s: "1 \<le> sqrt (625 / 3 :: real)" by simp
  have "gravityRadius 2500 = 1500 * sqrt (625 / 3)" by (simp add: gravityRadius_def)
  then have r: "5 \<le> gravityRadius 2500" using s by linarith
  have d1: "1 \<le> gravityDist 103 204 WORLD_WIDTH WORLD_HEIGHT rockNearAgent" using d by simp
  have d2: "gravityDist 103 204 WORLD_WIDTH WORLD_HEIGHT rockNearAgent \<le> gravityRadius 2500"
    using d r by simp
  from applyGravity_velocity_cap[OF h d1 d2, of 15] h d1 d2 show ?thesis by blast
qed

subsection \<open>Positions stay inside the world\<close>

lemma jsMod_nonneg_dividend:
  assumes "0 < b" "0 \<le> a"
  shows "0 \<le> jsMod a b \<and> jsMod a b < b"
proof -
  have q: "0 \<le> a / b" using assms by simp
  have l: "of_int \<lfloor>a / b\<rfloor> * b \<le> a" using floor_divide_lower[OF assms(1)] .
  have u: "a < (of_int \<lfloor>a / b\<rfloor> + 1) * b" using floor_divide_upper[OF assms(1)] .
  from l u show ?thesis using q by (simp add: jsMod_def jsTrunc_def algebra_simps)
qed

lemma jsMod_neg_dividend:
  assumes "0 < b" "a < 0"
  shows "- b < jsMod a b \<and> jsMod a b \<le> 0"
proof -
  have q: "\<not> 0 \<le> a / b" using assms by (simp add: field_simps)
  have u: "a \<le> of_int \<lceil>a / b\<rceil> * b" using ceiling_divide_upper[OF assms(1)] .
  have l: "(of_int \<lceil>a / b\<rceil> - 1) * b < a" using ceiling_divide_lower[OF assms(1)] .
  from l u show ?thesis using q by (simp add: jsMod_def jsTrunc_def algebra_simps)
qed

lemma wrapCoord_range:
  assumes "0 < b"
  shows "0 \<le> wrapCoord v b \<and> wrapCoord v b < b"
proof -
  have "- b < jsMod v b"
    using jsMod_nonneg_dividend[OF assms, of v] jsMod_neg_dividend[OF assms, of v] assms
    by (cases "0 \<le> v") auto
  then have "0 \<le> jsMod v b + b" by simp
  then show ?thesis unfolding wrapCoord_def by (rule jsMod_nonneg_dividend[OF assms])
qed

lemma GameObject_update_in_range:
  assumes "0 < W" "0 < H" "0 \<le> ox obj" "ox obj < W" "0 \<le> oy obj" "oy obj < H"
  shows "0 \<le> ox (GameObject_update (Some W) (Some H) obj) \<and>
         ox (GameObject_update (Some W) (Some H) obj) < W \<and>
         0 \<le> oy (GameObject_update (Some W) (Some H) obj) \<and>
         oy (GameObject_update (Some W) (Some H) obj) < H"
  using assms wrapCoord_range[OF assms(1)] wrapCoord_range[OF assms(2)]
  by (simp add: GameObject_update_def Let_def)

lemma abs_le_sqrt_sum:
  fixes vx vy :: real
  shows "\<bar>vx\<bar> \<le> sqrt (vx * vx + vy * vy)" "\<bar>vy\<bar> \<le> sqrt (vx * vx + vy * vy)"
proof -
  have "sqrt (vx * vx) \<le> sqrt (vx * vx + vy * vy)" by (rule real_sqrt_le_mono) simp
  then show "\<bar>vx\<bar> \<le> sqrt (vx * vx + vy * vy)" by simp
  have "sqrt (vy * vy) \<le> sqrt (vx * vx + vy * vy)" by (rule real_sqrt_le_mono) simp
  then show "\<bar>vy\<bar> \<le> sqrt (vx * vx + vy * vy)" by simp
qed

lemma clamp_component:
  fixes v s c :: real
  assumes "\<bar>v\<bar> \<le> s" "0 \<le> c"
  shows "\<bar>if s > c then (v / s) * c else v\<bar> \<le> c"
proof (cases "s > c")
  case True
  then have spos: "0 < s" using assms(2) by linarith
  have "\<bar>v / s\<bar> \<le> 1" using assms(1) spos by (simp add: field_simps)
  then have "\<bar>v / s\<bar> * c \<le> 1 * c" using assms(2) by (rule mult_right_mono)
  then show ?thesis using True assms(2) by (simp add: abs_mult)
next
  case False
  then show ?thesis using assms by simp
qed

lemma single_wrap:
  fixes x v W :: real
  assumes "0 \<le> x" "x < W" "\<bar>v\<bar> \<le> W"
  shows "0 \<le> (if (if x + v < 0 then x + v + W else x + v) \<ge> W
               then (if x + v < 0 then x + v + W else x + v) - W
               else (if x + v < 0 then x + v + W else x + v))
         \<and> (if (if x + v < 0 then x + v + W else x + v) \<ge> W
               then (if x + v < 0 then x + v + W else x + v) - W
               else (if x + v < 0 then x + v + W else x + v)) < W"
  using assms by (auto simp: abs_le_iff)

lemma getTerrainSpeedMultiplier_range:
  assumes "0 \<le> playerSize"
  shows "0 \<le> getTerrainSpeedMultiplier b playerSize \<and> getTerrainSpeedMultiplier b playerSize \<le> 1"
proof -
  define r where "r = min 1 (playerSize / TERRAIN_PENALTY_REDUCTION_SIZE) * 0.8"
  have r: "0 \<le> r" "r \<le> 1" using assms by (auto simp: r_def TERRAIN_PENALTY_REDUCTION_SIZE_def min_def)
  have base: "\<And>k. 0 \<le> (case TERRAIN_SPEED k of None \<Rightarrow> 1.0 | Some v \<Rightarrow> v) \<and>
                   (case TERRAIN_SPEED k of None \<Rightarrow> 1.0 | Some v \<Rightarrow> v) \<le> (1::real)"
    by (simp add: TERRAIN_SPEED_def)
  have lerp: "\<And>bs::real. 0 \<le> bs \<Longrightarrow> bs \<le> 1 \<Longrightarrow> 0 \<le> bs + (1 - bs) * r \<and> bs + (1 - bs) * r \<le> 1"
  proof -
    fix bs :: real assume b: "0 \<le> bs" "bs \<le> 1"
    have "0 \<le> (1 - bs) * r" using b r by simp
    moreover have "(1 - bs) * r \<le> (1 - bs) * 1" using b r by (intro mult_left_mono) auto
    ultimately show "0 \<le> bs + (1 - bs) * r \<and> bs + (1 - bs) * r \<le> 1" using b by simp
  qed
  show ?thesis
    unfolding getTerrainSpeedMultiplier_def Let_def r_def[symmetric]
    using lerp[OF base[THEN conjunct1] base[THEN conjunct2]] by simp
qed


lemma Player_update_in_range:
  assumes pos: "0 \<le> px p" "px p < W" "0 \<le> py p" "py p < H"
    and sz: "12 \<le> psize p"
    and tsm: "0 \<le> terrainSpeedMultiplier p" "terrainSpeedMultiplier p \<le> 1"
    and speed: "BASE_MAX_SPEED * sqrt (psize p / 12) \<le> W" "BASE_MAX_SPEED * sqrt (psize p / 12) \<le> H"
  shows "0 \<le> px (Player_update input W H world p) \<and> px (Player_update input W H world p) < W \<and>
         0 \<le> py (Player_update input W H world p) \<and> py (Player_update input W H world p) < H"
proof -
  define p1 where "p1 = (case world of None \<Rightarrow> p
     | Some getBiomeAt \<Rightarrow> p\<lparr>currentBiome := Some (getBiomeAt (px p) (py p)),
          terrainSpeedMultiplier := getTerrainSpeedMultiplier (getBiomeAt (px p) (py p)) (psize p)\<rparr>)"
  have same: "px p1 = px p" "py p1 = py p" "psize p1 = psize p"
    by (simp_all add: p1_def split: option.splits)
  have t1: "0 \<le> terrainSpeedMultiplier p1 \<and> terrainSpeedMultiplier p1 \<le> 1"
    using tsm getTerrainSpeedMultiplier_range[of "psize p"] sz
    by (simp add: p1_def split: option.splits)
  define sss where "sss = sqrt (psize p1 / 12)"
  have sss0: "0 \<le> sss" using sz by (simp add: sss_def same)
  define cms where "cms = BASE_MAX_SPEED * sss * terrainSpeedMultiplier p1"
  have b0: "0 \<le> BASE_MAX_SPEED * sss" using sss0 by (simp add: BASE_MAX_SPEED_def)
  have cms0: "0 \<le> cms" unfolding cms_def using b0 t1 by simp
  have "cms \<le> (BASE_MAX_SPEED * sss) * 1"
    unfolding cms_def using b0 t1 by (intro mult_left_mono) auto
  then have cmsW: "cms \<le> W" and cmsH: "cms \<le> H"
    using speed by (simp_all add: sss_def same)
  define acc where "acc = (BASE_ACCELERATION * sss / getMomentumFactor p1) * terrainSpeedMultiplier p1"
  define bf0 where "bf0 = BASE_FRICTION + (1 - BASE_FRICTION) * (1 - 1 / getMomentumFactor p1) * 0.5"
  define bf where "bf = (if terrainSpeedMultiplier p1 < 1.0
       then bf0 * (1 - (1 - terrainSpeedMultiplier p1) * 0.1) else bf0)"
  define vy3 where "vy3 = (if down input then (if up input then pvy p1 - acc else pvy p1) + acc
       else (if up input then pvy p1 - acc else pvy p1)) * bf"
  define vx3 where "vx3 = (if right input then (if left input then pvx p1 - acc else pvx p1) + acc
       else (if left input then pvx p1 - acc else pvx p1)) * bf"
  define sp where "sp = sqrt (vx3 * vx3 + vy3 * vy3)"
  define vx4 where "vx4 = (if sp > cms then (vx3 / sp) * cms else vx3)"
  define vy4 where "vy4 = (if sp > cms then (vy3 / sp) * cms else vy3)"
  have ex: "px (Player_update input W H world p) =
        (if (if px p + vx4 < 0 then px p + vx4 + W else px p + vx4) \<ge> W
         then (if px p + vx4 < 0 then px p + vx4 + W else px p + vx4) - W
         else (if px p + vx4 < 0 then px p + vx4 + W else px p + vx4))"
    unfolding Player_update_def Let_def vx4_def vy4_def sp_def vx3_def vy3_def bf_def bf0_def
      acc_def cms_def sss_def p1_def
    by (cases world; hypsubst; simp split del: if_split cong: if_cong)
  have ey: "py (Player_update input W H world p) =
        (if (if py p + vy4 < 0 then py p + vy4 + H else py p + vy4) \<ge> H
         then (if py p + vy4 < 0 then py p + vy4 + H else py p + vy4) - H
         else (if py p + vy4 < 0 then py p + vy4 + H else py p + vy4))"
    unfolding Player_update_def Let_def vx4_def vy4_def sp_def vx3_def vy3_def bf_def bf0_def
      acc_def cms_def sss_def p1_def
    by (cases world; hypsubst; simp split del: if_split cong: if_cong)
  have "\<bar>vx4\<bar> \<le> cms" unfolding vx4_def sp_def
    by (rule clamp_component[OF abs_le_sqrt_sum(1) cms0])
  then have vx: "\<bar>vx4\<bar> \<le> W" using cmsW by linarith
  have "\<bar>vy4\<bar> \<le> cms" unfolding vy4_def sp_def
    by (rule clamp_component[OF abs_le_sqrt_sum(2) cms0])
  then have vy: "\<bar>vy4\<bar> \<le> H" using cmsH by linarith
  show ?thesis
    unfolding ex ey using single_wrap[OF pos(1,2) vx] single_wrap[OF pos(3,4) vy] by blast
qed

text \<open>
  C9. For world dimensions \<open>W\<close> and \<open>H\<close>: an object whose position is inside
  \<open>[0, W) \<times> [0, H)\<close> is again inside after GameObject.update called with the
  dimensions, whatever its velocity. The player, whose update wraps by at most one world
  length, is again inside after Player.update when its size is at least the starting size
  12, its terrain multiplier is within [0, 1], and its top speed
  \<open>BASE_MAX_SPEED * sqrt (size / 12)\<close> does not exceed either dimension (on the
  24192 by 18864 world this holds for every size up to about 2 * 10^8; the game ends at 2500).
\<close>

theorem positions_stay_in_world:
  assumes "0 < W" "0 < H"
  shows "(0 \<le> ox obj \<and> ox obj < W \<and> 0 \<le> oy obj \<and> oy obj < H \<longrightarrow>
            0 \<le> ox (GameObject_update (Some W) (Some H) obj) \<and>
            ox (GameObject_update (Some W) (Some H) obj) < W \<and>
            0 \<le> oy (GameObject_update (Some W) (Some H) obj) \<and>
            oy (GameObject_update (Some W) (Some H) obj) < H) \<and>
         (0 \<le> px p \<and> px p < W \<and> 0 \<le> py p \<and> py p < H \<and> 12 \<le> psize p \<and>
          0 \<le> terrainSpeedMultiplier p \<and> terrainSpeedMultiplier p \<le> 1 \<and>
          BASE_MAX_SPEED * sqrt (psize p / 12) \<le> W \<and>
          BASE_MAX_SPEED * sqrt (psize p / 12) \<le> H \<longrightarrow>
            0 \<le> px (Player_update input W H world p) \<and>
            px (Player_update input W H world p) < W \<and>
            0 \<le> py (Player_update input W H world p) \<and>
            py (Player_update input W H world p) < H)"
  using GameObject_update_in_range[OF assms, of obj] Player_update_in_range[of p W H input world]
  by blast

theorem positions_stay_in_world_witness:
  "(0 \<le> ox (GameObject_update (Some WORLD_WIDTH) (Some WORLD_HEIGHT) rockAtEdge) \<and>
    ox (GameObject_update (Some WORLD_WIDTH) (Some WORLD_HEIGHT) rockAtEdge) < WORLD_WIDTH \<and>
    0 \<le> oy (GameObject_update (Some WORLD_WIDTH) (Some WORLD_HEIGHT) rockAtEdge) \<and>
    oy (GameObject_update (Some WORLD_WIDTH) (Some WORLD_HEIGHT) rockAtEdge) < WORLD_HEIGHT) \<and>
   (0 \<le> px (Player_update noInput WORLD_WIDTH WORLD_HEIGHT None largePlayer) \<and>
    px (Player_update noInput WORLD_WIDTH WORLD_HEIGHT None largePlayer) < WORLD_WIDTH \<and>
    0 \<le> py (Player_update noInput WORLD_WIDTH WORLD_HEIGHT None largePlayer) \<and>
    py (Player_update noInput WORLD_WIDTH WORLD_HEIGHT None largePlayer) < WORLD_HEIGHT)"
proof -
  have w: "0 < WORLD_WIDTH" "0 < WORLD_HEIGHT" by (simp_all add: WORLD_WIDTH_def WORLD_HEIGHT_def)
  have o: "0 \<le> ox rockAtEdge \<and> ox rockAtEdge < WORLD_WIDTH \<and>
           0 \<le> oy rockAtEdge \<and> oy rockAtEdge < WORLD_HEIGHT"
    by (simp add: rockAtEdge_def newGameObject_def WORLD_WIDTH_def WORLD_HEIGHT_def)
  have "sqrt (2500 / 12 :: real) \<le> sqrt (50 * 50)" by (rule real_sqrt_le_mono) simp
  then have sq: "sqrt (2500 / 12 :: real) \<le> 50" by simp
  have pl: "0 \<le> px largePlayer \<and> px largePlayer < WORLD_WIDTH \<and>
            0 \<le> py largePlayer \<and> py largePlayer < WORLD_HEIGHT \<and> 12 \<le> psize largePlayer \<and>
            0 \<le> terrainSpeedMultiplier largePlayer \<and> terrainSpeedMultiplier largePlayer \<le> 1 \<and>
            BASE_MAX_SPEED * sqrt (psize largePlayer / 12) \<le> WORLD_WIDTH \<and>
            BASE_MAX_SPEED * sqrt (psize largePlayer / 12) \<le> WORLD_HEIGHT"
    using sq by (simp add: largePlayer_def newPlayer_def WORLD_WIDTH_def WORLD_HEIGHT_def
        BASE_MAX_SPEED_def)
  from positions_stay_in_world[OF w, of rockAtEdge largePlayer noInput None] o pl
  show ?thesis by blast
qed


subsection \<open>The biome classifier\<close>

lemma if_in: "a \<in> S \<Longrightarrow> b \<in> S \<Longrightarrow> (if c then a else b) \<in> S"
  by simp


lemma selectBiome_range: "selectBiome BIOMES e m t zp zs x y cn vn \<in> BIOMES ` set biomeKeys"
  unfolding selectBiome_def Let_def
  by (intro if_in) (simp_all add: biomeKeys_def)


lemma selectBiome_total_aux:
  assumes "\<forall>k\<in>set biomeKeys. BIOMES k \<noteq> None"
  shows "\<exists>k\<in>set biomeKeys. \<exists>b. selectBiome BIOMES e m t zp zs x y cn vn = Some b \<and> BIOMES k = Some b"
proof -
  from selectBiome_range[of BIOMES e m t zp zs x y cn vn]
  obtain k where k: "k \<in> set biomeKeys" "selectBiome BIOMES e m t zp zs x y cn vn = BIOMES k"
    by auto
  with assms obtain b where "BIOMES k = Some b" by auto
  with k show ?thesis by auto
qed

text \<open>
  C8. The classifier is total. Whatever the elevation, moisture, temperature, zone
  preference, zone strength, position and noise values are, selectBiome returns the table
  entry of one of the nine biome names: every path of the cascade ends in a return, the
  last one being the meadow. Given a table that defines the nine names, the result is
  therefore a biome of that table and never \<^verbatim>\<open>undefined\<close>.
\<close>

theorem selectBiome_total:
  assumes "set biomeKeys \<subseteq> dom BIOMES"
  shows "\<exists>k\<in>set biomeKeys. \<exists>b. selectBiome BIOMES e m t zp zs x y cn vn = Some b \<and> BIOMES k = Some b"
proof -
  from assms have "\<forall>k\<in>set biomeKeys. BIOMES k \<noteq> None" by blast
  then show ?thesis by (rule selectBiome_total_aux)
qed

theorem selectBiome_total_witness:
  "set biomeKeys \<subseteq> dom demoBiomes \<and>
   (\<exists>k\<in>set biomeKeys. \<exists>b.
      selectBiome demoBiomes 0.5 0.5 0.5 ''meadow'' 0.3 WORLD_CENTER_X WORLD_CENTER_Y None None = Some b
      \<and> demoBiomes k = Some b)"
proof -
  have h: "set biomeKeys \<subseteq> dom demoBiomes" by (auto simp add: demoBiomes_def)
  from selectBiome_total[OF h, of "0.5" "0.5" "0.5" "''meadow''" "0.3" WORLD_CENTER_X WORLD_CENTER_Y None None] h
  show ?thesis by blast
qed

text \<open>At the world center with neutral inputs no rule of the cascade fires: the meadow.\<close>

lemma selectBiome_center:
  "selectBiome demoBiomes 0.5 0.5 0.5 ''meadow'' 0.3 WORLD_CENTER_X WORLD_CENTER_Y None None
     = Some (demoBiome ''meadow'')"
  by (simp add: selectBiome_def getDistanceFromCenter_def getTerrainType_def demoBiomes_def
        biomeKeys_def Let_def)

subsection \<open>Weighted selection\<close>

lemma unsigned_real_range:
  fixes w :: "32 word"
  shows "0 \<le> (unsigned w :: real) \<and> (unsigned w :: real) < 4294967296"
proof -
  have n: "unat w < 2 ^ LENGTH(32)" by (rule unsigned_less)
  have "real (unat w) < real (2 ^ LENGTH(32))" using n by (rule of_nat_less_iff[THEN iffD2])
  then have "real (unat w) < 4294967296" by simp
  moreover have "(unsigned w :: real) = real (unat w)" by (rule of_nat_unat[symmetric])
  moreover have "0 \<le> real (unat w)" by (rule of_nat_0_le_iff)
  ultimately show ?thesis by (simp only:)
qed

lemma next_range: "0 \<le> fst (SeededRandom_next r) \<and> fst (SeededRandom_next r) < 1"
  using unsigned_real_range[of "mulberryMix (word_of_int (rngState r + 0x6d2b79f5))"]
  by (simp add: SeededRandom_next_def Let_def)

lemma pickItem_mem: "pickItem rand xs = Some it \<Longrightarrow> it \<in> set xs"
  by (induction xs arbitrary: rand) (auto simp: Let_def split: if_splits)

lemma weightedRandomSelect_cases:
  assumes "items \<noteq> []"
  shows "(\<exists>e\<in>set items. fst (weightedRandomSelect (Some items) rng ps)
              = Some (e\<lparr>adjustedWeight := Some (adjustWeight ps e)\<rparr>))
         \<or> fst (weightedRandomSelect (Some items) rng ps) = Some (hd items)"
proof -
  obtain first rest where items: "items = first # rest" using assms by (cases items) auto
  define adj where "adj = map (\<lambda>item. item\<lparr>adjustedWeight := Some (adjustWeight ps item)\<rparr>) items"
  define rand where "rand = fst (SeededRandom_next rng) * foldl (\<lambda>sum item. sum + adjustedWeightOf item) 0 adj"
  have eq: "fst (weightedRandomSelect (Some items) rng ps) =
        (case pickItem rand adj of Some item \<Rightarrow> Some item | None \<Rightarrow> Some first)"
    unfolding rand_def adj_def items
    by (simp add: weightedRandomSelect_def Let_def split_beta split: option.splits)
  show ?thesis
  proof (cases "pickItem rand adj")
    case None
    with eq items show ?thesis by simp
  next
    case (Some it)
    from pickItem_mem[OF Some] have "it \<in> set adj" .
    then obtain e where "e \<in> set items" "it = e\<lparr>adjustedWeight := Some (adjustWeight ps e)\<rparr>"
      unfolding adj_def by auto
    with eq Some show ?thesis by auto
  qed
qed

lemma weightedRandomSelect_None_iff:
  "fst (weightedRandomSelect itemsArg rng ps) = None \<longleftrightarrow> itemsArg = None \<or> itemsArg = Some []"
proof (cases itemsArg)
  case None
  then show ?thesis by (simp add: weightedRandomSelect_def)
next
  case (Some items)
  show ?thesis
  proof (cases "items = []")
    case True
    with Some show ?thesis by (simp add: weightedRandomSelect_def)
  next
    case False
    from weightedRandomSelect_cases[OF False, of rng ps] Some False show ?thesis by auto
  qed
qed

lemma single_entry_draw:
  "fst (weightedRandomSelect (Some [rockEntry]) (newSeededRandom 42) None)
     = Some (rockEntry\<lparr>adjustedWeight := Some 1\<rparr>)"
proof -
  have u: "fst (SeededRandom_next (newSeededRandom 42)) - 1 \<le> 0"
    using next_range[of "newSeededRandom 42"] by simp
  show ?thesis
    using u
    by (simp add: weightedRandomSelect_def Let_def split_beta adjustWeight_def adjustedWeightOf_def
          rockEntry_def)
qed

text \<open>
  C10, as stated, fails: the value returned from the draw loop is not an element of the
  input list but a copy of one, extended with the field adjustedWeight. With the single
  entry \<open>rockEntry\<close>, seed 42 and no player size, the result is the copy with
  adjustedWeight 1, which the input list does not contain.
\<close>

theorem weightedRandomSelect_returns_copy:
  "fst (weightedRandomSelect (Some [rockEntry]) (newSeededRandom 42) None)
     = Some (rockEntry\<lparr>adjustedWeight := Some 1\<rparr>) \<and>
   rockEntry\<lparr>adjustedWeight := Some 1\<rparr> \<notin> set [rockEntry]"
  using single_entry_draw by (simp add: rockEntry_def)

text \<open>
  C10, amended. The result is \<^verbatim>\<open>null\<close> exactly when the list is missing or empty. For a
  non-empty list, every generator state and every player size (or none), the result is
  either a copy of an element of the list that carries its adjusted weight in the
  additional field adjustedWeight, all other fields being those of the element, or, on the
  fallback path, the first element itself.
\<close>

theorem weightedRandomSelect_never_null:
  "(fst (weightedRandomSelect itemsArg rng ps) = None \<longleftrightarrow> itemsArg = None \<or> itemsArg = Some []) \<and>
   (\<forall>items. itemsArg = Some items \<and> items \<noteq> [] \<longrightarrow>
      (\<exists>e\<in>set items. fst (weightedRandomSelect itemsArg rng ps)
           = Some (e\<lparr>adjustedWeight := Some (adjustWeight ps e)\<rparr>))
      \<or> fst (weightedRandomSelect itemsArg rng ps) = Some (hd items))"
  using weightedRandomSelect_None_iff[of itemsArg rng ps] weightedRandomSelect_cases[of _ rng ps]
  by blast

theorem weightedRandomSelect_never_null_witness:
  "[rockEntry] \<noteq> [] \<and>
   ((\<exists>e\<in>set [rockEntry]. fst (weightedRandomSelect (Some [rockEntry]) (newSeededRandom 42) (Some 12))
        = Some (e\<lparr>adjustedWeight := Some (adjustWeight (Some 12) e)\<rparr>))
    \<or> fst (weightedRandomSelect (Some [rockEntry]) (newSeededRandom 42) (Some 12)) = Some (hd [rockEntry]))"
proof -
  have h: "[rockEntry] \<noteq> []" by simp
  from weightedRandomSelect_never_null[of "Some [rockEntry]" "newSeededRandom 42" "Some 12"] h
  show ?thesis by blast
qed

subsection \<open>The over-cap eviction\<close>

lemma set_insertBy: "set (insertBy cmp a xs) = insert a (set xs)"
  by (induction xs) auto

lemma parted_insertBy:
  assumes up: "\<And>a b. P a \<Longrightarrow> \<not> P b \<Longrightarrow> cmp a b > 0"
    and down: "\<And>a b. \<not> P a \<Longrightarrow> P b \<Longrightarrow> cmp a b \<le> 0"
  shows "parted P xs \<Longrightarrow> parted P (insertBy cmp a xs)"
proof (induction xs)
  case Nil
  show ?case unfolding insertBy.simps parted.simps by simp
next
  case (Cons b bs)
  have pb: "parted P bs" and allb: "P b \<longrightarrow> (\<forall>z\<in>set bs. P z)"
    using Cons.prems unfolding parted.simps by blast+
  show ?case
  proof (cases "cmp a b \<le> 0")
    case True
    have ab: "P a \<longrightarrow> P b"
    proof (rule impI, rule ccontr)
      assume "P a" "\<not> P b"
      then have "cmp a b > 0" by (rule up)
      with True show False by linarith
    qed
    have eq: "insertBy cmp a (b # bs) = a # b # bs" using True by (simp only: insertBy.simps if_True)
    show ?thesis unfolding eq parted.simps list.set using ab allb pb by blast
  next
    case False
    have ba: "P b \<longrightarrow> P a"
    proof (rule impI, rule ccontr)
      assume "P b" "\<not> P a"
      then have "cmp a b \<le> 0" using down by blast
      with False show False by blast
    qed
    have ih: "parted P (insertBy cmp a bs)" using pb by (rule Cons.IH)
    have eq: "insertBy cmp a (b # bs) = b # insertBy cmp a bs"
      using False by (simp only: insertBy.simps if_False)
    show ?thesis unfolding eq parted.simps set_insertBy using ih ba allb by blast
  qed
qed

lemma parted_jsSort:
  assumes "\<And>a b. P a \<Longrightarrow> \<not> P b \<Longrightarrow> cmp a b > 0"
    and "\<And>a b. \<not> P a \<Longrightarrow> P b \<Longrightarrow> cmp a b \<le> 0"
  shows "parted P (jsSort cmp xs)"
proof (induction xs)
  case Nil
  show ?case unfolding jsSort_def by (simp only: foldr.simps id_apply parted.simps)
next
  case (Cons x xs)
  have "jsSort cmp (x # xs) = insertBy cmp x (jsSort cmp xs)"
    unfolding jsSort_def by (simp only: foldr.simps comp_apply)
  then show ?case using parted_insertBy[OF assms Cons.IH] by (simp only:)
qed

lemma parted_drop:
  "parted P ys \<Longrightarrow> drop (length ys - length (filter P ys)) ys = filter P ys"
proof (induction ys)
  case Nil
  show ?case by simp
next
  case (Cons y ys)
  have py: "parted P ys" and ally: "P y \<longrightarrow> (\<forall>z\<in>set ys. P z)"
    using Cons.prems unfolding parted.simps by blast+
  show ?case
  proof (cases "P y")
    case True
    with ally have "\<forall>z\<in>set ys. P z" by blast
    then have "filter P ys = ys" by (simp only: filter_id_conv)
    with True show ?thesis by simp
  next
    case False
    have "length (filter P ys) \<le> length ys" by (rule length_filter_le)
    then have "length (y # ys) - length (filter P ys) = Suc (length ys - length (filter P ys))"
      by (simp add: Suc_diff_le)
    with False Cons.IH[OF py] show ?thesis by simp
  qed
qed


lemma mset_insertBy: "mset (insertBy cmp a xs) = add_mset a (mset xs)"
  by (induction xs) auto

lemma mset_jsSort: "mset (jsSort cmp xs) = mset xs"
  unfolding jsSort_def by (induction xs) (auto simp: mset_insertBy)

lemma evictCompare_up:
  assumes "nearCollectible x y kr thr a" "\<not> nearCollectible x y kr thr b"
  shows "evictCompare x y kr thr a b > 0"
proof -
  have "evictCompare x y kr thr a b =
     (if nearCollectible x y kr thr a \<and> \<not> nearCollectible x y kr thr b then 1
      else evictCompare x y kr thr a b)"
    unfolding evictCompare_def nearCollectible_def Let_def
    by (simp split del: if_split cong: if_cong)
  with assms show ?thesis by simp
qed

lemma evictCompare_down:
  assumes "\<not> nearCollectible x y kr thr a" "nearCollectible x y kr thr b"
  shows "evictCompare x y kr thr a b \<le> 0"
proof -
  have "evictCompare x y kr thr a b =
     (if nearCollectible x y kr thr a \<and> \<not> nearCollectible x y kr thr b then 1
      else if nearCollectible x y kr thr b \<and> \<not> nearCollectible x y kr thr a then -1
      else evictCompare x y kr thr a b)"
    unfolding evictCompare_def nearCollectible_def Let_def
    by (simp split del: if_split cong: if_cong)
  with assms show ?thesis by simp
qed

lemma evictOverCap_keeps:
  assumes "length objs > MAX_OBJECTS"
    and "length (filter (nearCollectible x y kr (ps * 0.95)) objs) = MAX_OBJECTS"
  shows "mset (evictOverCap x y kr ps objs) = mset (filter (nearCollectible x y kr (ps * 0.95)) objs)
         \<and> length (evictOverCap x y kr ps objs) = MAX_OBJECTS"
proof -
  define P where "P = nearCollectible x y kr (ps * 0.95)"
  define s where "s = jsSort (evictCompare x y kr (ps * 0.95)) objs"
  have m: "mset s = mset objs" unfolding s_def by (rule mset_jsSort)
  have p: "parted P s" unfolding s_def P_def
    by (rule parted_jsSort) (erule (1) evictCompare_up, erule (1) evictCompare_down)
  have mf: "mset (filter P s) = mset (filter P objs)" using m by simp
  have "length (filter P s) = size (mset (filter P s))" by (simp only: size_mset)
  also have "\<dots> = size (mset (filter P objs))" by (simp only: mf)
  also have "\<dots> = MAX_OBJECTS" using assms(2) unfolding P_def by (simp only: size_mset)
  finally have len: "length (filter P s) = MAX_OBJECTS" .
  have ls: "length s = length objs" using m by (metis size_mset)
  have "evictOverCap x y kr ps objs = drop (length s - MAX_OBJECTS) s"
    using assms(1) unfolding evictOverCap_def Let_def s_def by (simp only: if_True)
  also have "\<dots> = filter P s" using parted_drop[OF p] len by (simp only:)
  finally have e: "evictOverCap x y kr ps objs = filter P s" .
  show ?thesis unfolding e using mf len unfolding P_def by (simp only: simp_thms)
qed


text \<open>
  C3. Take a population of twice MAX_OBJECTS objects of which exactly MAX_OBJECTS are
  within the keep radius and collectible (size below 95 percent of the agent size); the
  other half may be anywhere, far away included. The eviction (priority sort, then
  truncation to the cap) keeps every near and collectible object, keeps nothing else, and
  leaves exactly MAX_OBJECTS objects.
\<close>

theorem eviction_keeps_near_collectibles:
  assumes "length objs = 2 * MAX_OBJECTS"
    and "length (filter (nearCollectible x y kr (ps * 0.95)) objs) = MAX_OBJECTS"
  shows "mset (evictOverCap x y kr ps objs) = mset (filter (nearCollectible x y kr (ps * 0.95)) objs)
         \<and> length (evictOverCap x y kr ps objs) = MAX_OBJECTS"
proof -
  have "length objs > MAX_OBJECTS" using assms(1) by (simp add: MAX_OBJECTS_def)
  then show ?thesis using assms(2) by (rule evictOverCap_keeps)
qed

lemma far_dist: "\<not> nearCollectible 100 200 250 (100 * 0.95) rockFarAway"
  by (simp add: nearCollectible_def rockFarAway_def newGameObject_def getWrappedDistance_def
        WORLD_WIDTH_def WORLD_HEIGHT_def)

lemma near_dist: "nearCollectible 100 200 250 (100 * 0.95) rockNearAgent"
  by (simp add: nearCollectible_def rockNearAgent_def newGameObject_def getWrappedDistance_def
        WORLD_WIDTH_def WORLD_HEIGHT_def rockEntry_def)

lemma wit_len: "length (filter (nearCollectible 100 200 250 (100 * 0.95))
    (replicate 1500 rockNearAgent @ replicate 1500 rockFarAway)) = MAX_OBJECTS"
  using far_dist near_dist by (simp add: MAX_OBJECTS_def)

theorem eviction_keeps_near_collectibles_witness:
  "length (replicate 1500 rockNearAgent @ replicate 1500 rockFarAway) = 2 * MAX_OBJECTS \<and>
   length (filter (nearCollectible 100 200 250 (100 * 0.95))
             (replicate 1500 rockNearAgent @ replicate 1500 rockFarAway)) = MAX_OBJECTS \<and>
   mset (evictOverCap 100 200 250 100 (replicate 1500 rockNearAgent @ replicate 1500 rockFarAway))
     = mset (filter (nearCollectible 100 200 250 (100 * 0.95))
               (replicate 1500 rockNearAgent @ replicate 1500 rockFarAway)) \<and>
   length (evictOverCap 100 200 250 100 (replicate 1500 rockNearAgent @ replicate 1500 rockFarAway))
     = MAX_OBJECTS"
proof -
  have l: "length (replicate 1500 rockNearAgent @ replicate 1500 rockFarAway) = 2 * MAX_OBJECTS"
    by (simp add: MAX_OBJECTS_def)
  from eviction_keeps_near_collectibles[OF l wit_len] l wit_len show ?thesis by blast
qed


subsection \<open>Season transition\<close>

lemma spawnAtPoint_snd:
  "snd (spawnAtPoint bounds margin season ps pt (rng, objs)) = objs \<or>
   (\<exists>sz ty. \<not> withinBounds bounds margin (ptX pt) (ptY pt) \<and>
      snd (spawnAtPoint bounds margin season ps pt (rng, objs)) = objs @ [newGameObject (ptX pt) (ptY pt) sz ty])"
  unfolding spawnAtPoint_def Let_def
  by (auto split: prod.splits option.splits)

lemma spawnAtPoint_fresh:
  "\<exists>fresh. snd (spawnAtPoint bounds margin season ps pt (rng, objs)) = objs @ fresh \<and>
       length fresh \<le> 1 \<and>
       (\<forall>obj\<in>set fresh. \<not> withinBounds bounds margin (ox obj) (oy obj) \<and> ovx obj = 0 \<and> ovy obj = 0
            \<and> \<not> collected obj)"
proof -
  from spawnAtPoint_snd[of bounds margin season ps pt rng objs]
  consider (same) "snd (spawnAtPoint bounds margin season ps pt (rng, objs)) = objs"
    | (new) sz ty where "\<not> withinBounds bounds margin (ptX pt) (ptY pt)"
        "snd (spawnAtPoint bounds margin season ps pt (rng, objs)) = objs @ [newGameObject (ptX pt) (ptY pt) sz ty]"
    by blast
  then show ?thesis
  proof cases
    case same
    then show ?thesis by (intro exI[of _ "[]"]) simp
  next
    case new
    then show ?thesis
      by (intro exI[of _ "[newGameObject (ptX pt) (ptY pt) sz ty]"]) (simp add: newGameObject_def)
  qed
qed

lemma spawnAtPoints_fresh:
  "\<exists>fresh. snd (spawnAtPoints bounds margin season ps pts (rng, objs)) = objs @ fresh \<and>
       length fresh \<le> length pts \<and>
       (\<forall>obj\<in>set fresh. \<not> withinBounds bounds margin (ox obj) (oy obj) \<and> ovx obj = 0 \<and> ovy obj = 0
            \<and> \<not> collected obj)"
proof (induction pts arbitrary: rng objs)
  case Nil
  show ?case by (simp add: spawnAtPoints_def)
next
  case (Cons pt pts)
  obtain rng1 objs1 where s1: "spawnAtPoint bounds margin season ps pt (rng, objs) = (rng1, objs1)"
    by (cases "spawnAtPoint bounds margin season ps pt (rng, objs)")
  from spawnAtPoint_fresh[of bounds margin season ps pt rng objs] s1
  obtain f1 where f1: "objs1 = objs @ f1" "length f1 \<le> 1"
    "\<forall>obj\<in>set f1. \<not> withinBounds bounds margin (ox obj) (oy obj) \<and> ovx obj = 0 \<and> ovy obj = 0 \<and> \<not> collected obj"
    by auto
  from Cons.IH[of rng1 objs1]
  obtain f2 where f2: "snd (spawnAtPoints bounds margin season ps pts (rng1, objs1)) = objs1 @ f2"
    "length f2 \<le> length pts"
    "\<forall>obj\<in>set f2. \<not> withinBounds bounds margin (ox obj) (oy obj) \<and> ovx obj = 0 \<and> ovy obj = 0 \<and> \<not> collected obj"
    by blast
  have step: "spawnAtPoints bounds margin season ps (pt # pts) (rng, objs)
        = spawnAtPoints bounds margin season ps pts (rng1, objs1)"
    by (simp add: spawnAtPoints_def s1)
  show ?case
    unfolding step
    using f1 f2 by (intro exI[of _ "f1 @ f2"]) auto
qed

lemma landPointsLoop_length: "length (landPointsLoop world n rng) \<le> n"
  by (induction n arbitrary: rng) (auto simp: Let_def split: prod.splits intro: le_SucI)

lemma oceanPointsLoop_length: "length (oceanPointsLoop world n rng) \<le> n"
  by (induction n arbitrary: rng) (auto simp: Let_def split: prod.splits intro: le_SucI)

lemma share_floor: "nat \<lfloor>real n * 0.8\<rfloor> + nat \<lfloor>real n * 0.2\<rfloor> \<le> n"
proof -
  have "\<lfloor>real n * 0.8\<rfloor> + \<lfloor>real n * 0.2\<rfloor> \<le> \<lfloor>real n * 0.8 + real n * 0.2\<rfloor>" by (rule le_floor_add)
  also have "real n * 0.8 + real n * 0.2 = real n" by simp
  finally have "\<lfloor>real n * 0.8\<rfloor> + \<lfloor>real n * 0.2\<rfloor> \<le> int n" by simp
  moreover have "0 \<le> \<lfloor>real n * 0.8\<rfloor>" "0 \<le> \<lfloor>real n * 0.2\<rfloor>" by simp_all
  ultimately show ?thesis by linarith
qed

lemma respawn_objects:
  "\<exists>fresh. objects (respawnOffScreenObjects world st)
       = filter (keptOnSeasonChange (getVisibleBounds (camera st)) 200) (objects st) @ fresh \<and>
     length fresh \<le> 8000 - length (filter (keptOnSeasonChange (getVisibleBounds (camera st)) 200) (objects st)) \<and>
     (\<forall>obj\<in>set fresh. \<not> withinBounds (getVisibleBounds (camera st)) 200 (ox obj) (oy obj)
          \<and> ovx obj = 0 \<and> ovy obj = 0 \<and> \<not> collected obj)"
proof -
  define bounds where "bounds = getVisibleBounds (camera st)"
  define kept where "kept = filter (keptOnSeasonChange bounds 200) (objects st)"
  define season where "season = getCurrentSeason st"
  define ps where "ps = (case player st of Some p \<Rightarrow> psize p | None \<Rightarrow> STARTING_SIZE)"
  define land where "land = generateLandSpawnPoints world (nat \<lfloor>real (8000 - length kept) * 0.8\<rfloor>)
                            (WORLD_SEED + int (currentSeasonIndex st) * 100 + 50000)"
  define ocean where "ocean = generateOceanSpawnPoints world (nat \<lfloor>real (8000 - length kept) * 0.2\<rfloor>)
                             (WORLD_SEED + int (currentSeasonIndex st) * 200 + 50000)"
  define a1 where "a1 = spawnAtPoints bounds 200 season ps land
                           (newSeededRandom (WORLD_SEED + int (currentSeasonIndex st) * 1000), kept)"
  have eq: "objects (respawnOffScreenObjects world st) = snd (spawnAtPoints bounds 200 season ps ocean a1)"
    unfolding respawnOffScreenObjects_def Let_def a1_def ocean_def land_def ps_def season_def
      kept_def bounds_def by simp
  have ll: "length land \<le> nat \<lfloor>real (8000 - length kept) * 0.8\<rfloor>"
    unfolding land_def generateLandSpawnPoints_def by (rule landPointsLoop_length)
  have lo: "length ocean \<le> nat \<lfloor>real (8000 - length kept) * 0.2\<rfloor>"
    unfolding ocean_def generateOceanSpawnPoints_def by (rule oceanPointsLoop_length)
  obtain r1 o1 where a1: "a1 = (r1, o1)" by (cases a1)
  from spawnAtPoints_fresh[of bounds 200 season ps land _ kept]
  obtain f1 where f1: "o1 = kept @ f1" "length f1 \<le> length land"
    "\<forall>obj\<in>set f1. \<not> withinBounds bounds 200 (ox obj) (oy obj) \<and> ovx obj = 0 \<and> ovy obj = 0 \<and> \<not> collected obj"
    using a1 unfolding a1_def by (metis snd_conv)
  from spawnAtPoints_fresh[of bounds 200 season ps ocean r1 o1]
  obtain f2 where f2: "snd (spawnAtPoints bounds 200 season ps ocean (r1, o1)) = o1 @ f2"
    "length f2 \<le> length ocean"
    "\<forall>obj\<in>set f2. \<not> withinBounds bounds 200 (ox obj) (oy obj) \<and> ovx obj = 0 \<and> ovy obj = 0 \<and> \<not> collected obj"
    by blast
  have "length (f1 @ f2) \<le> 8000 - length kept"
    using f1(2) f2(2) ll lo share_floor[of "8000 - length kept"] by simp
  then show ?thesis
    unfolding eq a1 bounds_def[symmetric] kept_def[symmetric]
    using f1 f2 by (intro exI[of _ "f1 @ f2"]) auto
qed

text \<open>In a world without objects the transition keeps the filtered population and adds nothing.\<close>

lemma spawnAtPoint_barren:
  assumes "seasonObjects (ptBiome pt) season = []"
  shows "spawnAtPoint bounds margin season ps pt (rng, objs) = (rng, objs)"
  using assms by (simp add: spawnAtPoint_def Let_def)

lemma spawnAtPoints_barren:
  assumes "\<forall>pt\<in>set pts. seasonObjects (ptBiome pt) season = []"
  shows "spawnAtPoints bounds margin season ps pts (rng, objs) = (rng, objs)"
  using assms unfolding spawnAtPoints_def
  by (induction pts) (simp_all add: spawnAtPoint_barren)

lemma landPointsLoop_biome:
  assumes "\<And>x y. P (world x y)"
  shows "\<forall>pt\<in>set (landPointsLoop world n rng). P (ptBiome pt)"
proof (induction n arbitrary: rng)
  case 0
  show ?case by simp
next
  case (Suc n)
  show ?case
    unfolding landPointsLoop.simps Let_def split_beta
    using Suc.IH assms by simp
qed

lemma oceanPointsLoop_biome:
  assumes "\<And>x y. P (world x y)"
  shows "\<forall>pt\<in>set (oceanPointsLoop world n rng). P (ptBiome pt)"
proof (induction n arbitrary: rng)
  case 0
  show ?case by simp
next
  case (Suc n)
  show ?case
    unfolding oceanPointsLoop.simps Let_def split_beta
    using Suc.IH assms by simp
qed

lemma respawn_barren:
  "objects (respawnOffScreenObjects barrenWorld st)
     = filter (keptOnSeasonChange (getVisibleBounds (camera st)) 200) (objects st)"
proof -
  have e: "seasonObjects barrenBiome season = []" for season by (simp add: barrenBiome_def)
  have land: "\<forall>pt\<in>set (generateLandSpawnPoints barrenWorld n seed). seasonObjects (ptBiome pt) season = []"
    for n seed season
    unfolding generateLandSpawnPoints_def
    by (rule landPointsLoop_biome) (simp add: barrenWorld_def e)
  have ocean: "\<forall>pt\<in>set (generateOceanSpawnPoints barrenWorld n seed). seasonObjects (ptBiome pt) season = []"
    for n seed season
    unfolding generateOceanSpawnPoints_def
    by (rule oceanPointsLoop_biome) (simp add: barrenWorld_def e)
  show ?thesis
    unfolding respawnOffScreenObjects_def Let_def
      spawnAtPoints_barren[OF land] spawnAtPoints_barren[OF ocean]
    by simp
qed

text \<open>
  C4 at the seam of the world. The transition keeps the objects whose raw coordinates lie
  inside the camera bounds widened by 200, and the camera position is never wrapped: near
  the seam the bounds reach beyond the world (here from \<open>-50\<close> to \<open>118\<close>). The bush at
  \<open>x = 24172\<close> is on screen: the renderer's test isVisible holds for it and it is drawn at
  \<open>x = -20\<close>, inside the view. It is not of a permanent type. The transition discards it
  all the same, because \<open>24172 < 118 + 200\<close> fails, and keeps only the bush at \<open>x = 100\<close>.
  The source announces the opposite (\<^verbatim>\<open>keep visible ones for continuity\<close>,
  \<^verbatim>\<open>Keep objects that are on-screen\<close>), and the sibling tests isVisible and
  getWrappedPosition do wrap.
\<close>

theorem season_change_drops_object_across_seam:
  "objects seamState = [bushAcrossSeam, bushOnScreen] \<and>
   emoji (otype bushAcrossSeam) \<notin> PERMANENT_EMOJIS \<and>
   isVisible (camera seamState) (ox bushAcrossSeam) (oy bushAcrossSeam) (osize bushAcrossSeam) \<and>
   getWrappedPosition (camera seamState) (ox bushAcrossSeam) (oy bushAcrossSeam) = (- 20, 5060) \<and>
   bLeft (getVisibleBounds (camera seamState)) = - 50 \<and>
   bRight (getVisibleBounds (camera seamState)) = 118 \<and>
   bTop (getVisibleBounds (camera seamState)) = 5000 \<and>
   bBottom (getVisibleBounds (camera seamState)) = 5131 \<and>
   objects (advanceSeason barrenWorld seamState) = [bushOnScreen]"
proof -
  have cam: "camera seamState = (newCamera SCREEN_WIDTH SCREEN_HEIGHT WORLD_WIDTH WORLD_HEIGHT)
                           \<lparr>camX := - 50, camY := 5000, zoom := 2, targetZoom := 2\<rparr>"
    and objs: "objects seamState = [bushAcrossSeam, bushOnScreen]"
    and idx: "currentSeasonIndex seamState = 0"
    by (simp_all add: seamState_def tickState_def)
  have b: "getVisibleBounds (camera seamState) = \<lparr>bLeft = - 50, bRight = 118, bTop = 5000, bBottom = 5131\<rparr>"
    unfolding cam by (simp add: getVisibleBounds_def newCamera_def SCREEN_WIDTH_def SCREEN_HEIGHT_def Let_def)
  have perm: "emoji (otype bushAcrossSeam) \<notin> PERMANENT_EMOJIS"
    "emoji (otype bushOnScreen) \<notin> PERMANENT_EMOJIS"
    by (simp_all add: bushAcrossSeam_def bushOnScreen_def newGameObject_def bushEntry_def PERMANENT_EMOJIS_def)
  have vis: "isVisible (camera seamState) (ox bushAcrossSeam) (oy bushAcrossSeam) (osize bushAcrossSeam)"
    unfolding cam
    by (simp add: isVisible_def wrapDelta_def newCamera_def bushAcrossSeam_def newGameObject_def
          SCREEN_WIDTH_def SCREEN_HEIGHT_def WORLD_WIDTH_def WORLD_HEIGHT_def Let_def)
  have pos: "getWrappedPosition (camera seamState) (ox bushAcrossSeam) (oy bushAcrossSeam) = (- 20, 5060)"
    unfolding cam
    by (simp add: getWrappedPosition_def wrapDelta_def newCamera_def bushAcrossSeam_def newGameObject_def
          SCREEN_WIDTH_def SCREEN_HEIGHT_def WORLD_WIDTH_def WORLD_HEIGHT_def Let_def)
  have kept: "filter (keptOnSeasonChange (getVisibleBounds (camera seamState)) 200) (objects seamState)
                = [bushOnScreen]"
    unfolding b objs using perm
    by (simp add: keptOnSeasonChange_def withinBounds_def Let_def)
       (simp add: bushAcrossSeam_def bushOnScreen_def newGameObject_def)
  have "objects (advanceSeason barrenWorld seamState) = [bushOnScreen]"
    using kept by (simp add: advanceSeason_def Let_def idx TOTAL_SEASONS_def respawn_barren)
  with objs perm(1) vis pos b show ?thesis by simp
qed

subsection \<open>The population bound\<close>

lemma length_jsSort: "length (jsSort cmp xs) = length xs"
  using mset_jsSort[of cmp xs] by (metis size_mset)

lemma length_evictOverCap: "length (evictOverCap x y kr ps objs) \<le> MAX_OBJECTS"
  by (simp add: evictOverCap_def Let_def length_jsSort)

lemma length_evictOverCap_le: "length (evictOverCap x y kr ps objs) \<le> length objs"
  by (simp add: evictOverCap_def Let_def length_jsSort)

lemma edgeSpawnStep_length:
  "length (snd (edgeSpawnStep world season ps x y r (rng, objs))) \<le> Suc (length objs)"
  unfolding edgeSpawnStep_def Let_def
  by (simp split: prod.splits option.splits)

lemma edgeSpawnLoop_length:
  "length (snd (edgeSpawnLoop world season ps x y r n (rng, objs))) \<le> length objs + n"
proof (induction n arbitrary: rng objs)
  case 0
  show ?case by simp
next
  case (Suc n)
  obtain rng1 objs1 where s1: "edgeSpawnStep world season ps x y r (rng, objs) = (rng1, objs1)"
    by (cases "edgeSpawnStep world season ps x y r (rng, objs)")
  have "length objs1 \<le> Suc (length objs)"
    using edgeSpawnStep_length[of world season ps x y r rng objs] s1 by simp
  moreover have "length (snd (edgeSpawnLoop world season ps x y r n (rng1, objs1))) \<le> length objs1 + n"
    by (rule Suc.IH)
  ultimately show ?case by (simp add: s1)
qed

lemma updateDistanceBasedSpawning_cases:
  assumes pl: "player st = Some p"
  shows "\<exists>st'. updateDistanceBasedSpawning world fc st = Inr st' \<and>
           length (objects st') \<le> max (length (objects st)) MAX_OBJECTS \<and>
           (distanceCheckDue st \<longrightarrow> length (objects st') \<le> MAX_OBJECTS) \<and>
           player st' = player st \<and> camera st' = camera st \<and> gameState st' = gameState st \<and>
           seasonTimer st' = seasonTimer st \<and> currentSeasonIndex st' = currentSeasonIndex st \<and>
           collectedCount st' = collectedCount st"
proof (cases "spawnCheckCounter st + 1 < SPAWN_CHECK_INTERVAL")
  case True
  then show ?thesis
    by (simp add: updateDistanceBasedSpawning_def Let_def distanceCheckDue_def)
next
  case notearly: False
  define zs where "zs = 1 / zoom (camera st)"
  define md where "md = getWrappedDistance (px p) (py p) (lastPlayerX st) (lastPlayerY st)"
  show ?thesis
  proof (cases "md < 50 * zs")
    case True
    then show ?thesis using notearly pl
      by (simp add: updateDistanceBasedSpawning_def Let_def distanceCheckDue_def md_def zs_def)
  next
    case moved: False
    define st2 where "st2 = st\<lparr>spawnCheckCounter := 0, lastPlayerX := px p, lastPlayerY := py p\<rparr>"
    define keep where "keep = filter (\<lambda>obj. getWrappedDistance (ox obj) (oy obj) (px p) (py p)
                                        < BASE_DESPAWN_RADIUS * zs) (objects st)"
    define o1 where "o1 = evictOverCap (px p) (py p) (BASE_KEEP_RADIUS * zs) (psize p) keep"
    define nearby where "nearby = int (length (filter (\<lambda>obj. getWrappedDistance (ox obj) (oy obj)
                                                (px p) (py p) < BASE_SPAWN_RADIUS * zs * 0.5) o1))"
    define sc where "sc = min (int (length (objects st)) - int (length keep)
        + max 0 \<lfloor>pi * (BASE_SPAWN_RADIUS * zs * 0.5) * (BASE_SPAWN_RADIUS * zs * 0.5) / (150 * 150)
                   - of_int nearby\<rfloor>)
        (int MAX_OBJECTS - int (length o1))"
    have o1le: "length o1 \<le> MAX_OBJECTS" unfolding o1_def by (rule length_evictOverCap)
    have "length keep \<le> length (objects st)" unfolding keep_def by simp
    show ?thesis
    proof (cases "sc > 0")
      case True
      define res where "res = st2\<lparr>objects := snd (edgeSpawnLoop world (getCurrentSeason st2) (psize p)
                 (px p) (py p) (BASE_SPAWN_RADIUS * zs) (nat sc) (newSeededRandom (WORLD_SEED + fc), o1))\<rparr>"
      have eq: "updateDistanceBasedSpawning world fc st = Inr res"
        using notearly pl moved True
        unfolding updateDistanceBasedSpawning_def Let_def res_def sc_def nearby_def o1_def keep_def
          st2_def md_def zs_def
        by simp
      have "sc \<le> int MAX_OBJECTS - int (length o1)" unfolding sc_def by simp
      then have "length o1 + nat sc \<le> MAX_OBJECTS" using True by linarith
      moreover have "length (objects res) \<le> length o1 + nat sc"
        using edgeSpawnLoop_length[of world _ "psize p" "px p" "py p" _ "nat sc" _ o1]
        by (simp add: res_def)
      ultimately have len: "length (objects res) \<le> MAX_OBJECTS" by linarith
      have rest: "player res = player st \<and> camera res = camera st \<and> gameState res = gameState st \<and>
           seasonTimer res = seasonTimer st \<and> currentSeasonIndex res = currentSeasonIndex st \<and>
           collectedCount res = collectedCount st"
        by (simp add: res_def st2_def)
      show ?thesis using eq len rest by simp
    next
      case False
      define res where "res = st2\<lparr>objects := o1\<rparr>"
      have eq: "updateDistanceBasedSpawning world fc st = Inr res"
        using notearly pl moved False
        unfolding updateDistanceBasedSpawning_def Let_def res_def sc_def nearby_def o1_def keep_def
          st2_def md_def zs_def
        by auto
      have len: "length (objects res) \<le> MAX_OBJECTS" using o1le by (simp add: res_def)
      have rest: "player res = player st \<and> camera res = camera st \<and> gameState res = gameState st \<and>
           seasonTimer res = seasonTimer st \<and> currentSeasonIndex res = currentSeasonIndex st \<and>
           collectedCount res = collectedCount st"
        by (simp add: res_def st2_def)
      show ?thesis using eq len rest by simp
    qed
  qed
qed

lemma forceLoop_length:
  "forceLoop p objs = Inr objs' \<Longrightarrow> length objs' = length objs"
proof (induction objs arbitrary: objs')
  case Nil
  then show ?case by simp
next
  case (Cons obj rest)
  then show ?case
    by (auto simp: bindE_def split: sum.splits if_splits)
qed

lemma forceLoop_total:
  assumes "0 < psize p"
  shows "\<exists>objs'. forceLoop p objs = Inr objs'"
proof (induction objs)
  case Nil
  show ?case by simp
next
  case (Cons obj rest)
  then obtain rest' where r: "forceLoop p rest = Inr rest'" by blast
  have "\<exists>obj'. applyGravity (px p) (py p) 15 (psize p) WORLD_WIDTH WORLD_HEIGHT obj = Inr obj'"
    using assms
    by (auto simp: applyGravity_def gravityDist_def gravityRadius_def Let_def bindE_def
        checkedDiv_def checkedPow_def checkedSqrt_def maxVel_def)
  then obtain obj' where "applyGravity (px p) (py p) 15 (psize p) WORLD_WIDTH WORLD_HEIGHT obj = Inr obj'"
    by blast
  with r show ?case by (simp add: bindE_def)
qed

lemma collideStep_length:
  "length (snd (snd (snd (collideStep obj (p, gs, cnt, kept))))) \<le> Suc (length kept)"
  by (simp add: collideStep_def Let_def)

lemma collideLoop_length:
  "length (snd (snd (snd (foldr collideStep objs (p, gs, cnt, []))))) \<le> length objs"
proof (induction objs)
  case Nil
  show ?case by simp
next
  case (Cons obj rest)
  obtain p1 gs1 cnt1 kept1 where f: "foldr collideStep rest (p, gs, cnt, []) = (p1, gs1, cnt1, kept1)"
    by (metis prod_cases4)
  with Cons have "length kept1 \<le> length rest" by simp
  moreover have "length (snd (snd (snd (collideStep obj (p1, gs1, cnt1, kept1))))) \<le> Suc (length kept1)"
    by (rule collideStep_length)
  ultimately show ?case using f by simp
qed

lemma respawn_length:
  "length (objects (respawnOffScreenObjects world st)) \<le> max (length (objects st)) 8000"
proof -
  from respawn_objects[of world st] obtain fresh where
    f: "objects (respawnOffScreenObjects world st)
       = filter (keptOnSeasonChange (getVisibleBounds (camera st)) 200) (objects st) @ fresh"
     "length fresh \<le> 8000 - length (filter (keptOnSeasonChange (getVisibleBounds (camera st)) 200) (objects st))"
    by blast
  have "length (filter (keptOnSeasonChange (getVisibleBounds (camera st)) 200) (objects st)) \<le> length (objects st)"
    by simp
  then show ?thesis unfolding f(1) length_append using f(2) by linarith
qed

lemma advanceSeason_length:
  "length (objects (advanceSeason world st)) \<le> max (length (objects st)) 8000"
  using respawn_length[of world "st\<lparr>currentSeasonIndex := currentSeasonIndex st + 1, seasonTimer := 0\<rparr>"]
  by (simp add: advanceSeason_def Let_def)

lemma psize_Player_update: "psize (Player_update input W H world p) = psize p"
  by (cases world) (simp_all add: Player_update_def Let_def)

lemma updateGame_length:
  assumes pl: "player st = Some p" and sz: "0 < psize p"
  shows "\<exists>st'. updateGame world fc input st = Inr st' \<and>
           (seasonTimer st + 1 < SEASON_DURATION \<longrightarrow>
              length (objects st') \<le> max (length (objects st)) MAX_OBJECTS) \<and>
           length (objects st') \<le> max (length (objects st)) 8000"
proof -
  define p1 where "p1 = Player_update input WORLD_WIDTH WORLD_HEIGHT (Some world) p"
  define st1 where "st1 = st\<lparr>player := Some p1,
      camera := follow p1 (setTargetZoom (calculateZoom p1) (camera st))\<rparr>"
  have p1sz: "0 < psize p1" using sz by (simp add: p1_def psize_Player_update)
  have pl1: "player st1 = Some p1" by (simp add: st1_def)
  from updateDistanceBasedSpawning_cases[OF pl1, of world fc]
  obtain st2 where st2: "updateDistanceBasedSpawning world fc st1 = Inr st2"
    "length (objects st2) \<le> max (length (objects st1)) MAX_OBJECTS"
    "seasonTimer st2 = seasonTimer st1"
    by blast
  from forceLoop_total[OF p1sz, of "objects st2"]
  obtain objs3 where o3: "forceLoop p1 (objects st2) = Inr objs3" by blast
  have l3: "length objs3 = length (objects st2)" using forceLoop_length[OF o3] .
  obtain p4 gs4 cnt4 objs4 where
    c: "foldr collideStep objs3 (p1, gameState st2, collectedCount st2, []) = (p4, gs4, cnt4, objs4)"
    by (metis prod_cases4)
  have l4: "length objs4 \<le> length objs3"
    using collideLoop_length[of objs3 p1 "gameState st2" "collectedCount st2"] c by simp
  define st4 where "st4 = st2\<lparr>player := Some p4, gameState := gs4, collectedCount := cnt4,
                             objects := objs4, seasonTimer := seasonTimer st2 + 1\<rparr>"
  have eq: "updateGame world fc input st =
      Inr (if seasonTimer st4 \<ge> SEASON_DURATION then advanceSeason world st4 else st4)"
    unfolding updateGame_def st4_def
    by (simp add: pl Let_def p1_def[symmetric] st1_def[symmetric] st2 bindE_def o3 c
          del: foldr.simps split del: if_split cong: if_cong)
  have len4: "length (objects st4) \<le> max (length (objects st)) MAX_OBJECTS"
    using l4 l3 st2(2) by (simp add: st4_def st1_def)
  have tm: "seasonTimer st4 = seasonTimer st + 1" using st2(3) by (simp add: st4_def st1_def)
  have m: "max (length (objects st)) MAX_OBJECTS \<le> max (length (objects st)) 8000"
    by (simp add: MAX_OBJECTS_def)
  show ?thesis
  proof (cases "seasonTimer st4 \<ge> SEASON_DURATION")
    case True
    have "length (objects (advanceSeason world st4)) \<le> max (length (objects st4)) 8000"
      by (rule advanceSeason_length)
    then have "length (objects (advanceSeason world st4)) \<le> max (length (objects st)) 8000"
      using len4 m by linarith
    with True eq tm show ?thesis by simp
  next
    case False
    with eq tm len4 m show ?thesis by (simp del: max.bounded_iff)
  qed
qed

lemma p1_eval:
  "px (Player_update noInput WORLD_WIDTH WORLD_HEIGHT (Some meadowWorld) (newPlayer 168 131 12)) = 168 \<and>
   py (Player_update noInput WORLD_WIDTH WORLD_HEIGHT (Some meadowWorld) (newPlayer 168 131 12)) = 131"
  by (simp add: Player_update_def Let_def noInput_def newPlayer_def meadowWorld_def demoBiome_def
        getTerrainSpeedMultiplier_def TERRAIN_SPEED_def BASE_MAX_SPEED_def WORLD_WIDTH_def WORLD_HEIGHT_def)

lemma cam_eval:
  assumes "px p = 168" "py p = 131" "psize p = 12"
  shows "bRight (getVisibleBounds (follow p (setTargetZoom (calculateZoom p)
            (newCamera SCREEN_WIDTH SCREEN_HEIGHT WORLD_WIDTH WORLD_HEIGHT)))) + 200 \<le> 4898"
  using assms
  by (simp add: getVisibleBounds_def follow_def setTargetZoom_def calculateZoom_def newCamera_def
        wrapDelta_def Let_def SCREEN_WIDTH_def SCREEN_HEIGHT_def WORLD_WIDTH_def WORLD_HEIGHT_def
        PLAYER_SCREEN_RATIO_def MIN_ZOOM_def MAX_ZOOM_def)

lemma landPointsLoop_fertile:
  assumes "\<And>x y. \<not> isOcean (world x y)"
  shows "length (landPointsLoop world n rng) = n \<and>
         (\<forall>pt\<in>set (landPointsLoop world n rng). 4898 \<le> ptX pt \<and> ptBiome pt = world (ptX pt) (ptY pt))"
proof (induction n arbitrary: rng)
  case 0
  show ?case by simp
next
  case (Suc n)
  obtain u1 r1 where n1: "SeededRandom_next rng = (u1, r1)" by (cases "SeededRandom_next rng")
  obtain u2 r2 where n2: "SeededRandom_next r1 = (u2, r2)" by (cases "SeededRandom_next r1")
  have u2: "0 \<le> u2" "u2 < 1" using next_range[of r1] n2 by simp_all
  define x where "x = WORLD_CENTER_X + cos (u1 * pi * 2) * ISLAND_RADIUS_X * (sqrt u2 * 0.85)"
  define y where "y = WORLD_CENTER_Y + sin (u1 * pi * 2) * ISLAND_RADIUS_Y * (sqrt u2 * 0.85)"
  have step: "landPointsLoop world (Suc n) rng
        = \<lparr>ptX = x, ptY = y, ptBiome = world x y\<rparr> # landPointsLoop world n r2"
    using assms by (simp add: n1 n2 Let_def x_def y_def)
  have s1: "sqrt u2 \<le> 1" using u2 by simp
  have s0: "0 \<le> sqrt u2" using u2 by simp
  define cs where "cs = cos (u1 * pi * 2) * sqrt u2"
  have "\<bar>cs\<bar> \<le> 1 * 1"
    unfolding cs_def abs_mult using s0 s1 by (intro mult_mono) auto
  then have cs: "- 1 \<le> cs" by (simp add: abs_le_iff)
  have "x = WORLD_CENTER_X + ISLAND_RADIUS_X * 0.85 * cs"
    by (simp add: x_def cs_def)
  also have "\<dots> = 12096 + 7197.12 * cs"
    by (simp add: WORLD_CENTER_X_def ISLAND_RADIUS_X_def WORLD_WIDTH_def)
  finally have "x = 12096 + 7197.12 * cs" .
  then have "4898 \<le> x" using cs by simp
  with Suc.IH[of r2] show ?case unfolding step by simp
qed

lemma oceanPointsLoop_fertile:
  assumes "\<And>x y. \<not> isOcean (world x y)"
  shows "oceanPointsLoop world n rng = []"
  using assms by (induction n arbitrary: rng) (simp_all add: Let_def split: prod.splits)

lemma weightedRandomSelect_Some:
  assumes "items \<noteq> []"
  shows "\<exists>e. fst (weightedRandomSelect (Some items) rng ps) = Some e"
proof -
  obtain first rest where items: "items = first # rest" using assms by (cases items) auto
  show ?thesis unfolding items
    by (simp add: weightedRandomSelect_def Let_def split_beta split: option.splits)
qed

lemma spawnAtPoint_fertile:
  assumes "\<not> withinBounds bounds margin (ptX pt) (ptY pt)"
    and "1 \<le> objectDensity (ptBiome pt)"
    and "filter (\<lambda>obj. shouldSpawnForPlayerSize obj ps) (seasonObjects (ptBiome pt) season) \<noteq> []"
  shows "length (snd (spawnAtPoint bounds margin season ps pt (rng, objs))) = Suc (length objs)"
proof -
  obtain u r1 where n1: "SeededRandom_next rng = (u, r1)" by (cases "SeededRandom_next rng")
  have u: "\<not> u > objectDensity (ptBiome pt)" using next_range[of rng] n1 assms(2) by simp
  have ne: "seasonObjects (ptBiome pt) season \<noteq> []" using assms(3) by auto
  obtain sel r2 where w: "weightedRandomSelect
       (Some (filter (\<lambda>obj. shouldSpawnForPlayerSize obj ps) (seasonObjects (ptBiome pt) season))) r1 (Some ps)
       = (sel, r2)" by (cases "weightedRandomSelect
       (Some (filter (\<lambda>obj. shouldSpawnForPlayerSize obj ps) (seasonObjects (ptBiome pt) season))) r1 (Some ps)")
  from weightedRandomSelect_Some[OF assms(3), of r1 "Some ps"] w obtain e where e: "sel = Some e" by auto
  show ?thesis
    using assms(1,3) ne u
    by (simp add: spawnAtPoint_def Let_def n1 w e split: prod.splits)
qed

lemma spawnAtPoints_fertile:
  assumes "\<forall>pt\<in>set pts. \<not> withinBounds bounds margin (ptX pt) (ptY pt) \<and> 1 \<le> objectDensity (ptBiome pt) \<and>
     filter (\<lambda>obj. shouldSpawnForPlayerSize obj ps) (seasonObjects (ptBiome pt) season) \<noteq> []"
  shows "length (snd (spawnAtPoints bounds margin season ps pts (rng, objs))) = length objs + length pts"
  using assms
proof (induction pts arbitrary: rng objs)
  case Nil
  show ?case by (simp add: spawnAtPoints_def)
next
  case (Cons pt pts)
  obtain rng1 objs1 where s1: "spawnAtPoint bounds margin season ps pt (rng, objs) = (rng1, objs1)"
    by (cases "spawnAtPoint bounds margin season ps pt (rng, objs)")
  have "length objs1 = Suc (length objs)"
    using spawnAtPoint_fertile[of bounds margin pt ps season rng objs] Cons.prems s1 by simp
  moreover have "length (snd (spawnAtPoints bounds margin season ps pts (rng1, objs1))) = length objs1 + length pts"
    using Cons.prems by (intro Cons.IH) simp
  moreover have "spawnAtPoints bounds margin season ps (pt # pts) (rng, objs)
        = spawnAtPoints bounds margin season ps pts (rng1, objs1)"
    by (simp add: spawnAtPoints_def s1)
  ultimately show ?case by simp
qed

lemma respawn_fertile:
  assumes ocean: "\<And>x y. \<not> isOcean (world x y)"
    and dens: "\<And>x y. 1 \<le> objectDensity (world x y)"
    and valid: "\<And>x y ps season. filter (\<lambda>obj. shouldSpawnForPlayerSize obj ps) (seasonObjects (world x y) season) \<noteq> []"
    and cam: "bRight (getVisibleBounds (camera st)) + 200 \<le> 4898"
  shows "length (objects (respawnOffScreenObjects world st))
     = length (filter (keptOnSeasonChange (getVisibleBounds (camera st)) 200) (objects st))
       + nat \<lfloor>real (8000 - length (filter (keptOnSeasonChange (getVisibleBounds (camera st)) 200) (objects st))) * 0.8\<rfloor>"
proof -
  define bounds where "bounds = getVisibleBounds (camera st)"
  define kept where "kept = filter (keptOnSeasonChange bounds 200) (objects st)"
  define season where "season = getCurrentSeason st"
  define ps where "ps = (case player st of Some p \<Rightarrow> psize p | None \<Rightarrow> STARTING_SIZE)"
  define n where "n = nat \<lfloor>real (8000 - length kept) * 0.8\<rfloor>"
  define land where "land = generateLandSpawnPoints world n
                            (WORLD_SEED + int (currentSeasonIndex st) * 100 + 50000)"
  define a1 where "a1 = spawnAtPoints bounds 200 season ps land
                           (newSeededRandom (WORLD_SEED + int (currentSeasonIndex st) * 1000), kept)"
  have oc: "generateOceanSpawnPoints world m sd = []" for m sd
    unfolding generateOceanSpawnPoints_def by (rule oceanPointsLoop_fertile[OF ocean])
  have eq: "objects (respawnOffScreenObjects world st) = snd a1"
    unfolding respawnOffScreenObjects_def Let_def a1_def land_def n_def ps_def season_def
      kept_def bounds_def by (simp add: oc spawnAtPoints_def)
  have lp: "length land = n \<and> (\<forall>pt\<in>set land. 4898 \<le> ptX pt \<and> ptBiome pt = world (ptX pt) (ptY pt))"
    unfolding land_def generateLandSpawnPoints_def by (rule landPointsLoop_fertile[OF ocean])
  have "\<forall>pt\<in>set land. \<not> withinBounds bounds 200 (ptX pt) (ptY pt) \<and> 1 \<le> objectDensity (ptBiome pt) \<and>
     filter (\<lambda>obj. shouldSpawnForPlayerSize obj ps) (seasonObjects (ptBiome pt) season) \<noteq> []"
  proof
    fix pt assume "pt \<in> set land"
    with lp have p: "4898 \<le> ptX pt" "ptBiome pt = world (ptX pt) (ptY pt)" by auto
    have "\<not> withinBounds bounds 200 (ptX pt) (ptY pt)"
      using p(1) cam by (simp add: withinBounds_def bounds_def)
    then show "\<not> withinBounds bounds 200 (ptX pt) (ptY pt) \<and> 1 \<le> objectDensity (ptBiome pt) \<and>
     filter (\<lambda>obj. shouldSpawnForPlayerSize obj ps) (seasonObjects (ptBiome pt) season) \<noteq> []"
      using dens valid p(2) by simp
  qed
  then have "length (snd a1) = length kept + length land"
    unfolding a1_def by (rule spawnAtPoints_fertile)
  then show ?thesis
    unfolding eq using lp by (simp add: kept_def bounds_def n_def)
qed

lemma meadowWorld_fertile:
  "\<not> isOcean (meadowWorld x y)" "1 \<le> objectDensity (meadowWorld x y)"
  "filter (\<lambda>obj. shouldSpawnForPlayerSize obj ps) (seasonObjects (meadowWorld x y) season) \<noteq> []"
  by (simp_all add: meadowWorld_def demoBiome_def shouldSpawnForPlayerSize_def rockEntry_def)

lemma tick_season_eval:
  "map_sum id (length \<circ> objects) (updateGame meadowWorld 0 noInput tickState) = Inr 6400"
proof -
  define p1 where "p1 = Player_update noInput WORLD_WIDTH WORLD_HEIGHT (Some meadowWorld) (newPlayer 168 131 12)"
  define cam1 where "cam1 = follow p1 (setTargetZoom (calculateZoom p1)
            (newCamera SCREEN_WIDTH SCREEN_HEIGHT WORLD_WIDTH WORLD_HEIGHT))"
  define st5 where "st5 = tickState\<lparr>player := Some p1, camera := cam1, spawnCheckCounter := 1,
       currentSeasonIndex := 1, seasonTimer := 0\<rparr>"
  have p1: "px p1 = 168" "py p1 = 131" "psize p1 = 12"
    using p1_eval by (simp_all add: p1_def psize_Player_update newPlayer_def)
  have eq: "updateGame meadowWorld 0 noInput tickState = Inr (respawnOffScreenObjects meadowWorld st5)"
    unfolding updateGame_def st5_def cam1_def p1_def
    by (simp add: tickState_def updateDistanceBasedSpawning_def SPAWN_CHECK_INTERVAL_def
          SEASON_DURATION_def TOTAL_SEASONS_def bindE_def Let_def advanceSeason_def)
  have cam: "bRight (getVisibleBounds (camera st5)) + 200 \<le> 4898"
    using cam_eval[OF p1] by (simp add: st5_def cam1_def)
  have "length (objects (respawnOffScreenObjects meadowWorld st5)) = 6400"
    using respawn_fertile[of meadowWorld st5, OF meadowWorld_fertile cam]
    by (simp add: st5_def tickState_def)
  then show ?thesis by (simp add: eq)
qed

text \<open>
  C1, as stated, fails in the tick that performs a season transition. In a world whose
  land tiles all admit a spawn (\<open>meadowWorld\<close>), take the state \<open>tickState\<close>: no live
  objects, the season timer one frame before the end of the season, the camera away from
  the island. The tick succeeds and leaves 6400 live objects, more than MAX_OBJECTS.
\<close>

theorem tick_season_transition_exceeds_cap:
  "length (objects tickState) \<le> MAX_OBJECTS \<and>
   map_sum id (length \<circ> objects) (updateGame meadowWorld 0 noInput tickState) = Inr 6400 \<and>
   MAX_OBJECTS < 6400"
  using tick_season_eval by (simp add: tickState_def MAX_OBJECTS_def)

text \<open>
  C1, amended. For every state with a player of positive size and every world:
  a run of updateDistanceBasedSpawning that passes its two gates (the check interval is
  reached and the player has moved past the threshold) leaves at most MAX_OBJECTS live
  objects; a tick without a season transition leaves at most the larger of the previous
  count and MAX_OBJECTS, so the cap, once met, is kept; a tick with a season transition is
  bounded by the larger of the previous count and 8000, the target of the transition, and
  not by MAX_OBJECTS.
\<close>

theorem tick_population_bound:
  assumes "player st = Some p" and "0 < psize p"
  shows "(\<exists>st2. updateDistanceBasedSpawning world fc st = Inr st2 \<and>
            (distanceCheckDue st \<longrightarrow> length (objects st2) \<le> MAX_OBJECTS)) \<and>
         (\<exists>st'. updateGame world fc input st = Inr st' \<and>
            (seasonTimer st + 1 < SEASON_DURATION \<longrightarrow>
               length (objects st') \<le> max (length (objects st)) MAX_OBJECTS) \<and>
            length (objects st') \<le> max (length (objects st)) 8000)"
  using updateDistanceBasedSpawning_cases[OF assms(1), of world fc]
    updateGame_length[OF assms, of world fc input]
  by blast

theorem tick_population_bound_witness:
  "player calmState = Some (newPlayer 168 131 12) \<and> 0 < psize (newPlayer 168 131 12) \<and>
   distanceCheckDue calmState \<and> seasonTimer calmState + 1 < SEASON_DURATION \<and>
   (\<exists>st2. updateDistanceBasedSpawning meadowWorld 0 calmState = Inr st2 \<and>
      length (objects st2) \<le> MAX_OBJECTS) \<and>
   (\<exists>st'. updateGame meadowWorld 0 noInput calmState = Inr st' \<and>
      length (objects st') \<le> max (length (objects calmState)) MAX_OBJECTS \<and>
      length (objects st') \<le> max (length (objects calmState)) 8000)"
proof -
  have h1: "player calmState = Some (newPlayer 168 131 12)"
    by (simp add: calmState_def tickState_def)
  have h2: "0 < psize (newPlayer 168 131 12)" by (simp add: newPlayer_def)
  have h3: "distanceCheckDue calmState"
    by (simp add: distanceCheckDue_def calmState_def tickState_def SPAWN_CHECK_INTERVAL_def
          newPlayer_def newCamera_def getWrappedDistance_def WORLD_WIDTH_def WORLD_HEIGHT_def)
  have h4: "seasonTimer calmState + 1 < SEASON_DURATION"
    by (simp add: calmState_def tickState_def SEASON_DURATION_def)
  from tick_population_bound[OF h1 h2, of meadowWorld 0 noInput] h1 h2 h3 h4
  show ?thesis by blast
qed

subsection \<open>Ring seeding\<close>

text \<open>
  An attempt of spawnObjectsAroundPlayer either leaves the population and the counter as
  they are, or adds one seed object at a distance of at most \<open>maxRadius\<close> from the ring
  center followed by the pattern objects of that seed, cut off at the target count.
\<close>

lemma ringStep_cases:
  assumes "0 \<le> maxRadius"
  shows "(\<exists>r'. ringStep world season ps cx cy maxRadius target ringIndex (rng, objs, sp) = (r', objs, sp)) \<or>
   (\<exists>r' a d sz objDef rng5.
      0 \<le> d \<and> d \<le> maxRadius \<and>
      ringStep world season ps cx cy maxRadius target ringIndex (rng, objs, sp) =
        (r', objs @ [newGameObject (wrapCoord (cx + cos a * d) WORLD_WIDTH)
                                    (wrapCoord (cy + sin a * d) WORLD_HEIGHT) sz objDef]
               @ take (target - (sp + 1))
                   (fst (spawnPatternObjects world (wrapCoord (cx + cos a * d) WORLD_WIDTH)
                           (wrapCoord (cy + sin a * d) WORLD_HEIGHT) objDef rng5)),
         sp + 1 + length (take (target - (sp + 1))
                   (fst (spawnPatternObjects world (wrapCoord (cx + cos a * d) WORLD_WIDTH)
                           (wrapCoord (cy + sin a * d) WORLD_HEIGHT) objDef rng5)))))"
proof -
  obtain u1 r1 where n1: "SeededRandom_next rng = (u1, r1)" by (cases "SeededRandom_next rng")
  obtain u2 r2 where n2: "SeededRandom_next r1 = (u2, r2)" by (cases "SeededRandom_next r1")
  have u2: "0 \<le> u2" "u2 < 1" using next_range[of r1] n2 by simp_all
  define d where "d = sqrt u2 * maxRadius"
  have d0: "0 \<le> d" unfolding d_def using u2 assms by simp
  have "sqrt u2 \<le> 1" using u2 by simp
  then have "sqrt u2 * maxRadius \<le> 1 * maxRadius" using assms by (intro mult_right_mono) auto
  then have d1: "d \<le> maxRadius" by (simp add: d_def)
  define x where "x = wrapCoord (cx + cos (u1 * pi * 2) * d) WORLD_WIDTH"
  define y where "y = wrapCoord (cy + sin (u1 * pi * 2) * d) WORLD_HEIGHT"
  define seasonal where "seasonal = seasonObjects (world x y) season"
  define g where "g = densityGate ringIndex (world x y) r2"
  define valid where "valid = filter (\<lambda>obj. shouldSpawnForPlayerSize obj ps) seasonal"
  define w where "w = weightedRandomSelect (Some valid) (snd g) (Some ps)"
  define n5 where "n5 = SeededRandom_next (snd w)"
  have unf: "ringStep world season ps cx cy maxRadius target ringIndex (rng, objs, sp) =
     (if seasonal = [] then (r2, objs, sp)
      else if fst g then (snd g, objs, sp)
      else if valid = [] then (snd g, objs, sp)
      else case fst w of None \<Rightarrow> (snd w, objs, sp)
           | Some objDef \<Rightarrow>
               (snd (spawnPatternObjects world x y objDef (snd n5)),
                objs @ [newGameObject x y (minSize objDef + fst n5 * (maxSize objDef - minSize objDef)) objDef]
                  @ take (target - (sp + 1)) (fst (spawnPatternObjects world x y objDef (snd n5))),
                sp + 1 + length (take (target - (sp + 1)) (fst (spawnPatternObjects world x y objDef (snd n5))))))"
    unfolding ringStep_def Let_def n1 n2 prod.case d_def[symmetric] x_def[symmetric] y_def[symmetric]
      seasonal_def[symmetric] g_def[symmetric] valid_def[symmetric]
    by (simp add: split_beta w_def n5_def split: option.splits del: take_append)
  show ?thesis
  proof (cases "seasonal = [] \<or> fst g \<or> valid = [] \<or> fst w = None")
    case True
    then show ?thesis unfolding unf by auto
  next
    case False
    then obtain objDef where sel: "fst w = Some objDef" by auto
    have eq: "ringStep world season ps cx cy maxRadius target ringIndex (rng, objs, sp) =
               (snd (spawnPatternObjects world x y objDef (snd n5)),
                objs @ [newGameObject x y (minSize objDef + fst n5 * (maxSize objDef - minSize objDef)) objDef]
                  @ take (target - (sp + 1)) (fst (spawnPatternObjects world x y objDef (snd n5))),
                sp + 1 + length (take (target - (sp + 1)) (fst (spawnPatternObjects world x y objDef (snd n5)))))"
      unfolding unf using False sel by simp
    show ?thesis
      apply (rule disjI2)
      apply (rule exI[of _ "snd (spawnPatternObjects world x y objDef (snd n5))"])
      apply (rule exI[of _ "u1 * pi * 2"])
      apply (rule exI[of _ d])
      apply (rule exI[of _ "minSize objDef + fst n5 * (maxSize objDef - minSize objDef)"])
      apply (rule exI[of _ objDef])
      apply (rule exI[of _ "snd n5"])
      using d0 d1 eq unfolding x_def y_def by simp
  qed
qed

text \<open>Within 1000 of the world center no coordinate wraps, and the seed is at its drawn distance.\<close>

text \<open>Within 1000 of the world center no coordinate wraps, and the seed is at its drawn distance.\<close>

lemma jsMod_small:
  assumes "0 \<le> v" "v < m"
  shows "jsMod v m = v"
proof -
  have "0 < m" using assms by linarith
  then have "\<lfloor>v / m\<rfloor> = 0" using assms by (simp add: floor_eq_iff)
  moreover have "0 \<le> v / m" using assms \<open>0 < m\<close> by simp
  ultimately show ?thesis by (simp add: jsMod_def jsTrunc_def)
qed

lemma jsMod_shifted:
  assumes "0 \<le> v" "v < m"
  shows "jsMod (v + m) m = v"
proof -
  have m: "0 < m" using assms by linarith
  have "(v + m) / m = v / m + 1" using m by (simp add: field_simps)
  moreover have "\<lfloor>v / m\<rfloor> = 0" using assms m by (simp add: floor_eq_iff)
  ultimately have "\<lfloor>(v + m) / m\<rfloor> = 1" by simp
  moreover have "0 \<le> (v + m) / m" using assms m by simp
  ultimately show ?thesis by (simp add: jsMod_def jsTrunc_def)
qed

lemma wrapCoord_id:
  assumes "0 \<le> v" "v < m"
  shows "wrapCoord v m = v"
  unfolding wrapCoord_def jsMod_small[OF assms] by (rule jsMod_shifted[OF assms])

lemma polar_norm:
  fixes a d :: real
  assumes "0 \<le> d"
  shows "sqrt ((cos a * d) * (cos a * d) + (sin a * d) * (sin a * d)) = d"
proof -
  have "(cos a * d) * (cos a * d) + (sin a * d) * (sin a * d)
        = (cos a * cos a + sin a * sin a) * (d * d)" by (simp only: ring_distribs ac_simps)
  also have "\<dots> = d * d" by (simp only: sin_cos_squared_add3 mult_1)
  finally show ?thesis using assms by simp
qed

lemma seed_dist:
  assumes "0 \<le> d" "d \<le> 1000"
  shows "getWrappedDistance (wrapCoord (WORLD_CENTER_X + cos a * d) WORLD_WIDTH)
           (wrapCoord (WORLD_CENTER_Y + sin a * d) WORLD_HEIGHT) WORLD_CENTER_X WORLD_CENTER_Y = d"
proof -
  have c: "\<bar>cos a * d\<bar> \<le> 1 * d" unfolding abs_mult using assms by (intro mult_mono) auto
  have s: "\<bar>sin a * d\<bar> \<le> 1 * d" unfolding abs_mult using assms by (intro mult_mono) auto
  have cx: "\<bar>cos a * d\<bar> \<le> 1000" and sy: "\<bar>sin a * d\<bar> \<le> 1000" using c s assms by linarith+
  have x: "wrapCoord (WORLD_CENTER_X + cos a * d) WORLD_WIDTH = WORLD_CENTER_X + cos a * d"
    using cx by (intro wrapCoord_id) (simp_all add: WORLD_CENTER_X_def WORLD_WIDTH_def abs_le_iff)
  have y: "wrapCoord (WORLD_CENTER_Y + sin a * d) WORLD_HEIGHT = WORLD_CENTER_Y + sin a * d"
    using sy by (intro wrapCoord_id) (simp_all add: WORLD_CENTER_Y_def WORLD_HEIGHT_def abs_le_iff)
  have hx: "\<not> \<bar>cos a * d\<bar> > WORLD_WIDTH / 2" using cx by (simp add: WORLD_WIDTH_def)
  have hy: "\<not> \<bar>sin a * d\<bar> > WORLD_HEIGHT / 2" using sy by (simp add: WORLD_HEIGHT_def)
  have "getWrappedDistance (WORLD_CENTER_X + cos a * d) (WORLD_CENTER_Y + sin a * d)
           WORLD_CENTER_X WORLD_CENTER_Y
        = sqrt (\<bar>cos a * d\<bar> * \<bar>cos a * d\<bar> + \<bar>sin a * d\<bar> * \<bar>sin a * d\<bar>)"
    using hx hy by (simp add: getWrappedDistance_def Let_def)
  also have "\<dots> = sqrt ((cos a * d) * (cos a * d) + (sin a * d) * (sin a * d))" by simp
  also have "\<dots> = d" by (rule polar_norm[OF assms(1)])
  finally show ?thesis unfolding x y .
qed

lemma offset_pos:
  assumes "\<bar>p\<bar> \<le> 2000" "\<bar>q\<bar> \<le> 2000"
  shows "wrapCoord (WORLD_CENTER_X + p) WORLD_WIDTH = WORLD_CENTER_X + p"
    and "wrapCoord (WORLD_CENTER_Y + q) WORLD_HEIGHT = WORLD_CENTER_Y + q"
  using assms
  by (intro wrapCoord_id; simp add: WORLD_CENTER_X_def WORLD_CENTER_Y_def WORLD_WIDTH_def
        WORLD_HEIGHT_def abs_le_iff)+

lemma offset_dist:
  assumes "\<bar>p\<bar> \<le> 2000" "\<bar>q\<bar> \<le> 2000"
  shows "getWrappedDistance (WORLD_CENTER_X + p) (WORLD_CENTER_Y + q) WORLD_CENTER_X WORLD_CENTER_Y
         = sqrt (p * p + q * q)"
proof -
  have hx: "\<not> \<bar>p\<bar> > WORLD_WIDTH / 2" using assms by (simp add: WORLD_WIDTH_def)
  have hy: "\<not> \<bar>q\<bar> > WORLD_HEIGHT / 2" using assms by (simp add: WORLD_HEIGHT_def)
  have "getWrappedDistance (WORLD_CENTER_X + p) (WORLD_CENTER_Y + q) WORLD_CENTER_X WORLD_CENTER_Y
        = sqrt (\<bar>p\<bar> * \<bar>p\<bar> + \<bar>q\<bar> * \<bar>q\<bar>)"
    using hx hy by (simp add: getWrappedDistance_def Let_def)
  then show ?thesis by simp
qed

lemma polar_bound:
  fixes a d :: real
  assumes "0 \<le> d"
  shows "\<bar>cos a * d\<bar> \<le> d" and "\<bar>sin a * d\<bar> \<le> d"
proof -
  have "\<bar>cos a * d\<bar> \<le> 1 * d" unfolding abs_mult using assms by (intro mult_mono) auto
  then show "\<bar>cos a * d\<bar> \<le> d" by simp
  have "\<bar>sin a * d\<bar> \<le> 1 * d" unfolding abs_mult using assms by (intro mult_mono) auto
  then show "\<bar>sin a * d\<bar> \<le> d" by simp
qed

text \<open>
  On the torus the distance from the world center is at most the length of any offset that
  leads from the center to the point, and it obeys the triangle inequality of the plane.
\<close>

lemma wrapCoord_lift:
  assumes "m \<noteq> 0"
  shows "\<exists>k::int. wrapCoord v m = v - of_int k * m"
proof -
  define k1 where "k1 = jsTrunc (v / m)"
  define k2 where "k2 = jsTrunc ((v - m * of_int k1 + m) / m)"
  have "wrapCoord v m = v - of_int (k1 + k2 - 1) * m"
    unfolding wrapCoord_def jsMod_def k1_def[symmetric] k2_def[symmetric]
    by (simp add: algebra_simps)
  then show ?thesis by blast
qed

lemma torus_component:
  fixes t m :: real
  assumes m: "0 < m"
  shows "\<bar>wrapCoord (m / 2 + t) m - m / 2\<bar> \<le> m / 2 \<and> \<bar>wrapCoord (m / 2 + t) m - m / 2\<bar> \<le> \<bar>t\<bar>"
proof -
  define p where "p = wrapCoord (m / 2 + t) m"
  have r: "0 \<le> p" "p < m" using wrapCoord_range[OF m, of "m / 2 + t"] by (simp_all add: p_def)
  then have half: "\<bar>p - m / 2\<bar> \<le> m / 2" by linarith
  from wrapCoord_lift[of m "m / 2 + t"] m obtain k :: int where k: "p = m / 2 + t - of_int k * m"
    unfolding p_def by auto
  have e: "p - m / 2 = t - of_int k * m" using k by simp
  have "\<bar>p - m / 2\<bar> \<le> \<bar>t\<bar>"
  proof (cases "k = 0")
    case True
    then show ?thesis using e by simp
  next
    case False
    then have "1 \<le> \<bar>k\<bar>" by simp
    then have "1 \<le> \<bar>real_of_int k\<bar>" by (metis of_int_1_le_iff of_int_abs)
    then have "1 * m \<le> \<bar>real_of_int k\<bar> * m" using m by (intro mult_right_mono) simp_all
    then have big: "m \<le> \<bar>of_int k * m\<bar>" using m by (simp add: abs_mult)
    have "\<bar>of_int k * m\<bar> \<le> \<bar>t\<bar> + \<bar>t - of_int k * m\<bar>" by linarith
    with big half e show ?thesis by linarith
  qed
  with half show ?thesis unfolding p_def by simp
qed

lemma torus_dist:
  "getWrappedDistance (wrapCoord (WORLD_CENTER_X + tx) WORLD_WIDTH)
     (wrapCoord (WORLD_CENTER_Y + ty) WORLD_HEIGHT) WORLD_CENTER_X WORLD_CENTER_Y
   \<le> sqrt (tx * tx + ty * ty)"
proof -
  define dx where "dx = \<bar>wrapCoord (WORLD_WIDTH / 2 + tx) WORLD_WIDTH - WORLD_WIDTH / 2\<bar>"
  define dy where "dy = \<bar>wrapCoord (WORLD_HEIGHT / 2 + ty) WORLD_HEIGHT - WORLD_HEIGHT / 2\<bar>"
  have w: "0 < WORLD_WIDTH" and h: "0 < WORLD_HEIGHT" by (simp_all add: WORLD_WIDTH_def WORLD_HEIGHT_def)
  have x: "dx \<le> WORLD_WIDTH / 2" "dx \<le> \<bar>tx\<bar>" using torus_component[OF w, of tx] by (simp_all add: dx_def)
  have y: "dy \<le> WORLD_HEIGHT / 2" "dy \<le> \<bar>ty\<bar>" using torus_component[OF h, of ty] by (simp_all add: dy_def)
  have d0: "0 \<le> dx" "0 \<le> dy" by (simp_all add: dx_def dy_def)
  have "getWrappedDistance (wrapCoord (WORLD_CENTER_X + tx) WORLD_WIDTH)
     (wrapCoord (WORLD_CENTER_Y + ty) WORLD_HEIGHT) WORLD_CENTER_X WORLD_CENTER_Y = sqrt (dx * dx + dy * dy)"
    unfolding getWrappedDistance_def Let_def WORLD_CENTER_X_def WORLD_CENTER_Y_def
      dx_def[symmetric] dy_def[symmetric]
    using x(1) y(1) by simp
  moreover have "dx * dx \<le> \<bar>tx\<bar> * \<bar>tx\<bar>" using x(2) d0(1) by (intro mult_mono) simp_all
  moreover have "dy * dy \<le> \<bar>ty\<bar> * \<bar>ty\<bar>" using y(2) d0(2) by (intro mult_mono) simp_all
  ultimately show ?thesis by (simp add: real_sqrt_le_iff)
qed

lemma norm_triangle:
  fixes a b c d :: real
  shows "sqrt ((a + c) * (a + c) + (b + d) * (b + d)) \<le> sqrt (a * a + b * b) + sqrt (c * c + d * d)"
  using real_sqrt_sum_squares_triangle_ineq[of a c b d] by (simp add: power2_eq_square)

lemma patternReach_nonneg: "0 \<le> patternReach e"
  by (simp add: patternReach_def Let_def max_def)

lemma placed_withinReach:
  assumes p: "placedAround (WORLD_CENTER_X + p) (WORLD_CENTER_Y + q) e (patternReach e) obj"
    and s: "sqrt (p * p + q * q) \<le> 1000"
  shows "withinReach obj"
proof -
  from p obtain tx ty where t: "otype obj = e"
     "ox obj = wrapCoord (WORLD_CENTER_X + p + tx) WORLD_WIDTH"
     "oy obj = wrapCoord (WORLD_CENTER_Y + q + ty) WORLD_HEIGHT"
     "sqrt (tx * tx + ty * ty) \<le> patternReach e"
    unfolding placedAround_def by blast
  have "getWrappedDistance (ox obj) (oy obj) WORLD_CENTER_X WORLD_CENTER_Y
        \<le> sqrt ((p + tx) * (p + tx) + (q + ty) * (q + ty))"
    unfolding t(2,3) using torus_dist[of "p + tx" "q + ty"] by (simp add: add.assoc)
  also have "\<dots> \<le> sqrt (p * p + q * q) + sqrt (tx * tx + ty * ty)" by (rule norm_triangle)
  also have "\<dots> \<le> 1000 + patternReach e" using s t(4) by simp
  finally show ?thesis unfolding withinReach_def t(1) .
qed

text \<open>
  Every object that spawnPatternObjects returns has the type of its seed and lies within
  the reach of that type of the seed.
\<close>

lemma polar_norm_le:
  fixes a d R :: real
  assumes "0 \<le> d" "d \<le> R"
  shows "sqrt ((cos a * d) * (cos a * d) + (sin a * d) * (sin a * d)) \<le> R"
  using polar_norm[OF assms(1), of a] assms(2) by simp

lemma clusterStep_placed:
  assumes R: "0 \<le> R" and inv: "list_all (placedAround sx sy e R) objs"
  shows "list_all (placedAround sx sy e R) (snd (clusterStep world sx sy e R (rng, objs)))"
proof -
  define th where "th = fst (SeededRandom_next rng) * pi * 2"
  define u2 where "u2 = fst (SeededRandom_next (snd (SeededRandom_next rng)))"
  have u2: "0 \<le> u2" "u2 < 1" using next_range[of "snd (SeededRandom_next rng)"] by (simp_all add: u2_def)
  have d: "0 \<le> u2 * R" using u2 R by simp
  have "u2 * R \<le> 1 * R" using u2 R by (intro mult_right_mono) simp_all
  then have dR: "u2 * R \<le> R" by simp
  have new: "placedAround sx sy e R
         (newGameObject (wrapCoord (sx + cos th * (u2 * R)) WORLD_WIDTH)
            (wrapCoord (sy + sin th * (u2 * R)) WORLD_HEIGHT) sz e)" for sz
  proof -
    have "\<exists>tx ty. wrapCoord (sx + cos th * (u2 * R)) WORLD_WIDTH = wrapCoord (sx + tx) WORLD_WIDTH \<and>
                  wrapCoord (sy + sin th * (u2 * R)) WORLD_HEIGHT = wrapCoord (sy + ty) WORLD_HEIGHT \<and>
                  sqrt (tx * tx + ty * ty) \<le> R"
      by (rule exI[of _ "cos th * (u2 * R)"], rule exI[of _ "sin th * (u2 * R)"])
         (simp only: polar_norm_le[OF d dR, of th] simp_thms)
    then show ?thesis unfolding placedAround_def by (simp add: newGameObject_def)
  qed
  show ?thesis
    unfolding clusterStep_def Let_def split_beta fst_conv snd_conv th_def[symmetric] u2_def[symmetric]
    using inv new by simp
qed

lemma clusterLoop_placed:
  assumes R: "0 \<le> R"
  shows "list_all (placedAround sx sy e R) objs \<Longrightarrow>
         list_all (placedAround sx sy e R) (snd (clusterLoop world sx sy e R n (rng, objs)))"
proof (induction n arbitrary: rng objs)
  case 0
  then show ?case by simp
next
  case (Suc n)
  obtain r1 o1 where s: "clusterStep world sx sy e R (rng, objs) = (r1, o1)"
    by (cases "clusterStep world sx sy e R (rng, objs)")
  from clusterStep_placed[OF R Suc.prems, of world rng] s
  have "list_all (placedAround sx sy e R) o1" by simp
  from Suc.IH[OF this, of r1] show ?case by (simp add: s)
qed

lemma grid_offset:
  fixes s lx ly c sn ax ay :: real
  assumes s: "0 \<le> s" and lx: "\<bar>lx\<bar> \<le> 6.1 * s" and ly: "\<bar>ly\<bar> \<le> 4.1 * s"
    and ax: "\<bar>ax\<bar> \<le> 3 * s" and ay: "\<bar>ay\<bar> \<le> 2 * s"
    and rot: "c * c + sn * sn = 1"
  shows "sqrt (((lx * c - ly * sn) + ax) * ((lx * c - ly * sn) + ax)
            + ((lx * sn + ly * c) + ay) * ((lx * sn + ly * c) + ay)) \<le> 11 * s"
proof -
  have "(lx * c - ly * sn) * (lx * c - ly * sn) + (lx * sn + ly * c) * (lx * sn + ly * c)
        = (c * c + sn * sn) * (lx * lx + ly * ly)" by (simp add: algebra_simps)
  then have n: "(lx * c - ly * sn) * (lx * c - ly * sn) + (lx * sn + ly * c) * (lx * sn + ly * c)
        = lx * lx + ly * ly" unfolding rot by simp
  define q where "q = s * s"
  have q: "0 \<le> q" by (simp add: q_def)
  have "lx * lx = \<bar>lx\<bar> * \<bar>lx\<bar>" by simp
  also have "\<dots> \<le> (6.1 * s) * (6.1 * s)" using lx by (intro mult_mono) simp_all
  finally have l1: "lx * lx \<le> 37.21 * q" by (simp add: q_def)
  have "ly * ly = \<bar>ly\<bar> * \<bar>ly\<bar>" by simp
  also have "\<dots> \<le> (4.1 * s) * (4.1 * s)" using ly by (intro mult_mono) simp_all
  finally have l2: "ly * ly \<le> 16.81 * q" by (simp add: q_def)
  have "ax * ax = \<bar>ax\<bar> * \<bar>ax\<bar>" by simp
  also have "\<dots> \<le> (3 * s) * (3 * s)" using ax by (intro mult_mono) simp_all
  finally have a1: "ax * ax \<le> 9 * q" by (simp add: q_def)
  have "ay * ay = \<bar>ay\<bar> * \<bar>ay\<bar>" by simp
  also have "\<dots> \<le> (2 * s) * (2 * s)" using ay by (intro mult_mono) simp_all
  finally have a2: "ay * ay \<le> 4 * q" by (simp add: q_def)
  have "lx * lx + ly * ly \<le> 54.0225 * q" using l1 l2 q by simp
  also have "54.0225 * q = (7.35 * s)\<^sup>2" by (simp add: q_def power2_eq_square)
  finally have r1: "sqrt (lx * lx + ly * ly) \<le> 7.35 * s" using s by (intro real_le_lsqrt) simp_all
  have "ax * ax + ay * ay \<le> 13.0321 * q" using a1 a2 q by simp
  also have "13.0321 * q = (3.61 * s)\<^sup>2" by (simp add: q_def power2_eq_square)
  finally have r2: "sqrt (ax * ax + ay * ay) \<le> 3.61 * s" using s by (intro real_le_lsqrt) simp_all
  have "sqrt (((lx * c - ly * sn) + ax) * ((lx * c - ly * sn) + ax)
            + ((lx * sn + ly * c) + ay) * ((lx * sn + ly * c) + ay))
        \<le> sqrt ((lx * c - ly * sn) * (lx * c - ly * sn) + (lx * sn + ly * c) * (lx * sn + ly * c))
          + sqrt (ax * ax + ay * ay)" by (rule norm_triangle)
  also have "\<dots> = sqrt (lx * lx + ly * ly) + sqrt (ax * ax + ay * ay)" unfolding n ..
  also have "\<dots> \<le> 11 * s" using r1 r2 s by simp
  finally show ?thesis .
qed

lemma gridStep_placed:
  assumes s: "0 \<le> s" and rc: "row < rows" "col < cols" "rows \<le> 5" "cols \<le> 7"
    and rot: "c * c + sn * sn = 1"
    and inv: "list_all (placedAround sx sy e (11 * s)) objs"
  shows "list_all (placedAround sx sy e (11 * s))
           (snd (gridStep world e rows cols s c sn (sx - (real cols - 1) * s / 2)
                   (sy - (real rows - 1) * s / 2) (rng, objs) (row, col)))"
proof -
  define u1 where "u1 = fst (SeededRandom_next rng)"
  define u2 where "u2 = fst (SeededRandom_next (snd (SeededRandom_next rng)))"
  define lx where "lx = real col * s + (u1 - 0.5) * s * 0.2"
  define ly where "ly = real row * s + (u2 - 0.5) * s * 0.2"
  define ax where "ax = - ((real cols - 1) * s / 2)"
  define ay where "ay = - ((real rows - 1) * s / 2)"
  have u1: "0 \<le> u1" "u1 < 1" using next_range[of rng] by (simp_all add: u1_def)
  have u2: "0 \<le> u2" "u2 < 1" using next_range[of "snd (SeededRandom_next rng)"] by (simp_all add: u2_def)
  have j1: "\<bar>(u1 - 0.5) * s * 0.2\<bar> \<le> 0.1 * s"
  proof -
    have "\<bar>u1 - 0.5\<bar> \<le> 0.5" using u1 by linarith
    then have "\<bar>u1 - 0.5\<bar> * s \<le> 0.5 * s" using s by (intro mult_right_mono)
    moreover have "\<bar>(u1 - 0.5) * s * 0.2\<bar> = (\<bar>u1 - 0.5\<bar> * s) * 0.2" using s by (simp add: abs_mult)
    ultimately show ?thesis by linarith
  qed
  have j2: "\<bar>(u2 - 0.5) * s * 0.2\<bar> \<le> 0.1 * s"
  proof -
    have "\<bar>u2 - 0.5\<bar> \<le> 0.5" using u2 by linarith
    then have "\<bar>u2 - 0.5\<bar> * s \<le> 0.5 * s" using s by (intro mult_right_mono)
    moreover have "\<bar>(u2 - 0.5) * s * 0.2\<bar> = (\<bar>u2 - 0.5\<bar> * s) * 0.2" using s by (simp add: abs_mult)
    ultimately show ?thesis by linarith
  qed
  have col: "real col \<le> 6" and row: "real row \<le> 4" using rc by simp_all
  have cs: "real col * s \<le> 6 * s" using col s by (intro mult_right_mono)
  have rs: "real row * s \<le> 4 * s" using row s by (intro mult_right_mono)
  have cs0: "0 \<le> real col * s" and rs0: "0 \<le> real row * s" using s by simp_all
  have lx: "\<bar>lx\<bar> \<le> 6.1 * s" unfolding lx_def using cs cs0 j1 by linarith
  have ly: "\<bar>ly\<bar> \<le> 4.1 * s" unfolding ly_def using rs rs0 j2 by linarith
  have c1: "0 \<le> real cols - 1" "real cols - 1 \<le> 6" and r1: "0 \<le> real rows - 1" "real rows - 1 \<le> 4"
    using rc by simp_all
  have "(real cols - 1) * s \<le> 6 * s" using c1 s by (intro mult_right_mono)
  moreover have "0 \<le> (real cols - 1) * s" using c1 s by simp
  ultimately have ax: "\<bar>ax\<bar> \<le> 3 * s" unfolding ax_def by linarith
  have "(real rows - 1) * s \<le> 4 * s" using r1 s by (intro mult_right_mono)
  moreover have "0 \<le> (real rows - 1) * s" using r1 s by simp
  ultimately have ay: "\<bar>ay\<bar> \<le> 2 * s" unfolding ay_def by linarith
  define tx where "tx = (lx * c - ly * sn) + ax"
  define ty where "ty = (lx * sn + ly * c) + ay"
  have n: "sqrt (tx * tx + ty * ty) \<le> 11 * s"
    unfolding tx_def ty_def by (rule grid_offset[OF s lx ly ax ay rot])
  have px: "sx - (real cols - 1) * s / 2 + (lx * c - ly * sn) = sx + tx"
    and py: "sy - (real rows - 1) * s / 2 + (lx * sn + ly * c) = sy + ty"
    by (simp_all add: tx_def ty_def ax_def ay_def)
  have new: "placedAround sx sy e (11 * s)
               (newGameObject (wrapCoord (sx + tx) WORLD_WIDTH) (wrapCoord (sy + ty) WORLD_HEIGHT) sz e)" for sz
  proof -
    have "\<exists>a b. wrapCoord (sx + tx) WORLD_WIDTH = wrapCoord (sx + a) WORLD_WIDTH \<and>
                wrapCoord (sy + ty) WORLD_HEIGHT = wrapCoord (sy + b) WORLD_HEIGHT \<and>
                sqrt (a * a + b * b) \<le> 11 * s"
      by (rule exI[of _ tx], rule exI[of _ ty]) (simp only: n simp_thms)
    then show ?thesis unfolding placedAround_def by (simp add: newGameObject_def)
  qed
  show ?thesis
    unfolding gridStep_def Let_def split_beta fst_conv snd_conv u1_def[symmetric] u2_def[symmetric]
      lx_def[symmetric] ly_def[symmetric] px py
    using inv new by simp
qed

lemma gridLoop_placed:
  assumes s: "0 \<le> s" and rc: "rows \<le> 5" "cols \<le> 7" and rot: "c * c + sn * sn = 1"
  shows "\<forall>cell\<in>set cells. fst cell < rows \<and> snd cell < cols \<Longrightarrow>
         list_all (placedAround sx sy e (11 * s)) (snd acc) \<Longrightarrow>
         list_all (placedAround sx sy e (11 * s))
           (snd (foldl (gridStep world e rows cols s c sn (sx - (real cols - 1) * s / 2)
                          (sy - (real rows - 1) * s / 2)) acc cells))"
proof (induction cells arbitrary: acc)
  case Nil
  then show ?case by simp
next
  case (Cons cell cells)
  obtain rng objs where acc: "acc = (rng, objs)" by (cases acc)
  obtain row col where cell: "cell = (row, col)" by (cases cell)
  have rc': "row < rows" "col < cols" using Cons.prems(1) cell by simp_all
  have inv: "list_all (placedAround sx sy e (11 * s)) objs" using Cons.prems(2) acc by simp
  have step: "list_all (placedAround sx sy e (11 * s))
           (snd (gridStep world e rows cols s c sn (sx - (real cols - 1) * s / 2)
                   (sy - (real rows - 1) * s / 2) acc cell))"
    unfolding acc cell by (rule gridStep_placed[OF s rc' rc rot inv])
  have rest: "\<forall>cell\<in>set cells. fst cell < rows \<and> snd cell < cols" using Cons.prems(1) by simp
  show ?case using Cons.IH[OF rest step] by simp
qed

lemma spawnPatternObjects_placed:
  "list_all (placedAround sx sy e (patternReach e)) (fst (spawnPatternObjects world sx sy e rng))"
proof -
  define pattern where "pattern = (if spawnPattern e = [] then ''scattered'' else spawnPattern e)"
  consider (scattered) "pattern = ''scattered''"
    | (clustered) "pattern = ''clustered''"
    | (grid) "pattern = ''grid''"
    | (other) "pattern \<noteq> ''scattered''" "pattern \<noteq> ''clustered''" "pattern \<noteq> ''grid''"
    by blast
  then show ?thesis
  proof cases
    case scattered
    then show ?thesis
      unfolding spawnPatternObjects_def Let_def pattern_def[symmetric] by simp
  next
    case other
    then show ?thesis
      unfolding spawnPatternObjects_def Let_def pattern_def[symmetric] by simp
  next
    case clustered
    have reach: "patternReach e = max 60 (maxSize e * 3)"
      unfolding patternReach_def Let_def pattern_def[symmetric] clustered by simp
    have R: "(0::real) \<le> max 60 (maxSize e * 3)" by simp
    have nil: "list_all (placedAround sx sy e (max 60 (maxSize e * 3))) []" by simp
    show ?thesis
      unfolding spawnPatternObjects_def Let_def pattern_def[symmetric] clustered reach split_beta
      using clusterLoop_placed[OF R nil] by simp
  next
    case grid
    define s where "s = max (maxSize e * 1.5) 35"
    define ur where "ur = fst (SeededRandom_next rng)"
    define uc where "uc = fst (SeededRandom_next (snd (SeededRandom_next rng)))"
    define rows where "rows = 3 + nat \<lfloor>ur * 3\<rfloor>"
    define cols where "cols = 4 + nat \<lfloor>uc * 4\<rfloor>"
    define rt where "rt = fst (SeededRandom_next (snd (SeededRandom_next (snd (SeededRandom_next rng))))) * pi * 0.12
                            - pi * 0.06"
    have reach: "patternReach e = 11 * s"
      unfolding patternReach_def Let_def pattern_def[symmetric] grid s_def by simp
    have s: "0 \<le> s" by (simp add: s_def)
    have ur: "ur < 1" using next_range[of rng] by (simp add: ur_def)
    have uc: "uc < 1" using next_range[of "snd (SeededRandom_next rng)"] by (simp add: uc_def)
    have "\<lfloor>ur * 3\<rfloor> < 3" using ur by (simp add: floor_less_iff)
    then have rows: "rows \<le> 5" unfolding rows_def by linarith
    have "\<lfloor>uc * 4\<rfloor> < 4" using uc by (simp add: floor_less_iff)
    then have cols: "cols \<le> 7" unfolding cols_def by linarith
    have rot: "cos rt * cos rt + sin rt * sin rt = 1" by (rule sin_cos_squared_add3)
    have cells: "\<forall>cell\<in>set (List.product [0..<rows] [0..<cols]). fst cell < rows \<and> snd cell < cols"
      by auto
    define r3 where "r3 = snd (SeededRandom_next (snd (SeededRandom_next (snd (SeededRandom_next rng)))))"
    have nil: "list_all (placedAround sx sy e (11 * s)) (snd (r3, []))" by simp
    have eq: "fst (spawnPatternObjects world sx sy e rng)
        = snd (foldl (gridStep world e rows cols s (cos rt) (sin rt) (sx - (real cols - 1) * s / 2)
                          (sy - (real rows - 1) * s / 2)) (r3, []) (List.product [0..<rows] [0..<cols]))"
      unfolding spawnPatternObjects_def Let_def pattern_def[symmetric] grid split_beta
        rows_def cols_def rt_def s_def ur_def uc_def r3_def
      by simp
    show ?thesis
      unfolding eq reach by (rule gridLoop_placed[OF s rows cols rot cells nil])
  qed
qed

text \<open>The counter and the placement bound along the attempts, the rings and the whole seeding.\<close>

lemma ringStep_invariant:
  assumes r: "0 \<le> maxRadius"
    and st: "ringStep world season ps cx cy maxRadius target ringIndex (rng, objs, sp)
             = (rng', objs', sp')"
  shows "\<exists>ext. objs' = objs @ ext \<and> sp' = sp + length ext \<and> (sp < target \<longrightarrow> sp' \<le> target) \<and>
           (cx = WORLD_CENTER_X \<and> cy = WORLD_CENTER_Y \<and> maxRadius \<le> 1000 \<longrightarrow> list_all withinReach ext)"
proof -
  from ringStep_cases[OF r, of world season ps cx cy target ringIndex rng objs sp]
  consider (none) r' where
      "ringStep world season ps cx cy maxRadius target ringIndex (rng, objs, sp) = (r', objs, sp)"
    | (spawn) r' a d sz objDef rng5 where "0 \<le> d" "d \<le> maxRadius"
      "ringStep world season ps cx cy maxRadius target ringIndex (rng, objs, sp) =
        (r', objs @ [newGameObject (wrapCoord (cx + cos a * d) WORLD_WIDTH)
                                    (wrapCoord (cy + sin a * d) WORLD_HEIGHT) sz objDef]
               @ take (target - (sp + 1))
                   (fst (spawnPatternObjects world (wrapCoord (cx + cos a * d) WORLD_WIDTH)
                           (wrapCoord (cy + sin a * d) WORLD_HEIGHT) objDef rng5)),
         sp + 1 + length (take (target - (sp + 1))
                   (fst (spawnPatternObjects world (wrapCoord (cx + cos a * d) WORLD_WIDTH)
                           (wrapCoord (cy + sin a * d) WORLD_HEIGHT) objDef rng5))))"
    by blast
  then show ?thesis
  proof cases
    case none
    with st have "objs' = objs" "sp' = sp" by simp_all
    then show ?thesis by (intro exI[of _ "[]"]) simp
  next
    case spawn
    define x where "x = wrapCoord (cx + cos a * d) WORLD_WIDTH"
    define y where "y = wrapCoord (cy + sin a * d) WORLD_HEIGHT"
    define seed where "seed = newGameObject x y sz objDef"
    define pats where "pats = fst (spawnPatternObjects world x y objDef rng5)"
    define added where "added = take (target - (sp + 1)) pats"
    have o: "objs' = objs @ (seed # added)" and s: "sp' = sp + 1 + length added"
      using st spawn(3) by (simp_all add: seed_def added_def pats_def x_def y_def)
    have len: "sp < target \<longrightarrow> sp + 1 + length added \<le> target"
      unfolding added_def length_take by linarith
    have rs: "list_all withinReach (seed # added)"
      if c: "cx = WORLD_CENTER_X" "cy = WORLD_CENTER_Y" "maxRadius \<le> 1000"
    proof -
      have d: "d \<le> 1000" using spawn(2) c(3) by simp
      have pq: "\<bar>cos a * d\<bar> \<le> 2000" "\<bar>sin a * d\<bar> \<le> 2000"
        using polar_bound[OF spawn(1), of a] d by linarith+
      have xy: "x = WORLD_CENTER_X + cos a * d" "y = WORLD_CENTER_Y + sin a * d"
        unfolding x_def y_def c(1,2) using offset_pos[OF pq] by simp_all
      have n: "sqrt ((cos a * d) * (cos a * d) + (sin a * d) * (sin a * d)) \<le> 1000"
        using polar_norm[OF spawn(1), of a] d by simp
      have "getWrappedDistance (ox seed) (oy seed) WORLD_CENTER_X WORLD_CENTER_Y = d"
        using seed_dist[OF spawn(1) d, of a] unfolding seed_def x_def y_def c(1,2)
        by (simp add: newGameObject_def)
      then have sd: "withinReach seed"
        unfolding withinReach_def using d patternReach_nonneg[of "otype seed"] by linarith
      have "list_all (placedAround x y objDef (patternReach objDef)) pats"
        unfolding pats_def by (rule spawnPatternObjects_placed)
      then have "list_all withinReach pats"
        unfolding xy list_all_iff using placed_withinReach[OF _ n] by blast
      then have "list_all withinReach added"
        unfolding added_def list_all_iff using in_set_takeD by fast
      with sd show ?thesis by simp
    qed
    show ?thesis
      apply (rule exI[of _ "seed # added"])
      using o s rs len by simp
  qed
qed

lemma ringLoop_invariant:
  assumes r: "0 \<le> maxRadius"
  shows "sp \<le> target \<Longrightarrow>
         ringLoop world season ps cx cy maxRadius target ringIndex n (rng, objs, sp)
             = (rng', objs', sp') \<Longrightarrow>
         \<exists>ext. objs' = objs @ ext \<and> sp' = sp + length ext \<and> sp' \<le> target \<and>
           (cx = WORLD_CENTER_X \<and> cy = WORLD_CENTER_Y \<and> maxRadius \<le> 1000 \<longrightarrow> list_all withinReach ext)"
proof (induction n arbitrary: rng objs sp)
  case 0
  then show ?case by (intro exI[of _ "[]"]) simp
next
  case (Suc n)
  show ?case
  proof (cases "sp < target")
    case False
    with Suc.prems have "objs' = objs" "sp' = sp" by simp_all
    with Suc.prems(1) show ?thesis by (intro exI[of _ "[]"]) simp
  next
    case True
    obtain r1 o1 s1 where step:
      "ringStep world season ps cx cy maxRadius target ringIndex (rng, objs, sp) = (r1, o1, s1)"
      by (cases "ringStep world season ps cx cy maxRadius target ringIndex (rng, objs, sp)")
    from ringStep_invariant[OF r step] True
    obtain e1 where e1: "o1 = objs @ e1" "s1 = sp + length e1" "s1 \<le> target"
      "cx = WORLD_CENTER_X \<and> cy = WORLD_CENTER_Y \<and> maxRadius \<le> 1000 \<longrightarrow> list_all withinReach e1"
      by blast
    from Suc.prems(2) True step
    have loop: "ringLoop world season ps cx cy maxRadius target ringIndex n (r1, o1, s1)
                  = (rng', objs', sp')" by simp
    from Suc.IH[OF e1(3) loop]
    obtain e2 where e2: "objs' = o1 @ e2" "sp' = s1 + length e2" "sp' \<le> target"
      "cx = WORLD_CENTER_X \<and> cy = WORLD_CENTER_Y \<and> maxRadius \<le> 1000 \<longrightarrow> list_all withinReach e2"
      by blast
    have "cx = WORLD_CENTER_X \<and> cy = WORLD_CENTER_Y \<and> maxRadius \<le> 1000 \<longrightarrow> list_all withinReach (e1 @ e2)"
      using e1(4) e2(4) by simp
    with e1(1,2,3) e2(1,2,3) show ?thesis by (intro exI[of _ "e1 @ e2"]) simp
  qed
qed

lemma spawnObjectsAroundPlayer_invariant:
  assumes r: "0 \<le> maxRadius"
  shows "\<exists>ext. objects (fst (spawnObjectsAroundPlayer world cx cy maxRadius target ringIndex st))
               = objects st @ ext \<and> length ext \<le> target \<and>
             snd (spawnObjectsAroundPlayer world cx cy maxRadius target ringIndex st) = length ext \<and>
             (cx = WORLD_CENTER_X \<and> cy = WORLD_CENTER_Y \<and> maxRadius \<le> 1000 \<longrightarrow> list_all withinReach ext)"
proof -
  define season where "season = getCurrentSeason st"
  define ps where "ps = (case player st of Some p \<Rightarrow> psize p | None \<Rightarrow> STARTING_SIZE)"
  define rng where "rng = newSeededRandom (WORLD_SEED + int (currentSeasonIndex st) * 1000 + int ringIndex * 7777)"
  obtain r' o' s' where loop:
    "ringLoop world season ps cx cy maxRadius target ringIndex (target * 5)
       (rng, objects st, 0) = (r', o', s')"
    by (cases "ringLoop world season ps cx cy maxRadius target ringIndex (target * 5)
       (rng, objects st, 0)")
  have le: "(0::nat) \<le> target" by simp
  from ringLoop_invariant[OF r le loop]
  obtain ext where e: "o' = objects st @ ext" "s' = 0 + length ext" "s' \<le> target"
     "cx = WORLD_CENTER_X \<and> cy = WORLD_CENTER_Y \<and> maxRadius \<le> 1000 \<longrightarrow> list_all withinReach ext"
    by blast
  have res: "spawnObjectsAroundPlayer world cx cy maxRadius target ringIndex st
       = (st\<lparr>objects := o'\<rparr>, s')"
    unfolding spawnObjectsAroundPlayer_def Let_def season_def[symmetric] ps_def[symmetric] rng_def[symmetric] loop
    by simp
  show ?thesis unfolding res using e by (intro exI[of _ ext]) simp
qed

lemma spawnWorldObjects_rings:
  "\<exists>e0 e1 e2 e3. objects (spawnWorldObjects world st) = e0 @ e1 @ e2 @ e3 \<and>
      length e0 \<le> 80 \<and> length e1 \<le> 120 \<and> length e2 \<le> 150 \<and> length e3 \<le> 150 \<and>
      ((case player st of None \<Rightarrow> True | Some p \<Rightarrow> px p = WORLD_CENTER_X \<and> py p = WORLD_CENTER_Y) \<longrightarrow>
         list_all withinReach e0 \<and> list_all withinReach e1 \<and> list_all withinReach e2 \<and>
         list_all withinReach e3)"
proof -
  define s0 where "s0 = st\<lparr>objects := []\<rparr>"
  define cx where "cx = (case player s0 of Some p \<Rightarrow> px p | None \<Rightarrow> WORLD_CENTER_X)"
  define cy where "cy = (case player s0 of Some p \<Rightarrow> py p | None \<Rightarrow> WORLD_CENTER_Y)"
  define s1 where "s1 = fst (spawnObjectsAroundPlayer world cx cy 100 80 0 s0)"
  define s2 where "s2 = fst (spawnObjectsAroundPlayer world cx cy 300 120 1 s1)"
  define s3 where "s3 = fst (spawnObjectsAroundPlayer world cx cy 600 150 2 s2)"
  define s4 where "s4 = fst (spawnObjectsAroundPlayer world cx cy 1000 150 3 s3)"
  have res: "spawnWorldObjects world st = s4"
    unfolding spawnWorldObjects_def Let_def s0_def[symmetric] cx_def[symmetric] cy_def[symmetric]
      s1_def[symmetric] s2_def[symmetric] s3_def[symmetric] s4_def[symmetric] ..
  have c: "cx = WORLD_CENTER_X \<and> cy = WORLD_CENTER_Y"
    if "case player st of None \<Rightarrow> True | Some p \<Rightarrow> px p = WORLD_CENTER_X \<and> py p = WORLD_CENTER_Y"
    using that by (simp add: cx_def cy_def s0_def split: option.splits)
  from spawnObjectsAroundPlayer_invariant[of 100 world cx cy 80 0 s0]
  obtain e0 where e0: "objects s1 = [] @ e0" "length e0 \<le> 80"
     "cx = WORLD_CENTER_X \<and> cy = WORLD_CENTER_Y \<longrightarrow> list_all withinReach e0"
    unfolding s1_def[symmetric] by (auto simp add: s0_def)
  from spawnObjectsAroundPlayer_invariant[of 300 world cx cy 120 1 s1]
  obtain e1 where e1: "objects s2 = objects s1 @ e1" "length e1 \<le> 120"
     "cx = WORLD_CENTER_X \<and> cy = WORLD_CENTER_Y \<longrightarrow> list_all withinReach e1"
    unfolding s2_def[symmetric] by auto
  from spawnObjectsAroundPlayer_invariant[of 600 world cx cy 150 2 s2]
  obtain e2 where e2: "objects s3 = objects s2 @ e2" "length e2 \<le> 150"
     "cx = WORLD_CENTER_X \<and> cy = WORLD_CENTER_Y \<longrightarrow> list_all withinReach e2"
    unfolding s3_def[symmetric] by auto
  from spawnObjectsAroundPlayer_invariant[of 1000 world cx cy 150 3 s3]
  obtain e3 where e3: "objects s4 = objects s3 @ e3" "length e3 \<le> 150"
     "cx = WORLD_CENTER_X \<and> cy = WORLD_CENTER_Y \<longrightarrow> list_all withinReach e3"
    unfolding s4_def[symmetric] by auto
  have "objects s4 = e0 @ e1 @ e2 @ e3" using e0(1) e1(1) e2(1) e3(1) by simp
  then show ?thesis unfolding res
    using e0(2,3) e1(2,3) e2(2,3) e3(2,3) c by (intro exI[of _ e0] exI[of _ e1] exI[of _ e2] exI[of _ e3]) blast
qed

text \<open>
  The grove world. The three inner rings (radii 100, 300, 600) find nothing to spawn, so
  the population of the seeding is the one of the fourth ring.
\<close>

lemma next_snd: "snd (SeededRandom_next r) = r\<lparr>rngState := rngState r + 0x6d2b79f5\<rparr>"
  by (simp add: SeededRandom_next_def Let_def)

lemma groveWorld_seed:
  assumes "0 \<le> d" "d \<le> 1000"
  shows "groveWorld (wrapCoord (WORLD_CENTER_X + cos a * d) WORLD_WIDTH)
           (wrapCoord (WORLD_CENTER_Y + sin a * d) WORLD_HEIGHT)
         = (if d < 900 then barrenBiome else groveBiome)"
  unfolding groveWorld_def seed_dist[OF assms] ..

lemma ringStep_barren:
  assumes r: "0 \<le> maxRadius" "maxRadius \<le> 1000"
    and u: "sqrt (fst (SeededRandom_next (snd (SeededRandom_next rng)))) * maxRadius < 900"
  shows "ringStep groveWorld season ps WORLD_CENTER_X WORLD_CENTER_Y maxRadius target ringIndex (rng, objs, sp)
         = (snd (SeededRandom_next (snd (SeededRandom_next rng))), objs, sp)"
proof -
  define u2 where "u2 = fst (SeededRandom_next (snd (SeededRandom_next rng)))"
  define d where "d = sqrt u2 * maxRadius"
  have u2: "0 \<le> u2" "u2 < 1" using next_range[of "snd (SeededRandom_next rng)"] by (simp_all add: u2_def)
  have "sqrt u2 \<le> 1" using u2 by simp
  then have "sqrt u2 * maxRadius \<le> 1 * maxRadius" using r(1) by (intro mult_right_mono)
  then have d: "0 \<le> d" "d \<le> 1000" "d < 900" using u2 r u by (simp_all add: d_def u2_def)
  have w: "groveWorld (wrapCoord (WORLD_CENTER_X + cos a * d) WORLD_WIDTH)
           (wrapCoord (WORLD_CENTER_Y + sin a * d) WORLD_HEIGHT) = barrenBiome" for a
    using groveWorld_seed[OF d(1,2), of a] d(3) by simp
  show ?thesis
    unfolding ringStep_def Let_def split_beta fst_conv snd_conv u2_def[symmetric] d_def[symmetric] w
    by (simp add: barrenBiome_def)
qed

lemma ringLoop_barren:
  assumes r: "0 \<le> maxRadius" "maxRadius < 900"
  shows "fst (snd (ringLoop groveWorld season ps WORLD_CENTER_X WORLD_CENTER_Y maxRadius target ringIndex n
                     (rng, objs, sp))) = objs"
proof (induction n arbitrary: rng)
  case 0
  show ?case by simp
next
  case (Suc n)
  define u2 where "u2 = fst (SeededRandom_next (snd (SeededRandom_next rng)))"
  have u2: "0 \<le> u2" "u2 < 1" using next_range[of "snd (SeededRandom_next rng)"] by (simp_all add: u2_def)
  have "sqrt u2 \<le> 1" using u2 by simp
  then have "sqrt u2 * maxRadius \<le> 1 * maxRadius" using r(1) by (intro mult_right_mono)
  then have lt: "sqrt u2 * maxRadius < 900" using r(2) by simp
  have le: "maxRadius \<le> 1000" using r(2) by simp
  show ?case
    using Suc.IH
    by (simp add: ringStep_barren[OF r(1) le lt[unfolded u2_def]])
qed

lemma spawnObjectsAroundPlayer_barren:
  assumes r: "0 \<le> maxRadius" "maxRadius < 900"
  shows "fst (spawnObjectsAroundPlayer groveWorld WORLD_CENTER_X WORLD_CENTER_Y maxRadius target ringIndex st) = st"
  by (simp add: spawnObjectsAroundPlayer_def Let_def ringLoop_barren[OF r])

text \<open>
  In the grove every attempt beyond 900 spawns a bush: the density gate is open, the
  selection has one candidate, and every cluster point is on land.
\<close>

lemma groveWorld_land: "\<not> isOcean (groveWorld x y)"
  by (simp add: groveWorld_def barrenBiome_def groveBiome_def)

lemma gate_open:
  assumes "0 < ringIndex"
  shows "densityGate ringIndex groveBiome r = (False, snd (SeededRandom_next r))"
  using assms next_range[of r]
  by (simp add: densityGate_def split_beta groveBiome_def)

lemma bush_weight: "0 < adjustWeight (Some 12) bushEntry"
proof -
  define z :: real where "z = 1 - 0.5 powr (((20 + 50) / 2) / (12 * 0.95) - 1)"
  have "adjustWeight (Some 12) bushEntry = 1 * (1 - min 0.99 z)"
    by (simp add: adjustWeight_def bushEntry_def Let_def z_def)
  moreover have "min 0.99 z \<le> 0.99" by (rule min.cobounded1)
  ultimately show ?thesis by simp
qed

lemma select_bush:
  "weightedRandomSelect (Some [bushEntry]) r (Some 12)
     = (Some (bushEntry\<lparr>adjustedWeight := Some (adjustWeight (Some 12) bushEntry)\<rparr>),
        snd (SeededRandom_next r))"
proof -
  define w where "w = adjustWeight (Some 12) bushEntry"
  define u where "u = fst (SeededRandom_next r)"
  have w: "0 < w" unfolding w_def by (rule bush_weight)
  have u: "u < 1" using next_range[of r] by (simp add: u_def)
  have "(u - 1) * w \<le> 0" using u w by (simp add: mult_le_0_iff)
  then have le: "u * w - w \<le> 0" by (simp add: algebra_simps)
  show ?thesis
    unfolding weightedRandomSelect_def
    using le
    by (simp add: Let_def split_beta adjustedWeightOf_def w_def[symmetric] u_def[symmetric])
qed

lemma ringStep_grove:
  assumes u: "0.81 \<le> fst (SeededRandom_next (snd (SeededRandom_next rng)))"
  shows "\<exists>sz. fst (snd (ringStep groveWorld season 12 WORLD_CENTER_X WORLD_CENTER_Y 1000 target 3 (rng, objs, sp)))
     = objs @ [newGameObject
                 (WORLD_CENTER_X + cos (fst (SeededRandom_next rng) * pi * 2)
                    * (sqrt (fst (SeededRandom_next (snd (SeededRandom_next rng)))) * 1000))
                 (WORLD_CENTER_Y + sin (fst (SeededRandom_next rng) * pi * 2)
                    * (sqrt (fst (SeededRandom_next (snd (SeededRandom_next rng)))) * 1000))
                 sz (bushEntry\<lparr>adjustedWeight := Some (adjustWeight (Some 12) bushEntry)\<rparr>)]
          @ take (target - (sp + 1))
              (fst (spawnPatternObjects groveWorld
                 (WORLD_CENTER_X + cos (fst (SeededRandom_next rng) * pi * 2)
                    * (sqrt (fst (SeededRandom_next (snd (SeededRandom_next rng)))) * 1000))
                 (WORLD_CENTER_Y + sin (fst (SeededRandom_next rng) * pi * 2)
                    * (sqrt (fst (SeededRandom_next (snd (SeededRandom_next rng)))) * 1000))
                 (bushEntry\<lparr>adjustedWeight := Some (adjustWeight (Some 12) bushEntry)\<rparr>)
                 (((snd \<circ> SeededRandom_next) ^^ 5) rng)))"
proof -
  define a where "a = fst (SeededRandom_next rng) * pi * 2"
  define u2 where "u2 = fst (SeededRandom_next (snd (SeededRandom_next rng)))"
  define d where "d = sqrt u2 * 1000"
  define e where "e = bushEntry\<lparr>adjustedWeight := Some (adjustWeight (Some 12) bushEntry)\<rparr>"
  have u2: "0 \<le> u2" "u2 < 1" using next_range[of "snd (SeededRandom_next rng)"] by (simp_all add: u2_def)
  have lo: "0.9 \<le> sqrt u2"
    using u unfolding u2_def[symmetric] by (intro real_le_rsqrt) (simp add: power2_eq_square)
  have hi: "sqrt u2 \<le> 1" using u2 by simp
  have d: "0 \<le> d" "d \<le> 1000" "\<not> d < 900" using lo hi u2(1) by (simp_all add: d_def)
  have px: "\<bar>cos a * d\<bar> \<le> 2000" and py: "\<bar>sin a * d\<bar> \<le> 2000"
    using polar_bound[OF d(1), of a] d(2) by linarith+
  have x: "wrapCoord (WORLD_CENTER_X + cos a * d) WORLD_WIDTH = WORLD_CENTER_X + cos a * d"
    and y: "wrapCoord (WORLD_CENTER_Y + sin a * d) WORLD_HEIGHT = WORLD_CENTER_Y + sin a * d"
    using offset_pos[OF px py] by simp_all
  have w: "groveWorld (WORLD_CENTER_X + cos a * d) (WORLD_CENTER_Y + sin a * d) = groveBiome"
    using groveWorld_seed[OF d(1,2), of a] d(3) unfolding x y by simp
  have so: "seasonObjects groveBiome season = [bushEntry]" by (simp add: groveBiome_def)
  have valid: "filter (\<lambda>obj. shouldSpawnForPlayerSize obj 12) [bushEntry] = [bushEntry]"
    by (simp add: shouldSpawnForPlayerSize_def bushEntry_def)
  have g: "densityGate 3 groveBiome r = (False, snd (SeededRandom_next r))" for r
    by (rule gate_open) simp
  have five: "((snd \<circ> SeededRandom_next) ^^ 5) rng
     = snd (SeededRandom_next (snd (SeededRandom_next (snd (SeededRandom_next
         (snd (SeededRandom_next (snd (SeededRandom_next rng)))))))))"
    by (simp add: eval_nat_numeral)
  show ?thesis
    unfolding ringStep_def Let_def split_beta fst_conv snd_conv five
      a_def[symmetric] u2_def[symmetric] d_def[symmetric] x y w so valid g select_bush e_def[symmetric]
    apply (simp del: take_append)
    apply (rule exI)
    apply (rule refl)
    done
qed

lemma pattern_bush:
  assumes "spawnPattern e = ''clustered''"
  shows "fst (spawnPatternObjects groveWorld sx sy e r)
     = snd (clusterLoop groveWorld sx sy e (max 60 (maxSize e * 3))
              (4 + nat \<lfloor>fst (SeededRandom_next r) * 7\<rfloor>) (snd (SeededRandom_next r), []))"
  unfolding spawnPatternObjects_def assms by (simp add: Let_def split_beta)

lemma clusterStep_grove:
  "clusterStep groveWorld sx sy e R (rng, objs)
     = (((snd \<circ> SeededRandom_next) ^^ 3) rng,
        objs @ [newGameObject
                  (wrapCoord (sx + cos (fst (SeededRandom_next rng) * pi * 2)
                                 * (fst (SeededRandom_next (snd (SeededRandom_next rng))) * R)) WORLD_WIDTH)
                  (wrapCoord (sy + sin (fst (SeededRandom_next rng) * pi * 2)
                                 * (fst (SeededRandom_next (snd (SeededRandom_next rng))) * R)) WORLD_HEIGHT)
                  (minSize e + fst (SeededRandom_next (snd (SeededRandom_next (snd (SeededRandom_next rng)))))
                     * (maxSize e - minSize e)) e])"
  unfolding clusterStep_def Let_def split_beta fst_conv snd_conv
  by (simp add: groveWorld_land eval_nat_numeral)

lemma clusterLoop_grove:
  "snd (clusterLoop groveWorld sx sy e R n (rng, objs))
     = objs @ map (\<lambda>k. last (snd (clusterStep groveWorld sx sy e R
                                      (((snd \<circ> SeededRandom_next) ^^ (3 * k)) rng, []))))
                [0..<n]"
proof (induction n arbitrary: rng objs)
  case 0
  show ?case by simp
next
  case (Suc n)
  define f where "f = (\<lambda>r. last (snd (clusterStep groveWorld sx sy e R (r, []))))"
  have step: "clusterStep groveWorld sx sy e R (rng, objs)
                = (((snd \<circ> SeededRandom_next) ^^ 3) rng, objs @ [f rng])"
    unfolding f_def by (simp add: clusterStep_grove)
  have shift: "((snd \<circ> SeededRandom_next) ^^ (3 * k)) (((snd \<circ> SeededRandom_next) ^^ 3) rng)
                 = ((snd \<circ> SeededRandom_next) ^^ (3 * Suc k)) rng" for k
  proof -
    have "3 * Suc k = 3 * k + 3" by simp
    then show ?thesis by (simp only: funpow_add o_apply)
  qed
  have "[0..<Suc n] = 0 # map Suc [0..<n]" by (simp add: upt_conv_Cons map_Suc_upt del: upt_Suc)
  then have m: "map (\<lambda>k. f (((snd \<circ> SeededRandom_next) ^^ (3 * k)) rng)) [0..<Suc n]
        = f rng # map (\<lambda>k. f (((snd \<circ> SeededRandom_next) ^^ (3 * Suc k)) rng)) [0..<n]"
    by (simp add: comp_def del: upt_Suc funpow.simps)
  have "snd (clusterLoop groveWorld sx sy e R (Suc n) (rng, objs))
        = snd (clusterLoop groveWorld sx sy e R n (((snd \<circ> SeededRandom_next) ^^ 3) rng, objs @ [f rng]))"
    by (simp only: clusterLoop.simps step)
  also have "\<dots> = (objs @ [f rng]) @ map (\<lambda>k. f (((snd \<circ> SeededRandom_next) ^^ (3 * k))
                                   (((snd \<circ> SeededRandom_next) ^^ 3) rng))) [0..<n]"
    unfolding f_def by (rule Suc.IH)
  also have "\<dots> = objs @ map (\<lambda>k. f (((snd \<circ> SeededRandom_next) ^^ (3 * k)) rng)) [0..<Suc n]"
    unfolding shift m by simp
  finally show ?case unfolding f_def .
qed

text \<open>
  The draws of the fourth ring (generator seed \<open>42 + 3 * 7777\<close>) that decide the first
  six attempts: the first five seeds fall within 900 of the center, the sixth at about 916.
\<close>

lemma ring3_draws:
  "fst (SeededRandom_next \<lparr>rngSeed = 23373, rngState = 1831589186\<rparr>) = 1638027993 / 4294967296"
  "fst (SeededRandom_next \<lparr>rngSeed = 23373, rngState = 5494720812\<rparr>) = 1230577949 / 4294967296"
  "fst (SeededRandom_next \<lparr>rngSeed = 23373, rngState = 9157852438\<rparr>) = 181752978 / 4294967296"
  "fst (SeededRandom_next \<lparr>rngSeed = 23373, rngState = 12820984064\<rparr>) = 1068729843 / 4294967296"
  "fst (SeededRandom_next \<lparr>rngSeed = 23373, rngState = 16484115690\<rparr>) = 1849047845 / 4294967296"
  "fst (SeededRandom_next \<lparr>rngSeed = 23373, rngState = 18315681503\<rparr>) = 1960393232 / 4294967296"
  "fst (SeededRandom_next \<lparr>rngSeed = 23373, rngState = 20147247316\<rparr>) = 3604797568 / 4294967296"
  "fst (SeededRandom_next \<lparr>rngSeed = 23373, rngState = 27473510568\<rparr>) = 3414597970 / 4294967296"
  "fst (SeededRandom_next \<lparr>rngSeed = 23373, rngState = 51283866137\<rparr>) = 1969628649 / 4294967296"
  "fst (SeededRandom_next \<lparr>rngSeed = 23373, rngState = 53115431950\<rparr>) = 4084824347 / 4294967296"
  by (simp_all add: SeededRandom_next_def mulberryMix_def imul_def Let_def)

lemma ringLoop_unroll:
  assumes "0 < n" "sp < target"
  shows "ringLoop world season ps cx cy maxRadius target ringIndex n (rng, objs, sp)
         = ringLoop world season ps cx cy maxRadius target ringIndex (n - 1)
             (ringStep world season ps cx cy maxRadius target ringIndex (rng, objs, sp))"
  using assms by (cases n) simp_all

lemma ringLoop_skip:
  assumes "0 < n" "sp < target"
    and "fst (SeededRandom_next (snd (SeededRandom_next rng))) < 0.81"
  shows "ringLoop groveWorld season ps WORLD_CENTER_X WORLD_CENTER_Y 1000 target ringIndex n (rng, objs, sp)
         = ringLoop groveWorld season ps WORLD_CENTER_X WORLD_CENTER_Y 1000 target ringIndex (n - 1)
             (snd (SeededRandom_next (snd (SeededRandom_next rng))), objs, sp)"
proof -
  define u2 where "u2 = fst (SeededRandom_next (snd (SeededRandom_next rng)))"
  have "u2 < 0.9 * 0.9" using assms(3) by (simp add: u2_def)
  then have "sqrt u2 < sqrt (0.9 * 0.9)" by (rule real_sqrt_less_mono)
  moreover have "sqrt (0.9 * 0.9) = \<bar>0.9 :: real\<bar>" by (rule real_sqrt_abs2)
  ultimately have "sqrt u2 < 0.9" by (simp only:)
  then have lt: "sqrt u2 * 1000 < 900" by simp
  show ?thesis
    unfolding ringLoop_unroll[OF assms(1,2)]
    using ringStep_barren[of 1000 rng season ps target ringIndex objs sp] lt
    by (simp add: u2_def)
qed

lemma ring3_first_attempts:
  "ringLoop groveWorld season ps WORLD_CENTER_X WORLD_CENTER_Y 1000 150 3 750
      (\<lparr>rngSeed = 23373, rngState = 23373\<rparr>, [], 0)
   = ringLoop groveWorld season ps WORLD_CENTER_X WORLD_CENTER_Y 1000 150 3 745
      (\<lparr>rngSeed = 23373, rngState = 18315681503\<rparr>, [], 0)"
proof -
  have s1: "ringLoop groveWorld season ps WORLD_CENTER_X WORLD_CENTER_Y 1000 150 3 750
      (\<lparr>rngSeed = 23373, rngState = 23373\<rparr>, [], 0)
   = ringLoop groveWorld season ps WORLD_CENTER_X WORLD_CENTER_Y 1000 150 3 749
      (\<lparr>rngSeed = 23373, rngState = 3663154999\<rparr>, [], 0)"
    by (subst ringLoop_skip) (simp_all add: next_snd ring3_draws)
  have s2: "ringLoop groveWorld season ps WORLD_CENTER_X WORLD_CENTER_Y 1000 150 3 749
      (\<lparr>rngSeed = 23373, rngState = 3663154999\<rparr>, [], 0)
   = ringLoop groveWorld season ps WORLD_CENTER_X WORLD_CENTER_Y 1000 150 3 748
      (\<lparr>rngSeed = 23373, rngState = 7326286625\<rparr>, [], 0)"
    by (subst ringLoop_skip) (simp_all add: next_snd ring3_draws)
  have s3: "ringLoop groveWorld season ps WORLD_CENTER_X WORLD_CENTER_Y 1000 150 3 748
      (\<lparr>rngSeed = 23373, rngState = 7326286625\<rparr>, [], 0)
   = ringLoop groveWorld season ps WORLD_CENTER_X WORLD_CENTER_Y 1000 150 3 747
      (\<lparr>rngSeed = 23373, rngState = 10989418251\<rparr>, [], 0)"
    by (subst ringLoop_skip) (simp_all add: next_snd ring3_draws)
  have s4: "ringLoop groveWorld season ps WORLD_CENTER_X WORLD_CENTER_Y 1000 150 3 747
      (\<lparr>rngSeed = 23373, rngState = 10989418251\<rparr>, [], 0)
   = ringLoop groveWorld season ps WORLD_CENTER_X WORLD_CENTER_Y 1000 150 3 746
      (\<lparr>rngSeed = 23373, rngState = 14652549877\<rparr>, [], 0)"
    by (subst ringLoop_skip) (simp_all add: next_snd ring3_draws)
  have s5: "ringLoop groveWorld season ps WORLD_CENTER_X WORLD_CENTER_Y 1000 150 3 746
      (\<lparr>rngSeed = 23373, rngState = 14652549877\<rparr>, [], 0)
   = ringLoop groveWorld season ps WORLD_CENTER_X WORLD_CENTER_Y 1000 150 3 745
      (\<lparr>rngSeed = 23373, rngState = 18315681503\<rparr>, [], 0)"
    by (subst ringLoop_skip) (simp_all add: next_snd ring3_draws)
  show ?thesis by (simp only: s1 s2 s3 s4 s5)
qed

text \<open>
  A cluster point at 142 to 150 from a seed that is 916 to 1000 from the center, in a
  direction within 30 degrees of the seed's, is farther than 1040 from the center.
\<close>

lemma polar_sum:
  fixes a b d r :: real
  shows "(cos a * d + cos b * r) * (cos a * d + cos b * r) + (sin a * d + sin b * r) * (sin a * d + sin b * r)
         = d * d + r * r + 2 * (d * r) * cos (b - a)"
proof -
  have "(cos a * d + cos b * r) * (cos a * d + cos b * r) + (sin a * d + sin b * r) * (sin a * d + sin b * r)
        = (cos a * cos a + sin a * sin a) * (d * d) + (cos b * cos b + sin b * sin b) * (r * r)
          + 2 * (d * r) * (cos b * cos a + sin b * sin a)"
    by (simp only: ring_distribs) (simp only: ac_simps mult_2 ring_distribs)
  also have "\<dots> = d * d + r * r + 2 * (d * r) * cos (b - a)"
    by (simp only: sin_cos_squared_add3 mult_1 cos_diff)
  finally show ?thesis .
qed

lemma cos_small:
  fixes t :: real
  assumes "0 \<le> t" "t \<le> pi / 6"
  shows "0.866 \<le> cos t"
proof -
  have "(1.732 :: real) \<le> sqrt 3" by (rule real_le_rsqrt) (simp add: power2_eq_square)
  then have "0.866 \<le> cos (pi / 6)" by (simp add: cos_30)
  moreover have "cos (pi / 6) \<le> cos t"
    using assms by (intro cos_monotone_0_pi_le) simp_all
  ultimately show ?thesis by linarith
qed

lemma cluster_far:
  fixes a b d r :: real
  assumes d: "916 \<le> d" "d \<le> 1000" and r: "142 \<le> r" "r \<le> 150"
    and t: "0 \<le> b - a" "b - a \<le> pi / 6"
  shows "1040 < getWrappedDistance (wrapCoord (WORLD_CENTER_X + cos a * d + cos b * r) WORLD_WIDTH)
                  (wrapCoord (WORLD_CENTER_Y + sin a * d + sin b * r) WORLD_HEIGHT)
                  WORLD_CENTER_X WORLD_CENTER_Y"
proof -
  define p where "p = cos a * d + cos b * r"
  define q where "q = sin a * d + sin b * r"
  have d0: "0 \<le> d" and r0: "0 \<le> r" using d r by linarith+
  have p: "\<bar>p\<bar> \<le> 2000" unfolding p_def
    using polar_bound(1)[OF d0, of a] polar_bound(1)[OF r0, of b] d r by linarith
  have q: "\<bar>q\<bar> \<le> 2000" unfolding q_def
    using polar_bound(2)[OF d0, of a] polar_bound(2)[OF r0, of b] d r by linarith
  have c: "0.866 \<le> cos (b - a)" using t by (rule cos_small)
  have dd: "916 * 916 \<le> d * d" using d by (intro mult_mono) simp_all
  have rr: "142 * 142 \<le> r * r" using r by (intro mult_mono) simp_all
  have dr: "916 * 142 \<le> d * r" using d r by (intro mult_mono) simp_all
  have "0 \<le> d * r" using d0 r0 by simp
  then have drc: "(916 * 142) * 0.866 \<le> (d * r) * cos (b - a)" by (intro mult_mono[OF dr c]) simp_all
  have "p * p + q * q = d * d + r * r + 2 * (d * r) * cos (b - a)"
    unfolding p_def q_def by (rule polar_sum)
  then have "1040\<^sup>2 < p * p + q * q" using dd rr drc by (simp add: power2_eq_square)
  then have "1040 < sqrt (p * p + q * q)" by (rule real_less_rsqrt)
  moreover have "WORLD_CENTER_X + cos a * d + cos b * r = WORLD_CENTER_X + p"
    and "WORLD_CENTER_Y + sin a * d + sin b * r = WORLD_CENTER_Y + q"
    by (simp_all add: p_def q_def)
  ultimately show ?thesis
    using offset_pos[OF p q] offset_dist[OF p q] by (simp only:)
qed

lemma ring3_sixth_attempt:
  "\<exists>sz.
     fst (snd (ringStep groveWorld season 12 WORLD_CENTER_X WORLD_CENTER_Y 1000 150 3
                 (\<lparr>rngSeed = 23373, rngState = 18315681503\<rparr>, [], 0)))
     = newGameObject
         (WORLD_CENTER_X + cos (1960393232 / 4294967296 * pi * 2) * (sqrt (3604797568 / 4294967296) * 1000))
         (WORLD_CENTER_Y + sin (1960393232 / 4294967296 * pi * 2) * (sqrt (3604797568 / 4294967296) * 1000))
         sz (bushEntry\<lparr>adjustedWeight := Some (adjustWeight (Some 12) bushEntry)\<rparr>)
       # map (\<lambda>k. last (snd (clusterStep groveWorld
            (WORLD_CENTER_X + cos (1960393232 / 4294967296 * pi * 2) * (sqrt (3604797568 / 4294967296) * 1000))
            (WORLD_CENTER_Y + sin (1960393232 / 4294967296 * pi * 2) * (sqrt (3604797568 / 4294967296) * 1000))
            (bushEntry\<lparr>adjustedWeight := Some (adjustWeight (Some 12) bushEntry)\<rparr>) 150
            (((snd \<circ> SeededRandom_next) ^^ (3 * k)) \<lparr>rngSeed = 23373, rngState = 29305076381\<rparr>, []))))
           [0..<9]"
proof -
  define rng where "rng = \<lparr>rngSeed = 23373, rngState = 18315681503\<rparr>"
  define e where "e = bushEntry\<lparr>adjustedWeight := Some (adjustWeight (Some 12) bushEntry)\<rparr>"
  have u1: "fst (SeededRandom_next rng) = 1960393232 / 4294967296"
    unfolding rng_def by (rule ring3_draws)
  have u2: "fst (SeededRandom_next (snd (SeededRandom_next rng))) = 3604797568 / 4294967296"
    unfolding rng_def by (simp add: next_snd ring3_draws)
  have r15: "((snd \<circ> SeededRandom_next) ^^ 5) rng = \<lparr>rngSeed = 23373, rngState = 27473510568\<rparr>"
    unfolding rng_def by (simp add: eval_nat_numeral next_snd)
  have u16: "fst (SeededRandom_next \<lparr>rngSeed = 23373, rngState = 27473510568\<rparr>) = 3414597970 / 4294967296"
    by (rule ring3_draws)
  have fl: "\<lfloor>3414597970 / 4294967296 * (7 :: real)\<rfloor> = 5" by (simp add: floor_eq_iff)
  have cnt: "4 + nat \<lfloor>fst (SeededRandom_next \<lparr>rngSeed = 23373, rngState = 27473510568\<rparr>) * 7\<rfloor> = 9"
    unfolding u16 fl by simp
  have r16: "snd (SeededRandom_next \<lparr>rngSeed = 23373, rngState = 27473510568\<rparr>)
               = \<lparr>rngSeed = 23373, rngState = 29305076381\<rparr>"
    by (simp add: next_snd)
  have pat: "spawnPattern e = ''clustered''" and mx: "max 60 (maxSize e * 3) = 150"
    by (simp_all add: e_def bushEntry_def)
  have ge: "0.81 \<le> fst (SeededRandom_next (snd (SeededRandom_next rng)))" unfolding u2 by simp
  from ringStep_grove[OF ge, of season 150 "[]" 0]
  obtain sz where
    "fst (snd (ringStep groveWorld season 12 WORLD_CENTER_X WORLD_CENTER_Y 1000 150 3 (rng, [], 0)))
     = [] @ [newGameObject
                 (WORLD_CENTER_X + cos (fst (SeededRandom_next rng) * pi * 2)
                    * (sqrt (fst (SeededRandom_next (snd (SeededRandom_next rng)))) * 1000))
                 (WORLD_CENTER_Y + sin (fst (SeededRandom_next rng) * pi * 2)
                    * (sqrt (fst (SeededRandom_next (snd (SeededRandom_next rng)))) * 1000))
                 sz e]
          @ take (150 - (0 + 1))
              (fst (spawnPatternObjects groveWorld
                 (WORLD_CENTER_X + cos (fst (SeededRandom_next rng) * pi * 2)
                    * (sqrt (fst (SeededRandom_next (snd (SeededRandom_next rng)))) * 1000))
                 (WORLD_CENTER_Y + sin (fst (SeededRandom_next rng) * pi * 2)
                    * (sqrt (fst (SeededRandom_next (snd (SeededRandom_next rng)))) * 1000))
                 e (((snd \<circ> SeededRandom_next) ^^ 5) rng)))"
    unfolding e_def by blast
  then show ?thesis
    unfolding u1 u2 r15 pattern_bush[OF pat] mx cnt r16 clusterLoop_grove rng_def[symmetric] e_def[symmetric]
    by (intro exI[of _ sz]) (simp del: upt_Suc funpow.simps)
qed

lemma grove_rings:
  "objects (spawnWorldObjects groveWorld seedingState)
     = fst (snd (ringLoop groveWorld Spring 12 WORLD_CENTER_X WORLD_CENTER_Y 1000 150 3 745
                   (\<lparr>rngSeed = 23373, rngState = 18315681503\<rparr>, [], 0)))"
proof -
  define s0 where "s0 = seedingState\<lparr>objects := []\<rparr>"
  have p: "player s0 = Some (newPlayer WORLD_CENTER_X WORLD_CENTER_Y 12)"
    by (simp add: s0_def seedingState_def)
  have b: "fst (spawnObjectsAroundPlayer groveWorld WORLD_CENTER_X WORLD_CENTER_Y 100 t ri s0) = s0"
    "fst (spawnObjectsAroundPlayer groveWorld WORLD_CENTER_X WORLD_CENTER_Y 300 t ri s0) = s0"
    "fst (spawnObjectsAroundPlayer groveWorld WORLD_CENTER_X WORLD_CENTER_Y 600 t ri s0) = s0" for t ri
    by (rule spawnObjectsAroundPlayer_barren; simp)+
  have "spawnWorldObjects groveWorld seedingState
          = fst (spawnObjectsAroundPlayer groveWorld WORLD_CENTER_X WORLD_CENTER_Y 1000 150 3 s0)"
    unfolding spawnWorldObjects_def Let_def s0_def[symmetric] p
    by (simp add: newPlayer_def b)
  moreover have "objects (fst (spawnObjectsAroundPlayer groveWorld WORLD_CENTER_X WORLD_CENTER_Y 1000 150 3 s0))
          = fst (snd (ringLoop groveWorld Spring 12 WORLD_CENTER_X WORLD_CENTER_Y 1000 150 3 750
                   (\<lparr>rngSeed = 23373, rngState = 23373\<rparr>, [], 0)))"
    unfolding spawnObjectsAroundPlayer_def Let_def p
    by (simp add: s0_def seedingState_def tickState_def getCurrentSeason_def newPlayer_def
          WORLD_SEED_def newSeededRandom_def)
  ultimately show ?thesis by (simp only: ring3_first_attempts)
qed

lemma grove_objects:
  "\<exists>sz ext.
     objects (spawnWorldObjects groveWorld seedingState)
     = (newGameObject
         (WORLD_CENTER_X + cos (1960393232 / 4294967296 * pi * 2) * (sqrt (3604797568 / 4294967296) * 1000))
         (WORLD_CENTER_Y + sin (1960393232 / 4294967296 * pi * 2) * (sqrt (3604797568 / 4294967296) * 1000))
         sz (bushEntry\<lparr>adjustedWeight := Some (adjustWeight (Some 12) bushEntry)\<rparr>)
       # map (\<lambda>k. last (snd (clusterStep groveWorld
            (WORLD_CENTER_X + cos (1960393232 / 4294967296 * pi * 2) * (sqrt (3604797568 / 4294967296) * 1000))
            (WORLD_CENTER_Y + sin (1960393232 / 4294967296 * pi * 2) * (sqrt (3604797568 / 4294967296) * 1000))
            (bushEntry\<lparr>adjustedWeight := Some (adjustWeight (Some 12) bushEntry)\<rparr>) 150
            (((snd \<circ> SeededRandom_next) ^^ (3 * k)) \<lparr>rngSeed = 23373, rngState = 29305076381\<rparr>, []))))
           [0..<9]) @ ext"
proof -
  obtain r6 o6 n6 where step:
    "ringStep groveWorld Spring 12 WORLD_CENTER_X WORLD_CENTER_Y 1000 150 3
       (\<lparr>rngSeed = 23373, rngState = 18315681503\<rparr>, [], 0) = (r6, o6, n6)"
    by (cases "ringStep groveWorld Spring 12 WORLD_CENTER_X WORLD_CENTER_Y 1000 150 3
       (\<lparr>rngSeed = 23373, rngState = 18315681503\<rparr>, [], 0)")
  have r: "(0::real) \<le> 1000" by simp
  from ringStep_invariant[OF r step] have n6: "n6 \<le> 150" by auto
  obtain r' o' n' where loop:
    "ringLoop groveWorld Spring 12 WORLD_CENTER_X WORLD_CENTER_Y 1000 150 3 744 (r6, o6, n6) = (r', o', n')"
    by (cases "ringLoop groveWorld Spring 12 WORLD_CENTER_X WORLD_CENTER_Y 1000 150 3 744 (r6, o6, n6)")
  from ringLoop_invariant[OF r n6 loop] obtain ext where ext: "o' = o6 @ ext" by blast
  have "ringLoop groveWorld Spring 12 WORLD_CENTER_X WORLD_CENTER_Y 1000 150 3 745
          (\<lparr>rngSeed = 23373, rngState = 18315681503\<rparr>, [], 0) = (r', o', n')"
    by (subst ringLoop_unroll) (simp_all add: step loop)
  then have objs: "objects (spawnWorldObjects groveWorld seedingState) = o6 @ ext"
    unfolding grove_rings by (simp add: ext)
  from ring3_sixth_attempt[of Spring] step obtain sz where
    "o6 = newGameObject
         (WORLD_CENTER_X + cos (1960393232 / 4294967296 * pi * 2) * (sqrt (3604797568 / 4294967296) * 1000))
         (WORLD_CENTER_Y + sin (1960393232 / 4294967296 * pi * 2) * (sqrt (3604797568 / 4294967296) * 1000))
         sz (bushEntry\<lparr>adjustedWeight := Some (adjustWeight (Some 12) bushEntry)\<rparr>)
       # map (\<lambda>k. last (snd (clusterStep groveWorld
            (WORLD_CENTER_X + cos (1960393232 / 4294967296 * pi * 2) * (sqrt (3604797568 / 4294967296) * 1000))
            (WORLD_CENTER_Y + sin (1960393232 / 4294967296 * pi * 2) * (sqrt (3604797568 / 4294967296) * 1000))
            (bushEntry\<lparr>adjustedWeight := Some (adjustWeight (Some 12) bushEntry)\<rparr>) 150
            (((snd \<circ> SeededRandom_next) ^^ (3 * k)) \<lparr>rngSeed = 23373, rngState = 29305076381\<rparr>, []))))
           [0..<9]"
    unfolding step fst_conv snd_conv by blast
  with objs show ?thesis by blast
qed

lemma fifth_cluster_object:
  "last (snd (clusterStep groveWorld sx sy e 150
       (((snd \<circ> SeededRandom_next) ^^ (3 * 4)) \<lparr>rngSeed = 23373, rngState = 29305076381\<rparr>, [])))
   = newGameObject
       (wrapCoord (sx + cos (1969628649 / 4294967296 * pi * 2) * (4084824347 / 4294967296 * 150)) WORLD_WIDTH)
       (wrapCoord (sy + sin (1969628649 / 4294967296 * pi * 2) * (4084824347 / 4294967296 * 150)) WORLD_HEIGHT)
       (minSize e + fst (SeededRandom_next \<lparr>rngSeed = 23373, rngState = 54946997763\<rparr>)
                      * (maxSize e - minSize e)) e"
proof -
  have r28: "((snd \<circ> SeededRandom_next) ^^ (3 * 4)) \<lparr>rngSeed = 23373, rngState = 29305076381\<rparr>
        = \<lparr>rngSeed = 23373, rngState = 51283866137\<rparr>"
    by (simp add: eval_nat_numeral next_snd)
  have r29: "snd (SeededRandom_next \<lparr>rngSeed = 23373, rngState = 51283866137\<rparr>)
        = \<lparr>rngSeed = 23373, rngState = 53115431950\<rparr>"
    and r30: "snd (SeededRandom_next \<lparr>rngSeed = 23373, rngState = 53115431950\<rparr>)
        = \<lparr>rngSeed = 23373, rngState = 54946997763\<rparr>"
    by (simp_all add: next_snd)
  show ?thesis
    unfolding r28 clusterStep_grove snd_conv append_Nil last.simps r29 r30 ring3_draws
    by simp
qed

text \<open>
  C2, as stated, fails for the pattern expansions. In the grove world (nothing grows within
  900 of the world center; beyond, bushes of size 20 to 50 in clusters), with world seed
  42, the agent of size 12 at the world center and the season spring, the sixth attempt of
  the fourth ring places a seed at about 916 from the center. Its cluster radius is
  \<open>max 60 (3 * 50) = 150\<close>, and the fifth object of its cluster is drawn at about 143
  from the seed in nearly the seed's direction. This object, the sixth of the population,
  lies farther than 1040 from the world center.
\<close>

theorem ring_seeding_pattern_escapes:
  "5 < length (objects (spawnWorldObjects groveWorld seedingState)) \<and>
   1040 < getWrappedDistance (ox (objects (spawnWorldObjects groveWorld seedingState) ! 5))
            (oy (objects (spawnWorldObjects groveWorld seedingState) ! 5))
            WORLD_CENTER_X WORLD_CENTER_Y"
proof -
  define a :: real where "a = 1960393232 / 4294967296 * pi * 2"
  define d :: real where "d = sqrt (3604797568 / 4294967296) * 1000"
  define b :: real where "b = 1969628649 / 4294967296 * pi * 2"
  define r :: real where "r = 4084824347 / 4294967296 * 150"
  define e where "e = bushEntry\<lparr>adjustedWeight := Some (adjustWeight (Some 12) bushEntry)\<rparr>"
  define f where "f = (\<lambda>k. last (snd (clusterStep groveWorld (WORLD_CENTER_X + cos a * d)
            (WORLD_CENTER_Y + sin a * d) e 150
            (((snd \<circ> SeededRandom_next) ^^ (3 * k)) \<lparr>rngSeed = 23373, rngState = 29305076381\<rparr>, []))))"
  from grove_objects obtain sz ext where
    objs: "objects (spawnWorldObjects groveWorld seedingState)
           = (newGameObject (WORLD_CENTER_X + cos a * d) (WORLD_CENTER_Y + sin a * d) sz e
              # map f [0..<9]) @ ext"
    unfolding a_def d_def e_def f_def by blast
  have len: "5 < length (objects (spawnWorldObjects groveWorld seedingState))"
    unfolding objs by simp
  have "objects (spawnWorldObjects groveWorld seedingState) ! 5 = map f [0..<9] ! 4"
    unfolding objs by (simp add: nth_append del: upt_Suc)
  also have "\<dots> = f 4" by (simp del: upt_Suc)
  finally have fifth: "objects (spawnWorldObjects groveWorld seedingState) ! 5 = f 4" .
  have f4: "f 4 = newGameObject
       (wrapCoord (WORLD_CENTER_X + cos a * d + cos b * r) WORLD_WIDTH)
       (wrapCoord (WORLD_CENTER_Y + sin a * d + sin b * r) WORLD_HEIGHT)
       (minSize e + fst (SeededRandom_next \<lparr>rngSeed = 23373, rngState = 54946997763\<rparr>)
                      * (maxSize e - minSize e)) e"
    unfolding f_def b_def r_def by (rule fifth_cluster_object)
  have "(0.916 :: real) \<le> sqrt (3604797568 / 4294967296)"
    by (rule real_le_rsqrt) (simp add: power2_eq_square)
  then have d1: "916 \<le> d" by (simp add: d_def)
  have "sqrt (3604797568 / 4294967296) \<le> (1 :: real)" by simp
  then have d2: "d \<le> 1000" by (simp add: d_def)
  have r1: "142 \<le> r" and r2: "r \<le> 150" by (simp_all add: r_def)
  have ba: "b - a = pi * (9235417 / 2147483648)" by (simp add: a_def b_def algebra_simps)
  have t1: "0 \<le> b - a" unfolding ba by simp
  have "pi * (9235417 / 2147483648) \<le> pi * (1 / 6)" by (intro mult_left_mono) simp_all
  then have t2: "b - a \<le> pi / 6" unfolding ba by simp
  from cluster_far[OF d1 d2 r1 r2 t1 t2] len show ?thesis
    unfolding fifth f4 by (simp add: newGameObject_def)
qed

text \<open>
  C2, amended. For every world, every state and every agent position, seeding the four
  rings leaves at most 500 objects (80 + 120 + 150 + 150: the pattern objects count
  against the target of their ring). With the agent at the world center (or no agent,
  where the center is used), every object lies within 1000 plus the reach of its type of
  the center (toroidal distance): 1000 for a scattered type, 1000 plus
  \<open>max 60 (3 * maxSize)\<close> for a clustered type, 1000 plus 11 spacings
  (\<open>max (1.5 * maxSize) 35\<close>) for a grid type. The bound of 1000 alone holds for the seeds.
\<close>

theorem ring_seeding_bound:
  "length (objects (spawnWorldObjects world st)) \<le> 500 \<and>
   ((case player st of None \<Rightarrow> True | Some p \<Rightarrow> px p = WORLD_CENTER_X \<and> py p = WORLD_CENTER_Y) \<longrightarrow>
      (\<forall>obj\<in>set (objects (spawnWorldObjects world st)).
         getWrappedDistance (ox obj) (oy obj) WORLD_CENTER_X WORLD_CENTER_Y
           \<le> 1000 + patternReach (otype obj)))"
proof -
  from spawnWorldObjects_rings[of world st]
  obtain e0 e1 e2 e3 where e: "objects (spawnWorldObjects world st) = e0 @ e1 @ e2 @ e3"
      "length e0 \<le> 80" "length e1 \<le> 120" "length e2 \<le> 150" "length e3 \<le> 150"
      "(case player st of None \<Rightarrow> True | Some p \<Rightarrow> px p = WORLD_CENTER_X \<and> py p = WORLD_CENTER_Y) \<longrightarrow>
         list_all withinReach e0 \<and> list_all withinReach e1 \<and> list_all withinReach e2 \<and>
         list_all withinReach e3"
    by blast
  have len: "length (objects (spawnWorldObjects world st)) \<le> 500"
    unfolding e(1) length_append using e(2-5) by linarith
  have "\<forall>obj\<in>set (e0 @ e1 @ e2 @ e3). getWrappedDistance (ox obj) (oy obj) WORLD_CENTER_X WORLD_CENTER_Y
           \<le> 1000 + patternReach (otype obj)"
    if "list_all withinReach e0 \<and> list_all withinReach e1 \<and> list_all withinReach e2 \<and> list_all withinReach e3"
    using that unfolding list_all_iff withinReach_def by auto
  with e(6) len show ?thesis unfolding e(1) by blast
qed

theorem ring_seeding_bound_witness:
  "(case player seedingState of None \<Rightarrow> True
    | Some p \<Rightarrow> px p = WORLD_CENTER_X \<and> py p = WORLD_CENTER_Y) \<and>
   length (objects (spawnWorldObjects groveWorld seedingState)) \<le> 500 \<and>
   list_all (\<lambda>obj. getWrappedDistance (ox obj) (oy obj) WORLD_CENTER_X WORLD_CENTER_Y
                     \<le> 1000 + patternReach (otype obj))
     (objects (spawnWorldObjects groveWorld seedingState))"
proof -
  have h: "case player seedingState of None \<Rightarrow> True
           | Some p \<Rightarrow> px p = WORLD_CENTER_X \<and> py p = WORLD_CENTER_Y"
    by (simp add: seedingState_def newPlayer_def)
  from ring_seeding_bound[of groveWorld seedingState] h show ?thesis
    unfolding list_all_iff by blast
qed

end
